(* ===== verification/Prelude.thy ===== *)
theory Prelude
  imports Main
begin

section \<open>Prelude: shared types, errors, results and lemma collections\<close>

text \<open>
  What every component of the development shares: the types of Go that the four services
  use (\<open>uint\<close>, \<open>time\<close>), the error values that \<open>errors.Is\<close> distinguishes, results with
  state, and generic lemmas about filtered lists. Identifiers (\<open>uint\<close> in the source) are
  natural numbers: every way an identifier enters the program (the parsers of theory
  GoStd, a BIGSERIAL column) bounds it below \<open>2 ^ 64\<close>, and the program only compares
  identifiers. Page arithmetic, which does overflow, is written out with its wrap-around
  where it is used. A \<open>time\<close> is a number of nanoseconds, as in Go's \<open>time\<close> package.
\<close>

named_theorems frame_rules \<open>what an operation leaves unchanged\<close>
named_theorems inv_rules \<open>preservation of a component's invariant\<close>

type_synonym uint = nat
type_synonym time = int
type_synonym duration = int

abbreviation millisecond :: duration where "millisecond \<equiv> 1000000"
abbreviation second :: duration where "second \<equiv> 1000000000"
abbreviation minute :: duration where "minute \<equiv> 60000000000"
abbreviation hour :: duration where "hour \<equiv> 3600000000000"

text \<open>
  The sentinel errors of the source that some caller tells apart with \<open>errors.Is\<close>, and the
  errors of the libraries underneath that it does not: GORM's \<open>ErrRecordNotFound\<close>, a failed
  statement, a violated UNIQUE constraint, and the errors of bcrypt and of JWT signing.
\<close>

datatype err =
    ErrRecordNotFound
  | ErrDatabase
  | ErrDuplicatedKey
  | ErrHash
  | ErrSign
  | ErrEmailTaken
  | ErrWrongPassword
  | ErrInvalidAvailability
  | ErrTokenNotFound
  | ErrForbidden
  | ErrAlreadyAssigned
  | ErrInvalidTransition
  | ErrAttachmentTooLarge

type_synonym ('s, 'a) result = "(err + 'a) \<times> 's"

text \<open>
  The Go idiom \<open>x, err := f(); if err != nil { return err }\<close>: an error value stops the
  operation in the state reached so far.
\<close>

fun and_then :: "('s, 'a) result \<Rightarrow> ('a \<Rightarrow> 's \<Rightarrow> ('s, 'b) result) \<Rightarrow> ('s, 'b) result" where
  "and_then (Inl e, s) k = (Inl e, s)"
| "and_then (Inr x, s) k = k x s"

lemma and_then_Inr:
  assumes "and_then r k = (Inr y, t)"
  obtains x s where "r = (Inr x, s)" and "k x s = (Inr y, t)"
  using assms by (cases "(r, k)" rule: and_then.cases) auto

lemma and_then_eq_Inr:
  "and_then r k = (Inr y, t) \<longleftrightarrow> (\<exists>x s. r = (Inr x, s) \<and> k x s = (Inr y, t))"
  by (cases "(r, k)" rule: and_then.cases) auto

lemma and_then_eq_Inl:
  "and_then r k = (Inl e, t) \<longleftrightarrow> r = (Inl e, t) \<or> (\<exists>x s. r = (Inr x, s) \<and> k x s = (Inl e, t))"
  by (cases "(r, k)" rule: and_then.cases) auto

lemma and_then_cases:
  assumes "and_then r k = (z, t)"
  obtains (err) e where "r = (Inl e, t)" and "z = Inl e"
        | (ok) x s where "r = (Inr x, s)" and "k x s = (z, t)"
  using assms by (cases "(r, k)" rule: and_then.cases) auto

lemma map_sum_eq_Inr: "map_sum f g x = Inr y \<longleftrightarrow> (\<exists>z. x = Inr z \<and> y = g z)"
  by (cases x) auto

section \<open>Lists as tables\<close>

lemma distinct_map_filter: "distinct (map f xs) \<Longrightarrow> distinct (map f (filter P xs))"
  by (induction xs) auto

lemma filter_length_le_card:
  assumes "distinct (map f xs)" and "\<And>x. x \<in> set xs \<Longrightarrow> P x \<Longrightarrow> f x \<in> A" and "finite A"
  shows "length (filter P xs) \<le> card A"
proof -
  have "length (filter P xs) = card (set (map f (filter P xs)))"
    using distinct_card [OF distinct_map_filter [OF assms(1), of P]] by simp
  also have "\<dots> \<le> card A"
    using assms(2,3) by (intro card_mono) auto
  finally show ?thesis .
qed

lemma filter_eq_Nil_iff: "filter P xs = [] \<longleftrightarrow> (\<forall>x\<in>set xs. \<not> P x)"
  by (simp add: filter_empty_conv)

lemma length_filter_mono:
  "(\<And>x. x \<in> set xs \<Longrightarrow> P x \<Longrightarrow> Q x) \<Longrightarrow> length (filter P xs) \<le> length (filter Q xs)"
  by (induction xs) auto

lemma find_distinct_key:
  assumes "distinct (map f xs)" and "x \<in> set xs"
  shows "List.find (\<lambda>y. f y = f x) xs = Some x"
  using assms by (induction xs) (auto simp: image_iff)

lemma find_None_filter: "List.find P xs = None \<longleftrightarrow> filter P xs = []"
  by (auto simp: find_None_iff filter_empty_conv)

lemma in_remove1: "x \<in> set xs \<Longrightarrow> x \<noteq> y \<Longrightarrow> x \<in> set (remove1 y xs)"
  by (induction xs) auto

lemma filter_remove1: "x \<in> set xs \<Longrightarrow> length (filter P xs) = length (filter P (remove1 x xs)) + (if P x then 1 else 0)"
  by (induction xs) auto

section \<open>Sequences of calls\<close>

text \<open>
  A list of calls, run one after the other: the state they lead to and what each returned.
  A list of calls of several clients is one interleaving of them.
\<close>

fun run_steps :: "('op \<Rightarrow> 's \<Rightarrow> 'r \<times> 's) \<Rightarrow> 'op list \<Rightarrow> 's \<Rightarrow> 's" where
  "run_steps step [] s = s"
| "run_steps step (op # ops) s = run_steps step ops (snd (step op s))"

fun step_results :: "('op \<Rightarrow> 's \<Rightarrow> 'r \<times> 's) \<Rightarrow> 'op list \<Rightarrow> 's \<Rightarrow> 'r list" where
  "step_results step [] s = []"
| "step_results step (op # ops) s = fst (step op s) # step_results step ops (snd (step op s))"

lemma run_steps_append: "run_steps step (xs @ ys) s = run_steps step ys (run_steps step xs s)"
  by (induction xs arbitrary: s) simp_all

lemma run_steps_invariant:
  "I s \<Longrightarrow> (\<And>op s. op \<in> set ops \<Longrightarrow> I s \<Longrightarrow> I (snd (step op s))) \<Longrightarrow> I (run_steps step ops s)"
  by (induction ops arbitrary: s) simp_all

lemma length_step_results [simp]: "length (step_results step ops s) = length ops"
  by (induction ops arbitrary: s) simp_all

lemma sort_key_Nil: "sort_key k xs = [] \<longleftrightarrow> xs = []"
  by (simp only: length_0_conv [symmetric] length_sort)

lemma in_set_nonempty: "x \<in> set xs \<Longrightarrow> xs \<noteq> []"
  by auto

end
