(* ===== verification/GoStd.thy ===== *)
theory GoStd
  imports Prelude "HOL-Library.Char_ord" "HOL-Library.List_Lexorder"
begin

section \<open>What the services use of the Go standard library\<close>

text \<open>
  Strings are lists of bytes, as in Go. Modelled here: \<open>strconv.ParseUint(s, 10, 0)\<close> and
  \<open>strconv.Atoi\<close> (the whole string must be a number), \<open>fmt.Sscanf(s, "%d", &x)\<close> (a prefix of
  the string must be one), the \<open>%v\<close> and \<open>%d\<close> formats of \<open>fmt\<close>, float64 to uint conversion,
  and \<open>strings.Split\<close>, \<open>TrimSpace\<close>, \<open>HasPrefix\<close>. A finite float64 is kept as the shortest
  decimal that identifies it: sign, digits and position of the decimal point, the
  \<open>decimalSlice\<close> that \<open>strconv\<close> computes before it formats a number.
\<close>

subsection \<open>Decimal digits\<close>

definition digit_char :: "nat \<Rightarrow> char" where
  "digit_char d = char_of (48 + d)"

definition is_digit :: "char \<Rightarrow> bool" where
  "is_digit c \<longleftrightarrow> 48 \<le> (of_char c :: nat) \<and> (of_char c :: nat) \<le> 57"

definition digit_val :: "char \<Rightarrow> nat" where
  "digit_val c = of_char c - 48"

fun dec_val :: "nat \<Rightarrow> string \<Rightarrow> nat" where
  "dec_val acc [] = acc"
| "dec_val acc (c # cs) = dec_val (10 * acc + digit_val c) cs"

fun digits :: "nat \<Rightarrow> nat list" where
  "digits n = (if n < 10 then [n] else digits (n div 10) @ [n mod 10])"

declare digits.simps [simp del]

text \<open>\<open>fmt.Sprintf("%d", n)\<close> and \<open>strconv.Itoa\<close> of a number that is not negative.\<close>

definition show_nat :: "nat \<Rightarrow> string" where
  "show_nat n = map digit_char (digits n)"

lemma digit_char_simps [simp]:
  "d < 10 \<Longrightarrow> is_digit (digit_char d)"
  "d < 10 \<Longrightarrow> digit_val (digit_char d) = d"
  by (auto simp: is_digit_def digit_val_def digit_char_def)

lemma digits_small: "d \<in> set (digits n) \<Longrightarrow> d < 10"
proof (induction n rule: digits.induct)
  case (1 n)
  then show ?case
    by (cases "n < 10") (auto simp: digits.simps [of n])
qed

lemma digits_ne: "digits n \<noteq> []"
  by (simp add: digits.simps [of n])

lemma dec_val_append: "dec_val a (xs @ ys) = dec_val (dec_val a xs) ys"
  by (induction xs arbitrary: a) auto

lemma dec_val_digits: "dec_val 0 (map digit_char (digits n)) = n"
proof (induction n rule: digits.induct)
  case (1 n)
  then show ?case
    by (cases "n < 10") (auto simp: digits.simps [of n] dec_val_append)
qed

lemma dec_val_show_nat [simp]: "dec_val 0 (show_nat n) = n"
  by (simp add: show_nat_def dec_val_digits)

lemma show_nat_digits [simp]: "list_all is_digit (show_nat n)"
  by (auto simp: show_nat_def list_all_iff dest: digits_small)

lemma show_nat_ne [simp]: "show_nat n \<noteq> []"
  by (simp add: show_nat_def digits_ne)

subsection \<open>strconv.ParseUint and strconv.Atoi\<close>

definition ParseUint :: "string \<Rightarrow> uint option" where
  "ParseUint s =
     (if s \<noteq> [] \<and> list_all is_digit s \<and> dec_val 0 s < 2 ^ 64 then Some (dec_val 0 s) else None)"

fun Atoi_digits :: "int \<Rightarrow> string \<Rightarrow> int option" where
  "Atoi_digits sg ds =
     (let v = sg * int (dec_val 0 ds)
      in if ds \<noteq> [] \<and> list_all is_digit ds \<and> - (2 ^ 63) \<le> v \<and> v < 2 ^ 63 then Some v else None)"

fun Atoi :: "string \<Rightarrow> int option" where
  "Atoi [] = None"
| "Atoi (c # cs) =
     (if c = CHR ''+'' then Atoi_digits 1 cs
      else if c = CHR ''-'' then Atoi_digits (-1) cs
      else Atoi_digits 1 (c # cs))"

text \<open>Evaluation compares as integers, in binary.\<close>

lemma nat_bound_code: "(n::nat) < 2 ^ 64 \<longleftrightarrow> int n < 18446744073709551616"
  using of_nat_less_iff [of n "2 ^ 64", where ?'a = int] by simp

lemma ParseUint_code [code]:
  "ParseUint s = (if s \<noteq> [] \<and> list_all is_digit s \<and> int (dec_val 0 s) < 18446744073709551616 then Some (dec_val 0 s) else None)"
  by (simp only: ParseUint_def nat_bound_code)

lemma ParseUint_show_nat [simp]: "n < 2 ^ 64 \<Longrightarrow> ParseUint (show_nat n) = Some n"
  by (simp add: ParseUint_def)

lemma ParseUint_bound: "ParseUint s = Some n \<Longrightarrow> n < 2 ^ 64"
  by (auto simp: ParseUint_def split: if_splits)

lemma ParseUint_nondigit: "c \<in> set s \<Longrightarrow> \<not> is_digit c \<Longrightarrow> ParseUint s = None"
  by (auto simp: ParseUint_def list_all_iff)

subsection \<open>White space\<close>

text \<open>The UTF-8 encodings of the runes for which \<open>unicode.IsSpace\<close> holds.\<close>

definition space_runes :: "string list" where
  "space_runes = map (map char_of)
     ([[9], [10], [11], [12], [13], [32], [194, 133], [194, 160 :: nat], [225, 154, 128]]
      @ map (\<lambda>k. [226, 128, k]) ([128..<139] @ [168, 169, 175]) @ [[226, 129, 159], [227, 128, 128]])"

text \<open>Evaluation takes the bytes as they are.\<close>

lemma space_runes_code [code]:
  "space_runes = [[CHR 0x09], [CHR 0x0A], [CHR 0x0B], [CHR 0x0C], [CHR 0x0D], [CHR 0x20],
     [CHR 0xC2, CHR 0x85], [CHR 0xC2, CHR 0xA0], [CHR 0xE1, CHR 0x9A, CHR 0x80], [CHR 0xE2, CHR 0x80, CHR 0x80], [CHR 0xE2, CHR 0x80, CHR 0x81], [CHR 0xE2, CHR 0x80, CHR 0x82],
     [CHR 0xE2, CHR 0x80, CHR 0x83], [CHR 0xE2, CHR 0x80, CHR 0x84], [CHR 0xE2, CHR 0x80, CHR 0x85], [CHR 0xE2, CHR 0x80, CHR 0x86], [CHR 0xE2, CHR 0x80, CHR 0x87], [CHR 0xE2, CHR 0x80, CHR 0x88],
     [CHR 0xE2, CHR 0x80, CHR 0x89], [CHR 0xE2, CHR 0x80, CHR 0x8A], [CHR 0xE2, CHR 0x80, CHR 0xA8], [CHR 0xE2, CHR 0x80, CHR 0xA9], [CHR 0xE2, CHR 0x80, CHR 0xAF], [CHR 0xE2, CHR 0x81, CHR 0x9F],
     [CHR 0xE3, CHR 0x80, CHR 0x80]]"
  by (simp add: space_runes_def char_of_def upt_rec bit_0)

fun is_prefix :: "string \<Rightarrow> string \<Rightarrow> bool" where
  "is_prefix [] s = True"
| "is_prefix (p # ps) [] = False"
| "is_prefix (p # ps) (c # cs) = (p = c \<and> is_prefix ps cs)"

text \<open>\<open>strings.HasPrefix\<close> and \<open>strings.TrimPrefix\<close>.\<close>

abbreviation HasPrefix :: "string \<Rightarrow> string \<Rightarrow> bool" where
  "HasPrefix s p \<equiv> is_prefix p s"

definition TrimPrefix :: "string \<Rightarrow> string \<Rightarrow> string" where
  "TrimPrefix s p = (if HasPrefix s p then drop (length p) s else s)"

definition space_len :: "string list \<Rightarrow> string \<Rightarrow> nat" where
  "space_len rs s = (case List.find (\<lambda>r. is_prefix r s) rs of None \<Rightarrow> 0 | Some r \<Rightarrow> length r)"

lemma is_prefix_append [simp]: "is_prefix p (p @ s)"
  by (induction p) auto

lemma is_prefix_length: "is_prefix p s \<Longrightarrow> length p \<le> length s"
  by (induction p s rule: is_prefix.induct) auto

lemma TrimPrefix_append [simp]: "TrimPrefix (p @ s) p = s"
  by (simp add: TrimPrefix_def)

lemma space_len_le: "space_len rs s \<le> length s"
  by (auto simp: space_len_def find_Some_iff dest!: is_prefix_length split: option.splits)

function trim_left :: "string list \<Rightarrow> string \<Rightarrow> string" where
  "trim_left rs s = (if space_len rs s = 0 then s else trim_left rs (drop (space_len rs s) s))"
  by pat_completeness auto
termination
proof (relation "measure (\<lambda>(rs, s). length s)")
  fix rs s assume "space_len rs s \<noteq> 0"
  with space_len_le [of rs s] show "((rs, drop (space_len rs s) s), (rs, s)) \<in> measure (\<lambda>(rs, s). length s)"
    by simp
qed simp

declare trim_left.simps [simp del]

text \<open>\<open>strings.TrimSpace\<close>: leading runes, then trailing ones (the reversed encodings).\<close>

definition TrimSpace :: "string \<Rightarrow> string" where
  "TrimSpace s = rev (trim_left (map rev space_runes) (rev (trim_left space_runes s)))"

text \<open>\<open>strings.Split(s, sep)\<close> for a one-byte separator: never empty.\<close>

fun Split :: "char \<Rightarrow> string \<Rightarrow> string list" where
  "Split sep [] = [[]]"
| "Split sep (c # cs) =
     (if c = sep then [] # Split sep cs
      else (case Split sep cs of [] \<Rightarrow> [[c]] | w # ws \<Rightarrow> (c # w) # ws))"

lemma Split_ne [simp]: "Split sep s \<noteq> []"
  by (induction s) (auto split: list.splits)

subsection \<open>fmt.Sscanf with the verb d\<close>

text \<open>
  \<open>Sscanf\<close> skips white space (a line break is an error there), reads a run of digits and
  stops at the first byte that is not one. Whatever follows is left unread and is no error:
  \<open>Sscanf("7abc", "%d", &x)\<close> succeeds with \<open>7\<close>. \<open>None\<close> is the error, on which the
  variable keeps its old value.
\<close>

definition is_newline :: "string \<Rightarrow> bool" where
  "is_newline s \<longleftrightarrow> is_prefix [char_of (10 :: nat)] s \<or> is_prefix [char_of (13 :: nat), char_of (10 :: nat)] s"

function skip_space :: "string \<Rightarrow> string option" where
  "skip_space s =
     (if is_newline s then None
      else if space_len space_runes s = 0 then Some s
      else skip_space (drop (space_len space_runes s) s))"
  by pat_completeness auto
termination
proof (relation "measure length")
  fix s assume "space_len space_runes s \<noteq> 0"
  with space_len_le [of space_runes s] show "(drop (space_len space_runes s) s, s) \<in> measure length"
    by simp
qed simp

declare skip_space.simps [simp del]

definition Sscanf_uint :: "string \<Rightarrow> uint option" where
  "Sscanf_uint s =
     (case skip_space s of
        None \<Rightarrow> None
      | Some t \<Rightarrow>
          let ds = takeWhile is_digit t
          in if ds \<noteq> [] \<and> dec_val 0 ds < 2 ^ 64 then Some (dec_val 0 ds) else None)"

lemma Sscanf_uint_code [code]:
  "Sscanf_uint s =
     (case skip_space s of
        None \<Rightarrow> None
      | Some t \<Rightarrow>
          let ds = takeWhile is_digit t
          in if ds \<noteq> [] \<and> int (dec_val 0 ds) < 18446744073709551616 then Some (dec_val 0 ds) else None)"
  by (simp only: Sscanf_uint_def nat_bound_code)

definition Sscanf_int :: "string \<Rightarrow> int option" where
  "Sscanf_int s =
     (case skip_space s of
        None \<Rightarrow> None
      | Some t \<Rightarrow>
          let neg = is_prefix ''-'' t;
              u = (if neg \<or> is_prefix ''+'' t then drop 1 t else t);
              ds = takeWhile is_digit u;
              v = (if neg then - int (dec_val 0 ds) else int (dec_val 0 ds))
          in if ds \<noteq> [] \<and> - (2 ^ 63) \<le> v \<and> v < 2 ^ 63 then Some v else None)"

text \<open>Nothing that starts with a digit is white space.\<close>

lemma space_len_digit:
  assumes "is_digit c"
  shows "space_len space_runes (c # cs) = 0"
proof -
  have heads: "\<forall>r\<in>set space_runes. r \<noteq> [] \<and> \<not> is_digit (hd r)"
    by (simp add: space_runes_def is_digit_def upt_conv_Cons)
  have "\<not> is_prefix r (c # cs)" if "r \<in> set space_runes" for r
    using heads that assms by (cases r) auto
  then show ?thesis
    by (auto simp: space_len_def find_Some_iff split: option.splits)
qed

lemma skip_space_digit:
  assumes "is_digit c"
  shows "skip_space (c # cs) = Some (c # cs)"
proof -
  have "\<not> is_newline (c # cs)"
    using assms by (auto simp: is_newline_def is_digit_def)
  then show ?thesis
    using space_len_digit [OF assms] by (subst skip_space.simps) simp
qed

text \<open>Evaluation starts with the usual case, a digit.\<close>

lemma skip_space_code [code]:
  "skip_space s =
     (if s \<noteq> [] \<and> is_digit (hd s) then Some s
      else if is_newline s then None
      else if space_len space_runes s = 0 then Some s
      else skip_space (drop (space_len space_runes s) s))"
proof (cases "s \<noteq> [] \<and> is_digit (hd s)")
  case True
  then show ?thesis using skip_space_digit [of "hd s" "tl s"] by simp
next
  case False
  then show ?thesis by (subst skip_space.simps) (simp only: if_False)
qed

lemma Sscanf_uint_digits:
  assumes "ds \<noteq> []" and "list_all is_digit ds" and "rest = [] \<or> \<not> is_digit (hd rest)"
    and "dec_val 0 ds < 2 ^ 64"
  shows "Sscanf_uint (ds @ rest) = Some (dec_val 0 ds)"
proof -
  obtain c cs where ds: "ds = c # cs" using assms(1) by (cases ds) auto
  have "takeWhile is_digit (ds @ rest) = ds"
    using assms(2,3) by (cases rest) (auto simp: list_all_iff takeWhile_append2)
  moreover have "skip_space (ds @ rest) = Some (ds @ rest)"
    using skip_space_digit [of c "cs @ rest"] assms(2) ds by simp
  ultimately show ?thesis
    using assms(1,4) by (simp add: Sscanf_uint_def)
qed

lemma Sscanf_uint_show_nat [simp]: "n < 2 ^ 64 \<Longrightarrow> Sscanf_uint (show_nat n) = Some n"
  using Sscanf_uint_digits [of "show_nat n" "[]"] by simp

lemma Sscanf_uint_bound: "Sscanf_uint s = Some n \<Longrightarrow> n < 2 ^ 64"
  by (auto simp: Sscanf_uint_def Let_def split: option.splits if_splits)

lemma Sscanf_int_show_nat [simp]:
  assumes "n < 2 ^ 63"
  shows "Sscanf_int (show_nat n) = Some (int n)"
proof -
  obtain c cs where c: "show_nat n = c # cs" using show_nat_ne [of n] by (cases "show_nat n") auto
  have d: "is_digit c" and all: "list_all is_digit (show_nat n)" using show_nat_digits [of n] c by simp_all
  have "\<not> is_prefix ''-'' (show_nat n)" "\<not> is_prefix ''+'' (show_nat n)" using d c by (auto simp: is_digit_def)
  moreover have "skip_space (show_nat n) = Some (show_nat n)" using skip_space_digit [OF d] c by simp
  moreover have tw: "takeWhile is_digit (show_nat n) = show_nat n" using all by (simp add: list_all_iff takeWhile_eq_all_conv)
  moreover have "int n < 2 ^ 63" using assms of_nat_less_iff [of n "2 ^ 63", where ?'a = int] by simp
  ultimately show ?thesis by (simp add: Sscanf_int_def Let_def tw)
qed

section \<open>encoding/hex\<close>

text \<open>\<open>hex.EncodeToString\<close>.\<close>

definition hex_digit :: "nat \<Rightarrow> char" where
  "hex_digit d = ''0123456789abcdef'' ! (d mod 16)"

definition hex_encode :: "string \<Rightarrow> string" where
  "hex_encode s = concat (map (\<lambda>c. [hex_digit (of_char c div 16), hex_digit (of_char c mod 16)]) s)"

section \<open>int and time.Duration\<close>

text \<open>The value of an \<open>int\<close> expression: the 64-bit two's complement of the exact result.\<close>

definition wrap64 :: "int \<Rightarrow> int" where
  "wrap64 x = (x + 2 ^ 63) mod 2 ^ 64 - 2 ^ 63"

lemma wrap64_id [simp]: "- (2 ^ 63) \<le> x \<Longrightarrow> x < 2 ^ 63 \<Longrightarrow> wrap64 x = x"
  by (simp add: wrap64_def)

lemma wrap64_range: "- (2 ^ 63) \<le> wrap64 x \<and> wrap64 x < 2 ^ 63"
  using pos_mod_bound [of "2 ^ 64" "x + 2 ^ 63"] pos_mod_sign [of "2 ^ 64" "x + 2 ^ 63"] by (simp add: wrap64_def)

section \<open>Dates\<close>

text \<open>
  \<open>time.Parse("2006-01-02", s)\<close>: four, two and two digits, a month of the year and a day of that
  month; midnight UTC of that day, in nanoseconds since 1970.
\<close>

definition leap_year :: "int \<Rightarrow> bool" where
  "leap_year y \<longleftrightarrow> y mod 4 = 0 \<and> (y mod 100 \<noteq> 0 \<or> y mod 400 = 0)"

definition days_in :: "int \<Rightarrow> nat \<Rightarrow> nat" where
  "days_in y m = (if m = 2 then (if leap_year y then 29 else 28) else if m \<in> {4, 6, 9, 11} then 30 else 31)"

definition days_before_year :: "int \<Rightarrow> int" where
  "days_before_year y = 365 * y + (y + 3) div 4 - (y + 99) div 100 + (y + 399) div 400"

definition unix_days :: "int \<Rightarrow> nat \<Rightarrow> nat \<Rightarrow> int" where
  "unix_days y m d = days_before_year y - days_before_year 1970 + int (sum_list (map (days_in y) [1..<m])) + int d - 1"

abbreviation day :: duration where "day \<equiv> 24 * hour"

definition ParseDate :: "string \<Rightarrow> time option" where
  "ParseDate s =
     (if length s = 10 \<and> s ! 4 = CHR ''-'' \<and> s ! 7 = CHR ''-'' \<and> list_all is_digit (take 4 s @ take 2 (drop 5 s) @ drop 8 s)
      then let y = int (dec_val 0 (take 4 s)); m = dec_val 0 (take 2 (drop 5 s)); d = dec_val 0 (drop 8 s)
           in if 1 \<le> m \<and> m \<le> 12 \<and> 1 \<le> d \<and> d \<le> days_in y m then Some (unix_days y m d * day) else None
      else None)"

lemma ParseDate_examples:
  "ParseDate ''1970-01-01'' = Some 0" "ParseDate ''2024-02-29'' = Some (19782 * day)" "ParseDate ''2023-02-29'' = None"
  by code_simp+

end
