(* ===== verification/Json.thy ===== *)
theory Json
  imports GoStd
begin

section \<open>Decoded JSON values, float64 and the v format\<close>

text \<open>
  A JSON number decoded into \<open>interface{}\<close> is a float64. A finite float64 is represented by
  the shortest decimal that identifies it, as \<open>strconv\<close> computes it before formatting:
  \<open>Float64 neg ds dp\<close> is \<open>0.d1 d2 .. dn * 10 ^ dp\<close>, negated if \<open>neg\<close>, with \<open>ds\<close> free of
  leading and trailing zeros. An integer below \<open>2 ^ 53\<close> is exact as a float64, and its
  shortest decimal is its digits without the trailing zeros (\<open>f64_of_nat\<close>).
\<close>

datatype float64 = Float64 (f_neg: bool) (f_digits: "nat list") (f_dp: int)

definition strip_zeros :: "nat list \<Rightarrow> nat list" where
  "strip_zeros ds = rev (dropWhile (\<lambda>d. d = 0) (rev ds))"

definition f64_of_nat :: "nat \<Rightarrow> float64" where
  "f64_of_nat n = (if n = 0 then Float64 False [] 0
                   else Float64 False (strip_zeros (digits n)) (int (length (digits n))))"

text \<open>The digit at position \<open>i\<close>, \<open>0\<close> outside the stored digits.\<close>

definition digit_at :: "nat list \<Rightarrow> int \<Rightarrow> nat" where
  "digit_at ds i = (if 0 \<le> i \<and> i < int (length ds) then ds ! nat i else 0)"

text \<open>\<open>strconv\<close>'s \<open>fmtE\<close> and \<open>fmtF\<close> for the shortest precision.\<close>

definition fmt_exponent :: "int \<Rightarrow> string" where
  "fmt_exponent e =
     (let a = nat \<bar>e\<bar>
      in (if e < 0 then ''-'' else ''+'') @ (if a < 10 then ''0'' @ show_nat a else show_nat a))"

definition fmtE :: "bool \<Rightarrow> nat list \<Rightarrow> int \<Rightarrow> string" where
  "fmtE neg ds dp =
     (if neg then ''-'' else '''') @ [digit_char (digit_at ds 0)]
     @ (if length ds > 1 then ''.'' @ map digit_char (tl ds) else '''')
     @ ''e'' @ fmt_exponent (if ds = [] then 0 else dp - 1)"

definition fmtF :: "bool \<Rightarrow> nat list \<Rightarrow> int \<Rightarrow> string" where
  "fmtF neg ds dp =
     (let prec = max (int (length ds) - dp) 0
      in (if neg then ''-'' else '''')
         @ (if dp > 0 then map (\<lambda>i. digit_char (digit_at ds (int i))) [0..<nat dp] else ''0'')
         @ (if prec > 0 then ''.'' @ map (\<lambda>i. digit_char (digit_at ds (dp + int i))) [0..<nat prec]
            else ''''))"

text \<open>
  The \<open>%g\<close> format with the shortest precision, which is what \<open>%v\<close> uses for a float64: the
  exponent form when the decimal exponent is below \<open>-4\<close> or at least \<open>6\<close> (\<open>eprec = 6\<close>).
\<close>

fun fmtG :: "float64 \<Rightarrow> string" where
  "fmtG (Float64 neg ds dp) =
     (if dp - 1 < -4 \<or> dp - 1 \<ge> 6 then fmtE neg ds dp else fmtF neg ds dp)"

text \<open>
  \<open>uint(f)\<close>: truncation towards zero where the result fits. Go leaves the other conversions
  to the implementation; \<open>oob\<close> stands for what the platform returns then.
\<close>

definition f64_trunc :: "float64 \<Rightarrow> nat" where
  "f64_trunc f =
     (if f_dp f \<le> 0 then 0
      else dec_val 0 (map (\<lambda>i. digit_char (digit_at (f_digits f) (int i))) [0..<nat (f_dp f)]))"

definition uint_of_f64 :: "(float64 \<Rightarrow> uint) \<Rightarrow> float64 \<Rightarrow> uint" where
  "uint_of_f64 oob f =
     (if (f_neg f \<and> f64_trunc f > 0) \<or> f64_trunc f \<ge> 2 ^ 64 then oob f else f64_trunc f)"

lemma uint_of_f64_code [code]:
  "uint_of_f64 oob f =
     (if (f_neg f \<and> f64_trunc f > 0) \<or> \<not> int (f64_trunc f) < 18446744073709551616 then oob f else f64_trunc f)"
  by (simp only: uint_of_f64_def flip: nat_bound_code) simp

subsection \<open>JSON values\<close>

datatype json =
    JNull
  | JBool bool
  | JNum float64
  | JStr string
  | JArr "json list"
  | JObj "(string \<times> json) list"

fun join :: "string \<Rightarrow> string list \<Rightarrow> string" where
  "join sep [] = ''''"
| "join sep [w] = w"
| "join sep (w # ws) = w @ sep @ join sep ws"

text \<open>\<open>fmt.Sprintf("%v", x)\<close> for a decoded value; maps are printed in key order.\<close>

fun Sprint_v :: "json \<Rightarrow> string" where
  "Sprint_v JNull = ''<nil>''"
| "Sprint_v (JBool b) = (if b then ''true'' else ''false'')"
| "Sprint_v (JNum f) = fmtG f"
| "Sprint_v (JStr s) = s"
| "Sprint_v (JArr xs) = ''['' @ join '' '' (map Sprint_v xs) @ '']''"
| "Sprint_v (JObj kvs) =
     ''map['' @ join '' '' (map (\<lambda>(k, s). k @ '':'' @ s) (sort_key fst (map (\<lambda>(k, v). (k, Sprint_v v)) kvs)))
     @ '']''"

subsection \<open>Integers through float64 and back\<close>

lemma length_digits_gt0 [simp]: "0 < length (digits n)"
  by (simp add: digits_ne)

lemma digits_length_le: "n < 10 ^ k \<Longrightarrow> 0 < k \<Longrightarrow> length (digits n) \<le> k"
proof (induction n arbitrary: k rule: digits.induct)
  case (1 n)
  show ?case
  proof (cases "n < 10")
    case True
    then show ?thesis using "1.prems" by (simp add: digits.simps [of n])
  next
    case False
    from "1.prems" obtain j where k: "k = Suc j" by (cases k) auto
    with False "1.prems" have "0 < j" by (cases j) auto
    have "n div 10 < 10 ^ j"
      using "1.prems" k by (simp add: less_mult_imp_div_less mult.commute)
    with "1.IH" [OF False _ \<open>0 < j\<close>] k False show ?thesis
      by (simp add: digits.simps [of n])
  qed
qed

lemma digits_length_gt: "10 ^ k \<le> n \<Longrightarrow> k < length (digits n)"
proof (induction k arbitrary: n)
  case (Suc k)
  have "10 * 10 ^ k div 10 \<le> n div 10"
    using Suc.prems by (intro div_le_mono) simp
  then have "k < length (digits (n div 10))"
    by (intro Suc.IH) simp
  moreover have "1 \<le> (10 :: nat) ^ k" by simp
  then have "\<not> n < 10" using Suc.prems unfolding power_Suc by linarith
  ultimately show ?case by (simp add: digits.simps [of n])
qed (simp add: digits_ne)

lemma hd_digits_pos: "0 < n \<Longrightarrow> 0 < hd (digits n)"
proof (induction n rule: digits.induct)
  case (1 n)
  then show ?case
    by (cases "n < 10") (auto simp: digits.simps [of n] hd_append digits_ne)
qed

lemma strip_zeros_append: "\<exists>k. ds = strip_zeros ds @ replicate k 0"
proof -
  let ?z = "takeWhile (\<lambda>d. d = 0) (rev ds)"
  have "rev ds = ?z @ dropWhile (\<lambda>d. d = 0) (rev ds)" by simp
  then have "ds = strip_zeros ds @ rev ?z"
    by (metis rev_append rev_rev_ident strip_zeros_def)
  moreover have "rev ?z = replicate (length ?z) 0"
    by (metis (mono_tags, lifting) length_rev replicate_length_same set_rev set_takeWhileD)
  ultimately show ?thesis by metis
qed

lemma length_strip_zeros_le: "length (strip_zeros ds) \<le> length ds"
  by (simp add: strip_zeros_def) (metis length_dropWhile_le length_rev)

lemma digit_at_strip: "i < length ds \<Longrightarrow> digit_at (strip_zeros ds) (int i) = ds ! i"
proof -
  assume i: "i < length ds"
  obtain k where k: "ds = strip_zeros ds @ replicate k 0"
    using strip_zeros_append by blast
  have "ds ! i = (strip_zeros ds @ replicate k 0) ! i"
    using k by simp
  also have "\<dots> = digit_at (strip_zeros ds) (int i)"
    using i arg_cong [OF k, of length] by (auto simp: digit_at_def nth_append)
  finally show ?thesis by simp
qed

lemma map_digit_at_strip:
  "map (\<lambda>i. f (digit_at (strip_zeros ds) (int i))) [0..<length ds] = map f ds"
  by (rule nth_equalityI) (auto simp: digit_at_strip)

lemma digit_char_0: "digit_char 0 = CHR ''0''"
  by code_simp

lemma fmtG_small:
  assumes "n < 10 ^ 6"
  shows "fmtG (f64_of_nat n) = show_nat n"
proof (cases "n = 0")
  case True
  then show ?thesis by (simp add: f64_of_nat_def fmtF_def show_nat_def digits.simps digit_char_0)
next
  case False
  have L: "length (digits n) \<le> 6"
    using digits_length_le [OF assms] by simp
  have "fmtG (f64_of_nat n) = fmtF False (strip_zeros (digits n)) (int (length (digits n)))"
    using L False length_digits_gt0 [of n] by (simp add: f64_of_nat_def digits_ne)
  also have "\<dots> = map digit_char (digits n)"
    using length_strip_zeros_le [of "digits n"]
    by (simp add: fmtF_def map_digit_at_strip digits_ne)
  finally show ?thesis by (simp add: show_nat_def)
qed

lemma fmtG_large:
  assumes "10 ^ 6 \<le> n"
  shows "\<exists>rest. fmtG (f64_of_nat n) = digit_char (hd (digits n)) # rest
           \<and> \<not> is_digit (hd rest) \<and> CHR ''e'' \<in> set rest"
proof -
  let ?ds = "strip_zeros (digits n)"
  have pos: "0 < n" using assms by (cases n) auto
  have L: "6 < length (digits n)" using digits_length_gt [OF assms] .
  have hd: "digit_at ?ds 0 = hd (digits n)"
    using digit_at_strip [of 0 "digits n"] by (simp add: hd_conv_nth digits_ne)
  have "fmtG (f64_of_nat n) = fmtE False ?ds (int (length (digits n)))"
    using L pos by (simp add: f64_of_nat_def)
  then show ?thesis
    using hd by (auto simp: fmtE_def is_digit_def)
qed

lemma ParseUint_fmtG_large: "10 ^ 6 \<le> n \<Longrightarrow> ParseUint (fmtG (f64_of_nat n)) = None"
  using fmtG_large [of n]
  by (auto intro!: ParseUint_nondigit [of "CHR ''e''"] simp: is_digit_def)

lemma Sscanf_fmtG_large:
  assumes "10 ^ 6 \<le> n"
  shows "Sscanf_uint (fmtG (f64_of_nat n)) = Some (hd (digits n))"
proof -
  obtain rest where r: "fmtG (f64_of_nat n) = [digit_char (hd (digits n))] @ rest"
    "\<not> is_digit (hd rest)" using fmtG_large [OF assms] by auto
  have d: "hd (digits n) < 10" by (rule digits_small [of _ n]) (simp add: digits_ne)
  then have "dec_val 0 [digit_char (hd (digits n))] = hd (digits n)" by simp
  with Sscanf_uint_digits [of "[digit_char (hd (digits n))]" rest] r d show ?thesis by simp
qed

lemma f64_trunc_of_nat [simp]: "f64_trunc (f64_of_nat n) = n"
proof (cases "n = 0")
  case False
  then show ?thesis
    by (simp add: f64_trunc_def f64_of_nat_def map_digit_at_strip dec_val_digits digits_ne)
qed (simp add: f64_trunc_def f64_of_nat_def)

lemma f64_neg_of_nat [simp]: "\<not> f_neg (f64_of_nat n)"
  by (simp add: f64_of_nat_def)

lemma uint_of_f64_of_nat [simp]: "n < 2 ^ 64 \<Longrightarrow> uint_of_f64 oob (f64_of_nat n) = n"
  using f64_neg_of_nat [of n] by (simp only: uint_of_f64_def f64_trunc_of_nat) simp

end
