(* ===== verification/Jwt.thy ===== *)
theory Jwt
  imports Json
begin

section \<open>JSON web tokens\<close>

text \<open>
  The library github.com/golang-jwt/jwt is a parameter: \<open>jwt_Sign\<close> is \<open>NewWithClaims\<close> with
  HS256 followed by \<open>SignedString\<close>, \<open>jwt_Parse\<close> is \<open>jwt.Parse\<close> at a given time, with the
  key function the services pass it. What the services put into a token is a record; what they
  get back is a \<open>MapClaims\<close>, a map of decoded JSON values, in which a number is a \<open>float64\<close>.
\<close>

record token_claims =
  tc_user_id :: uint
  tc_role :: string
  tc_exp :: int
  tc_jti :: "string option"

type_synonym MapClaims = "(string \<times> json) list"

record jwt_Token =
  tk_Valid :: bool
  tk_Claims :: "MapClaims option"  \<comment> \<open>\<open>None\<close>: claims of another type\<close>

record Jwt =
  jwt_Sign :: "string \<Rightarrow> token_claims \<Rightarrow> string option"
  jwt_Parse :: "time \<Rightarrow> (string \<Rightarrow> string option) \<Rightarrow> string \<Rightarrow> jwt_Token option"

text \<open>The key function: only HMAC methods get the key.\<close>

definition SigningMethodHMAC :: "string list" where
  "SigningMethodHMAC = [''HS256'', ''HS384'', ''HS512'']"

definition keyfunc :: "string \<Rightarrow> string \<Rightarrow> string option" where
  "keyfunc jwtSecret alg = (if alg \<notin> set SigningMethodHMAC then None else Some jwtSecret)"

definition claim :: "string \<Rightarrow> MapClaims \<Rightarrow> json" where
  "claim k c = (case map_of c k of None \<Rightarrow> JNull | Some v \<Rightarrow> v)"

text \<open>How the claims of a signed token read back.\<close>

definition decoded :: "token_claims \<Rightarrow> MapClaims" where
  "decoded c = [(''user_id'', JNum (f64_of_nat (tc_user_id c))), (''role'', JStr (tc_role c)),
                (''exp'', JNum (f64_of_nat (nat (tc_exp c))))] @
               (case tc_jti c of None \<Rightarrow> [] | Some j \<Rightarrow> [(''jti'', JStr j)])"

text \<open>
  What the library documents and the services rely on: a token signed with a secret parses
  under the key function of that secret, until it expires, into the claims that were signed;
  afterwards \<open>Parse\<close> returns an error. Identifiers above \<open>2 ^ 53\<close>, which a \<open>float64\<close> rounds,
  are left out.
\<close>

definition jwt_ok :: "Jwt \<Rightarrow> bool" where
  "jwt_ok jwt \<longleftrightarrow> (\<forall>secret c tok now. jwt_Sign jwt secret c = Some tok \<and> tc_user_id c \<le> 2 ^ 53 \<longrightarrow>
     jwt_Parse jwt now (keyfunc secret) tok =
       (if now < tc_exp c * second then Some \<lparr>tk_Valid = True, tk_Claims = Some (decoded c)\<rparr> else None))"

lemma claim_decoded [simp]:
  "claim ''user_id'' (decoded c) = JNum (f64_of_nat (tc_user_id c))"
  "claim ''role'' (decoded c) = JStr (tc_role c)"
  by (simp_all add: claim_def decoded_def)

lemma jwt_okD:
  "jwt_ok jwt \<Longrightarrow> jwt_Sign jwt secret c = Some tok \<Longrightarrow> tc_user_id c \<le> 2 ^ 53 \<Longrightarrow> now < tc_exp c * second \<Longrightarrow>
    jwt_Parse jwt now (keyfunc secret) tok = Some \<lparr>tk_Valid = True, tk_Claims = Some (decoded c)\<rparr>"
  unfolding jwt_ok_def by metis

text \<open>A library that knows a given table of tokens of one secret, for the witnesses.\<close>

definition demo_jwt :: "string \<Rightarrow> (string \<times> token_claims) list \<Rightarrow> Jwt" where
  "demo_jwt secret tbl =
     \<lparr>jwt_Sign = (\<lambda>s c. if s = secret then map_option fst (List.find (\<lambda>e. snd e = c) tbl) else None),
      jwt_Parse = (\<lambda>now kf tok.
        if kf ''HS256'' \<noteq> Some secret then None
        else case map_of tbl tok of
               None \<Rightarrow> None
             | Some c \<Rightarrow> if now < tc_exp c * second then Some \<lparr>tk_Valid = True, tk_Claims = Some (decoded c)\<rparr> else None)\<rparr>"

lemma demo_jwt_ok:
  assumes "distinct (map fst tbl)"
  shows "jwt_ok (demo_jwt secret tbl)"
proof -
  have "map_of tbl tok = Some c" if "List.find (\<lambda>e. snd e = c) tbl = Some e" "fst e = tok" for e tok c
    using that assms by (auto simp: find_Some_iff in_set_conv_nth)
  then show ?thesis
    by (auto simp: jwt_ok_def demo_jwt_def keyfunc_def SigningMethodHMAC_def split: if_splits)
qed

end
