(* ===== verification/Http.thy ===== *)
theory Http
  imports Json
begin

section \<open>Requests, responses and request bodies\<close>

text \<open>
  The parts of an HTTP request the handlers read: method, path, headers (by canonical name,
  the empty string when absent, as \<open>GetHeader\<close> returns it), query parameters (same
  convention), the address of the client and the JSON body. The address is what \<open>c.ClientIP()\<close> of
  gin returns; no service calls \<open>SetTrustedProxies\<close> of gin, so by its documentation that is the
  first address of the client's own \<open>X-Forwarded-For\<close>, if there is one. The replies of \<open>pkg/response\<close>: a
  \<open>Success\<close> envelope, always with status 200, or an \<open>Error\<close> with its status, message and
  code. What a handler writes to the log is not modelled.
\<close>

text \<open>A JSON body before it is decoded into a struct: a number is still its literal.\<close>

datatype raw =
    Raw_null
  | Raw_bool bool
  | Raw_num string
  | Raw_str string
  | Raw_arr "raw list"
  | Raw_obj "(string \<times> raw) list"

record request =
  rq_method :: string
  rq_path :: string
  rq_headers :: "string \<Rightarrow> string"
  rq_query :: "string \<Rightarrow> string"
  rq_ip :: string
  rq_body :: "raw option"

definition GetHeader :: "string \<Rightarrow> request \<Rightarrow> string" where
  "GetHeader h r = rq_headers r h"

definition SetHeader :: "string \<Rightarrow> string \<Rightarrow> request \<Rightarrow> request" where
  "SetHeader h v r = r\<lparr>rq_headers := (rq_headers r)(h := v)\<rparr>"

lemma GetHeader_SetHeader [simp]:
  "GetHeader h (SetHeader h' v r) = (if h = h' then v else GetHeader h r)"
  by (simp add: GetHeader_def SetHeader_def)

lemma SetHeader_frame [simp]:
  "rq_method (SetHeader h v r) = rq_method r" "rq_path (SetHeader h v r) = rq_path r"
  "rq_query (SetHeader h v r) = rq_query r" "rq_ip (SetHeader h v r) = rq_ip r"
  "rq_body (SetHeader h v r) = rq_body r"
  by (simp_all add: SetHeader_def)

datatype 'd response = Success 'd | Error nat string string

fun status :: "'d response \<Rightarrow> nat" where
  "status (Success d) = 200"
| "status (Error c m e) = c"

subsection \<open>Decoding a JSON object into the fields of a struct\<close>

text \<open>
  \<open>encoding/json\<close> goes through the members in order; each one whose name matches a field, with
  case ignored, is stored into it, so the last match wins. \<open>null\<close> leaves
  a string, number or bool unchanged and makes a pointer or slice nil. A value of another
  type is an error (\<open>None\<close>), which makes \<open>ShouldBindJSON\<close> fail.
\<close>

definition fold_char :: "char \<Rightarrow> nat" where
  "fold_char c = (let n = of_char c in if 65 \<le> n \<and> n \<le> 90 then n + 32 else n)"

definition fold_eq :: "string \<Rightarrow> string \<Rightarrow> bool" where
  "fold_eq a b \<longleftrightarrow> map fold_char a = map fold_char b"

text \<open>
  Two names match when their folds are equal. Against a field name of ASCII letters the fold only
  matters for those letters and for the two other runes that Unicode folds to one of them, the
  long s (U+017F) and the Kelvin sign (U+212A).
\<close>

fun fold_name :: "string \<Rightarrow> nat list" where
  "fold_name [] = []"
| "fold_name (c # cs) =
     (if c = CHR 0xC5 \<and> take 1 cs = [CHR 0xBF] then 115 # fold_name (drop 1 cs)
      else if c = CHR 0xE2 \<and> take 2 cs = [CHR 0x84, CHR 0xAA] then 107 # fold_name (drop 2 cs)
      else fold_char c # fold_name cs)"

definition same_name :: "string \<Rightarrow> string \<Rightarrow> bool" where
  "same_name k n \<longleftrightarrow> fold_name k = fold_name n"

fun field :: "(raw \<Rightarrow> 'a \<Rightarrow> 'a option) \<Rightarrow> string \<Rightarrow> 'a \<Rightarrow> (string \<times> raw) list \<Rightarrow> 'a option" where
  "field dec n acc [] = Some acc"
| "field dec n acc ((k, v) # kvs) =
     (if same_name k n
      then (case dec v acc of None \<Rightarrow> None | Some acc' \<Rightarrow> field dec n acc' kvs)
      else field dec n acc kvs)"

fun dec_string :: "raw \<Rightarrow> string \<Rightarrow> string option" where
  "dec_string (Raw_str s) acc = Some s"
| "dec_string Raw_null acc = Some acc"
| "dec_string _ acc = None"

fun dec_bool :: "raw \<Rightarrow> bool \<Rightarrow> bool option" where
  "dec_bool (Raw_bool b) acc = Some b"
| "dec_bool Raw_null acc = Some acc"
| "dec_bool _ acc = None"

fun dec_uint :: "raw \<Rightarrow> uint \<Rightarrow> uint option" where
  "dec_uint (Raw_num lit) acc = ParseUint lit"
| "dec_uint Raw_null acc = Some acc"
| "dec_uint _ acc = None"

fun dec_uint_ptr :: "raw \<Rightarrow> uint option \<Rightarrow> uint option option" where
  "dec_uint_ptr (Raw_num lit) acc = map_option Some (ParseUint lit)"
| "dec_uint_ptr Raw_null acc = Some None"
| "dec_uint_ptr _ acc = None"

fun dec_strings :: "raw list \<Rightarrow> string list option" where
  "dec_strings [] = Some []"
| "dec_strings (x # xs) =
     (case dec_string x '''' of None \<Rightarrow> None | Some s \<Rightarrow> map_option ((#) s) (dec_strings xs))"

fun dec_string_list :: "raw \<Rightarrow> string list \<Rightarrow> string list option" where
  "dec_string_list (Raw_arr xs) acc = dec_strings xs"
| "dec_string_list Raw_null acc = Some []"
| "dec_string_list _ acc = None"

text \<open>The members of the body: \<open>null\<close> decodes to the zero struct, a non-object is an error.\<close>

fun members :: "raw option \<Rightarrow> (string \<times> raw) list option" where
  "members (Some (Raw_obj kvs)) = Some kvs"
| "members (Some Raw_null) = Some []"
| "members _ = None"

subsection \<open>Validation tags\<close>

text \<open>\<open>min\<close> and \<open>max\<close> count runes; in UTF-8 those are the bytes that are not continuations.\<close>

definition RuneCount :: "string \<Rightarrow> nat" where
  "RuneCount s = length (filter (\<lambda>c. (of_char c :: nat) < 128 \<or> 192 \<le> (of_char c :: nat)) s)"

definition required :: "string \<Rightarrow> bool" where
  "required s \<longleftrightarrow> s \<noteq> ''''"

lemma RuneCount_le_length: "RuneCount s \<le> length s"
  by (simp add: RuneCount_def)

section \<open>Middleware the services share\<close>

text \<open>
  \<open>InternalOnlyMiddleware\<close> and \<open>RequireRole\<close> either abort with a reply (\<open>Some\<close>) or let the
  request through (\<open>None\<close>). \<open>subtle.ConstantTimeCompare\<close> is equality of the byte strings.
\<close>

definition InternalOnlyMiddleware :: "string \<Rightarrow> request \<Rightarrow> 'd response option" where
  "InternalOnlyMiddleware secret r =
     (let got = GetHeader ''X-Internal-Secret'' r
      in if got = '''' \<or> got \<noteq> secret then Some (Error 403 ''forbidden'' ''forbidden'') else None)"

definition RequireRole :: "string \<Rightarrow> request \<Rightarrow> 'd response option" where
  "RequireRole role r =
     (if GetHeader ''X-User-ROLE'' r \<noteq> role then Some (Error 403 ''forbidden'' ''forbidden'') else None)"

text \<open>\<open>TraceMiddleware\<close>: the caller's request id, or the fresh one \<open>gen\<close>; echoed in the reply.\<close>

definition TraceMiddleware :: "string \<Rightarrow> request \<Rightarrow> string" where
  "TraceMiddleware gen r =
     (if GetHeader ''X-Request-ID'' r = '''' then gen else GetHeader ''X-Request-ID'' r)"

lemma InternalOnly_pass: "InternalOnlyMiddleware secret r = None \<longleftrightarrow>
    secret \<noteq> '''' \<and> GetHeader ''X-Internal-Secret'' r = secret"
  by (auto simp: InternalOnlyMiddleware_def Let_def)

lemma RequireRole_pass: "RequireRole role r = None \<longleftrightarrow> GetHeader ''X-User-ROLE'' r = role"
  by (auto simp: RequireRole_def)

section \<open>Route tables\<close>

text \<open>
  A path pattern is a list of segments. As in gin, a parameter in the middle of a path also
  matches an empty segment (its handler then rejects the identifier), one at the end does not.
\<close>

datatype seg = Lit string | Par

fun match_segs :: "seg list \<Rightarrow> string list \<Rightarrow> string list option" where
  "match_segs [] [] = Some []"
| "match_segs [Par] [s] = (if s = [] then None else Some [s])"
| "match_segs (Lit l # ps) (s # ss) = (if s = l then match_segs ps ss else None)"
| "match_segs (Par # ps) (s # ss) = map_option ((#) s) (match_segs ps ss)"
| "match_segs _ _ = None"

fun find_route :: "string \<Rightarrow> string list \<Rightarrow> (string \<times> seg list \<times> 'l \<times> (string list \<Rightarrow> 'h)) list \<Rightarrow> ('l \<times> 'h) option" where
  "find_route meth segs [] = None"
| "find_route meth segs ((me, pat, l, h) # rs) =
     (case (if meth = me then match_segs pat segs else None) of
        Some ps \<Rightarrow> Some (l, h ps)
      | None \<Rightarrow> find_route meth segs rs)"

lemma find_route_in:
  "find_route meth segs rs = Some (l, h) \<Longrightarrow> \<exists>me pat hh ps. (me, pat, l, hh) \<in> set rs \<and> h = hh ps"
  by (induction meth segs rs rule: find_route.induct) (auto split: option.splits)

end
