(* ===== verification/RateLimit.thy ===== *)
theory RateLimit
  imports Complex_Main Http
begin

section \<open>Token buckets: the Limiter interface and its two implementations\<close>

text \<open>
  \<open>Limiter\<close> is the interface the rate-limit middleware of every service uses; it is
  implemented in memory (\<open>RateLimiter\<close>) and in Redis (\<open>redisLimiter\<close>, a Lua script). Both
  keep one bucket per client: a number of tokens and the time it was last looked at.
  Token counts are float64 in the source and exact rationals here, so the model has no
  rounding error (in Redis the count is also written back with 14 significant digits). The
  in-memory clock counts nanoseconds, the script's milliseconds.
\<close>

subsection \<open>The in-memory limiter\<close>

record visitor =
  tokens :: rat
  lastSeen :: time

record RateLimiter =
  visitors :: "string \<rightharpoonup> visitor"
  rl_rate :: rat
  rl_burst :: rat

definition NewRateLimiter :: "rat \<Rightarrow> rat \<Rightarrow> RateLimiter" where
  "NewRateLimiter rps burst = \<lparr>visitors = Map.empty, rl_rate = rps, rl_burst = burst\<rparr>"

definition RateLimiter_allow :: "time \<Rightarrow> string \<Rightarrow> RateLimiter \<Rightarrow> bool \<times> RateLimiter" where
  "RateLimiter_allow now key rl =
     (case visitors rl key of
        None \<Rightarrow>
          (True, rl\<lparr>visitors := (visitors rl)(key \<mapsto> \<lparr>tokens = rl_burst rl - 1, lastSeen = now\<rparr>)\<rparr>)
      | Some v \<Rightarrow>
          let elapsed = of_int (now - lastSeen v) / of_int second;
              t = tokens v + elapsed * rl_rate rl;
              t = (if t > rl_burst rl then rl_burst rl else t)
          in if t < 1
             then (False, rl\<lparr>visitors := (visitors rl)(key \<mapsto> \<lparr>tokens = t, lastSeen = now\<rparr>)\<rparr>)
             else (True, rl\<lparr>visitors := (visitors rl)(key \<mapsto> \<lparr>tokens = t - 1, lastSeen = now\<rparr>)\<rparr>))"

definition RateLimiter_evict :: "time \<Rightarrow> RateLimiter \<Rightarrow> RateLimiter" where
  "RateLimiter_evict cutoff rl =
     rl\<lparr>visitors := (\<lambda>k. case visitors rl k of
                         None \<Rightarrow> None
                       | Some v \<Rightarrow> if lastSeen v < cutoff then None else Some v)\<rparr>"

text \<open>One round of \<open>cleanupLoop\<close>, which a ticker starts every minute.\<close>

definition RateLimiter_cleanup :: "time \<Rightarrow> RateLimiter \<Rightarrow> RateLimiter" where
  "RateLimiter_cleanup now rl = RateLimiter_evict (now + -3 * minute) rl"

subsection \<open>The Redis limiter\<close>

text \<open>
  The server's side of a bucket: the hash fields \<open>tokens\<close> and \<open>ts\<close> and the time at which the
  key expires (PEXPIRE); a key is gone once the clock is past that time.
\<close>

record redis_bucket =
  rb_tokens :: rat
  rb_ts :: time
  rb_expire :: time

record redisLimiter =
  rd_keys :: "string \<rightharpoonup> redis_bucket"
  rd_prefix :: string
  rd_rate :: rat
  rd_burst :: rat
  rd_ttlMs :: int

definition newRedisLimiter :: "(string \<rightharpoonup> redis_bucket) \<Rightarrow> string \<Rightarrow> rat \<Rightarrow> rat \<Rightarrow> redisLimiter" where
  "newRedisLimiter server prefix rps burst =
     \<lparr>rd_keys = server, rd_prefix = prefix, rd_rate = rps, rd_burst = burst,
      rd_ttlMs = \<lceil>burst / rps * 2 * 1000\<rceil> + 1000\<rparr>"

definition rd_live :: "time \<Rightarrow> redisLimiter \<Rightarrow> string \<Rightarrow> redis_bucket option" where
  "rd_live now rl key =
     (case rd_keys rl (rd_prefix rl @ key) of
        None \<Rightarrow> None
      | Some b \<Rightarrow> if now > rb_expire b then None else Some b)"

definition tokenBucketScript :: "time \<Rightarrow> string \<Rightarrow> redisLimiter \<Rightarrow> bool \<times> redisLimiter" where
  "tokenBucketScript now key rl =
     (let burst = rd_burst rl;
          store = (\<lambda>t. rl\<lparr>rd_keys := (rd_keys rl)(rd_prefix rl @ key \<mapsto>
                      \<lparr>rb_tokens = t, rb_ts = now, rb_expire = now + rd_ttlMs rl\<rparr>)\<rparr>)
      in case rd_live now rl key of
           None \<Rightarrow> (True, store (burst - 1))
         | Some b \<Rightarrow>
             let t = min burst (rb_tokens b + of_int (max 0 (now - rb_ts b)) / 1000 * rd_rate rl)
             in if t \<ge> 1 then (True, store (t - 1)) else (False, store t))"

text \<open>\<open>allow\<close> fails open: on an error of the call (\<open>redis_down\<close>) the request passes.\<close>

definition redisLimiter_allow :: "bool \<Rightarrow> time \<Rightarrow> string \<Rightarrow> redisLimiter \<Rightarrow> bool \<times> redisLimiter" where
  "redisLimiter_allow redis_down now key rl =
     (if redis_down then (True, rl) else tokenBucketScript now key rl)"

text \<open>The server drops expired keys on its own (its active expire cycle).\<close>

definition rd_expire :: "time \<Rightarrow> redisLimiter \<Rightarrow> redisLimiter" where
  "rd_expire now rl =
     rl\<lparr>rd_keys := (\<lambda>k. case rd_keys rl k of
                        None \<Rightarrow> None
                      | Some b \<Rightarrow> if now > rb_expire b then None else Some b)\<rparr>"

text \<open>
  \<open>logErr\<close>: one line per ten seconds; the new value of \<open>lastErrLog\<close> and whether a line is
  written. \<open>cas\<close> says whether the compare-and-swap won against the other goroutines.
\<close>

definition logErr :: "bool \<Rightarrow> time \<Rightarrow> time \<Rightarrow> time \<times> bool" where
  "logErr cas now lastErrLog =
     (if now - lastErrLog < 10 * second then (lastErrLog, False)
      else if cas then (now, True) else (lastErrLog, False))"

subsection \<open>Choosing and calling a limiter\<close>

datatype Limiter = InMemory RateLimiter | InRedis redisLimiter

text \<open>
  \<open>NewLimiter\<close>: in memory when no URL is configured; \<open>parse_url\<close> is \<open>redis.ParseURL\<close> followed
  by \<open>NewClient\<close>, giving the buckets of that server, and \<open>None\<close> the fatal exit.
\<close>

definition NewLimiter ::
  "(string \<Rightarrow> (string \<rightharpoonup> redis_bucket) option) \<Rightarrow> string \<Rightarrow> string \<Rightarrow> rat \<Rightarrow> rat \<Rightarrow> Limiter option" where
  "NewLimiter parse_url redisURL prefix rps burst =
     (if redisURL = '''' then Some (InMemory (NewRateLimiter rps burst))
      else case parse_url redisURL of
             None \<Rightarrow> None
           | Some server \<Rightarrow> Some (InRedis (newRedisLimiter server prefix rps burst)))"

fun Limiter_allow :: "bool \<Rightarrow> time \<Rightarrow> string \<Rightarrow> Limiter \<Rightarrow> bool \<times> Limiter" where
  "Limiter_allow redis_down now key (InMemory rl) = map_prod id InMemory (RateLimiter_allow now key rl)"
| "Limiter_allow redis_down now key (InRedis rl) =
     map_prod id InRedis (redisLimiter_allow redis_down (now div millisecond) key rl)"

text \<open>\<open>RateLimitMiddleware\<close>: a reply if the request is refused, and the limiter afterwards.\<close>

definition RateLimitMiddleware :: "bool \<Rightarrow> time \<Rightarrow> request \<Rightarrow> Limiter \<Rightarrow> 'd response option \<times> Limiter" where
  "RateLimitMiddleware redis_down now r rl =
     (case Limiter_allow redis_down now (rq_ip r) rl of
        (ok, rl') \<Rightarrow> (if \<not> ok then Some (Error 429 ''too many requests'' ''RATE_LIMITED'') else None, rl'))"

section \<open>The contract of a token bucket\<close>

text \<open>
  What a run of a limiter is: requests of clients and rounds of background cleaning, at times
  that do not decrease. \<open>granted k\<close> counts the requests of client \<open>k\<close> that pass.
\<close>

datatype rl_event = Req time string | Tick time

fun event_time :: "rl_event \<Rightarrow> time" where
  "event_time (Req t k) = t"
| "event_time (Tick t) = t"

fun ordered_from :: "time \<Rightarrow> rl_event list \<Rightarrow> bool" where
  "ordered_from t [] = True"
| "ordered_from t (e # es) = (t \<le> event_time e \<and> ordered_from (event_time e) es)"

fun end_time :: "time \<Rightarrow> rl_event list \<Rightarrow> time" where
  "end_time t [] = t"
| "end_time t (e # es) = end_time (event_time e) es"

fun decisions ::
  "(time \<Rightarrow> string \<Rightarrow> 's \<Rightarrow> bool \<times> 's) \<Rightarrow> (time \<Rightarrow> 's \<Rightarrow> 's) \<Rightarrow> 's \<Rightarrow> rl_event list \<Rightarrow> (string \<times> bool) list" where
  "decisions allow tick s [] = []"
| "decisions allow tick s (Req t k # es) =
     (k, fst (allow t k s)) # decisions allow tick (snd (allow t k s)) es"
| "decisions allow tick s (Tick t # es) = decisions allow tick (tick t s) es"

definition granted ::
  "(time \<Rightarrow> string \<Rightarrow> 's \<Rightarrow> bool \<times> 's) \<Rightarrow> (time \<Rightarrow> 's \<Rightarrow> 's) \<Rightarrow> string \<Rightarrow> 's \<Rightarrow> rl_event list \<Rightarrow> nat" where
  "granted allow tick k s es = length (filter (\<lambda>d. d = (k, True)) (decisions allow tick s es))"

text \<open>
  The abstract token bucket: for every client and later time its tokens, nothing is ever evicted
  and nothing but the requests changes it.
\<close>

type_synonym buckets = "string \<Rightarrow> time \<Rightarrow> rat"

definition bucket_allow :: "rat \<Rightarrow> rat \<Rightarrow> rat \<Rightarrow> time \<Rightarrow> string \<Rightarrow> buckets \<Rightarrow> bool \<times> buckets" where
  "bucket_allow rate burst unit now k L =
     (1 \<le> L k now,
      L(k := \<lambda>t. min burst (L k now - (if 1 \<le> L k now then 1 else 0) + rate * of_int (t - now) / unit)))"

definition full_buckets :: "rat \<Rightarrow> buckets" where
  "full_buckets burst = (\<lambda>k t. burst)"

text \<open>
  The contract: the tokens a client has at a later time (\<open>level\<close>) decide, one token is taken
  by a request that passes, tokens come back at \<open>rate\<close> up to \<open>burst\<close>, clients do not
  influence each other, and cleaning is not observable. \<open>unit\<close> is the number of clock ticks
  in a second.
\<close>

locale token_bucket =
  fixes allow :: "time \<Rightarrow> string \<Rightarrow> 's \<Rightarrow> bool \<times> 's"
    and tick :: "time \<Rightarrow> 's \<Rightarrow> 's"
    and level :: "'s \<Rightarrow> string \<Rightarrow> time \<Rightarrow> rat"
    and ok :: "time \<Rightarrow> 's \<Rightarrow> bool"
    and rate :: "'s \<Rightarrow> rat"
    and burst :: "'s \<Rightarrow> rat"
    and unit :: rat
  assumes level_burst: "ok now s \<Longrightarrow> level s k t \<le> burst s"
    and level_nonneg: "ok now s \<Longrightarrow> now \<le> t \<Longrightarrow> 0 \<le> level s k t"
    and level_refill: "ok now s \<Longrightarrow> now \<le> t \<Longrightarrow>
          level s k t \<le> level s k now + rate s * of_int (t - now) / unit"
    and allow_iff: "ok now s \<Longrightarrow> fst (allow now k s) \<longleftrightarrow> 1 \<le> level s k now"
    and allow_level: "ok now s \<Longrightarrow> now \<le> t \<Longrightarrow> level (snd (allow now k s)) k t =
          min (burst s) (level s k now - (if 1 \<le> level s k now then 1 else 0)
                         + rate s * of_int (t - now) / unit)"
    and allow_other: "ok now s \<Longrightarrow> now \<le> t \<Longrightarrow> k' \<noteq> k \<Longrightarrow>
          level (snd (allow now k s)) k' t = level s k' t"
    and tick_level: "ok now s \<Longrightarrow> now \<le> t \<Longrightarrow> level (tick now s) k t = level s k t"
    and allow_ok: "ok now s \<Longrightarrow> ok now (snd (allow now k s))"
    and tick_ok: "ok now s \<Longrightarrow> ok now (tick now s)"
    and ok_later: "ok now s \<Longrightarrow> now \<le> t \<Longrightarrow> ok t s"
    and config_allow: "rate (snd (allow now k s)) = rate s" "burst (snd (allow now k s)) = burst s"
    and config_tick: "rate (tick now s) = rate s" "burst (tick now s) = burst s"
begin

lemma granted_level:
  assumes "ok now s" and "ordered_from now es"
  shows "rat_of_nat (granted allow tick k s es) \<le> level s k now + rate s * of_int (end_time now es - now) / unit"
  using assms
proof (induction es arbitrary: s now)
  case Nil
  then show ?case by (simp add: granted_def level_nonneg)
next
  case (Cons e es)
  let ?t = "event_time e"
  have okt: "ok ?t s" and later: "now \<le> ?t" and ord: "ordered_from ?t es"
    using Cons.prems ok_later by auto
  have refill: "level s k ?t \<le> level s k now + rate s * of_int (?t - now) / unit"
    using level_refill [OF Cons.prems(1) later] .
  have split: "rate s * of_int (end_time ?t es - now) / unit =
      rate s * of_int (?t - now) / unit + rate s * of_int (end_time ?t es - ?t) / unit"
    by (simp add: algebra_simps add_divide_distrib diff_divide_distrib)
  show ?case
  proof (cases e)
    case (Tick t)
    with Cons.IH [OF tick_ok [OF okt]] okt ord refill split show ?thesis
      by (simp add: granted_def tick_level config_tick)
  next
    case (Req t k')
    define s' where "s' = snd (allow t k' s)"
    have IH: "rat_of_nat (granted allow tick k s' es) \<le> level s' k t + rate s * of_int (end_time t es - t) / unit"
      using Cons.IH [OF allow_ok [OF okt, of k']] ord Req by (simp add: s'_def config_allow)
    have "rat_of_nat (granted allow tick k s (e # es))
        = (if k' = k \<and> 1 \<le> level s k t then 1 else 0) + rat_of_nat (granted allow tick k s' es)"
      using okt Req by (auto simp: granted_def s'_def allow_iff)
    also have "\<dots> \<le> level s k t + rate s * of_int (end_time t es - t) / unit"
    proof -
      have "level s' k t \<le> level s k t - (if k' = k \<and> 1 \<le> level s k t then 1 else 0)"
        using okt Req allow_level [of t s t k'] allow_other [of t s t k k']
        by (cases "k' = k") (auto simp: s'_def)
      with IH show ?thesis by linarith
    qed
    finally show ?thesis
      using refill split Req by simp
  qed
qed

lemma granted_window:
  assumes "ok now s" and "ordered_from now es"
  shows "rat_of_nat (granted allow tick k s es) \<le> burst s + rate s * of_int (end_time now es - now) / unit"
  using granted_level [OF assms, of k] level_burst [OF assms(1), of k now] by linarith

text \<open>What keeps the contract refines the abstract bucket; cleaning is a stuttering step.\<close>

lemma refines_bucket:
  assumes "ok now s" and "ordered_from now es" and "\<forall>k t. now \<le> t \<longrightarrow> level s k t = L k t"
  shows "decisions allow tick s es = decisions (bucket_allow (rate s) (burst s) unit) (\<lambda>_ L. L) L es"
  using assms
proof (induction es arbitrary: s now L)
  case (Cons e es)
  let ?t = "event_time e"
  have okt: "ok ?t s" and ord: "ordered_from ?t es" and same: "\<forall>k t. ?t \<le> t \<longrightarrow> level s k t = L k t"
    using Cons.prems ok_later by auto
  show ?case
  proof (cases e)
    case (Tick t)
    with Cons.IH [OF tick_ok [OF okt] ord, of L] okt same show ?thesis by (simp add: tick_level config_tick)
  next
    case (Req t k)
    let ?s' = "snd (allow t k s)" and ?L' = "snd (bucket_allow (rate s) (burst s) unit t k L)"
    have "level ?s' k' u = ?L' k' u" if "t \<le> u" for k' u
      using okt same Req that by (cases "k' = k") (simp_all add: bucket_allow_def allow_level allow_other)
    with Cons.IH [OF allow_ok [OF okt, of k], of ?L'] ord Req
    have "decisions allow tick ?s' es = decisions (bucket_allow (rate s) (burst s) unit) (\<lambda>_ L. L) ?L' es"
      by (simp add: config_allow)
    moreover have "fst (allow t k s) = fst (bucket_allow (rate s) (burst s) unit t k L)"
      using okt same Req by (simp add: allow_iff bucket_allow_def)
    ultimately show ?thesis by (simp add: Req)
  qed
qed simp

end

text \<open>The tokens at time \<open>t\<close> of a bucket that held \<open>tk\<close> tokens at time \<open>l\<close>.\<close>

definition refilled :: "rat \<Rightarrow> rat \<Rightarrow> rat \<Rightarrow> time \<Rightarrow> rat \<Rightarrow> time \<Rightarrow> rat" where
  "refilled b tk r l u t = min b (tk + r * of_int (t - l) / u)"

lemma rate_split:
  "(r :: rat) * of_int (t - l) / u = r * of_int (n - l) / u + r * of_int (t - n) / u"
  by (simp add: algebra_simps add_divide_distrib diff_divide_distrib)

lemma rate_nonneg: "0 < (r :: rat) \<Longrightarrow> l \<le> t \<Longrightarrow> 0 < u \<Longrightarrow> 0 \<le> r * of_int (t - l) / u"
  by simp

lemma refilled_le: "refilled b tk r l u t \<le> b"
  by (simp add: refilled_def)

lemma refilled_nonneg:
  assumes "0 \<le> b" and "0 \<le> tk" and "0 < r" and "l \<le> t" and "0 < u"
  shows "0 \<le> refilled b tk r l u t"
  using rate_nonneg [of r l t u] assms by (simp add: refilled_def)

lemma refilled_later:
  assumes "0 < r" and "n \<le> t" and "0 < u"
  shows "refilled b tk r l u t \<le> refilled b tk r l u n + r * of_int (t - n) / u"
  using rate_split [of r t l u n] rate_nonneg [of r n t u] assms unfolding refilled_def by linarith

lemma refilled_full:
  assumes "0 \<le> tk" and "0 < r" and "b \<le> r * d" and "d * u \<le> of_int (t - l)" and "0 < u"
  shows "refilled b tk r l u t = b"
proof -
  have "r * d \<le> r * (of_int (t - l) / u)"
    using assms(2,4,5) by (intro mult_left_mono) (auto simp: le_divide_eq)
  then show ?thesis using assms(1,3) by (simp add: refilled_def)
qed

subsection \<open>The in-memory limiter keeps the contract\<close>

definition mem_level :: "RateLimiter \<Rightarrow> string \<Rightarrow> time \<Rightarrow> rat" where
  "mem_level rl k t =
     (case visitors rl k of
        None \<Rightarrow> rl_burst rl
      | Some v \<Rightarrow> refilled (rl_burst rl) (tokens v) (rl_rate rl) (lastSeen v) (of_int second) t)"

text \<open>
  The invariant at time \<open>now\<close>: a sensible configuration (a bucket holds at least one token and
  is full again after the three minutes for which \<open>cleanupLoop\<close> keeps an idle client) and
  visitors with a token count that is not negative, last seen in the past.
\<close>

definition mem_ok :: "time \<Rightarrow> RateLimiter \<Rightarrow> bool" where
  "mem_ok now rl \<longleftrightarrow> 0 < rl_rate rl \<and> 1 \<le> rl_burst rl \<and> rl_burst rl \<le> rl_rate rl * 180 \<and>
     (\<forall>k v. visitors rl k = Some v \<longrightarrow> 0 \<le> tokens v \<and> lastSeen v \<le> now)"

lemma mem_okD:
  assumes "mem_ok now rl"
  shows "0 < rl_rate rl" "1 \<le> rl_burst rl" "rl_burst rl \<le> rl_rate rl * 180"
    and "visitors rl k = Some v \<Longrightarrow> 0 \<le> tokens v" "visitors rl k = Some v \<Longrightarrow> lastSeen v \<le> now"
  using assms by (auto simp: mem_ok_def)

lemma mem_ok_later: "mem_ok now rl \<Longrightarrow> now \<le> t \<Longrightarrow> mem_ok t rl"
  unfolding mem_ok_def by (meson order_trans)

text \<open>\<open>allow\<close> in terms of the level: one equation for both branches of the lookup.\<close>

lemma mem_allow_eq:
  assumes "mem_ok now rl"
  shows "RateLimiter_allow now k rl =
    (let l = mem_level rl k now
     in (1 \<le> l, rl\<lparr>visitors := (visitors rl)(k \<mapsto>
                   \<lparr>tokens = l - (if 1 \<le> l then 1 else 0), lastSeen = now\<rparr>)\<rparr>))"
  using mem_okD(2) [OF assms]
  by (auto simp: RateLimiter_allow_def mem_level_def refilled_def Let_def min_def mult.commute
           split: option.splits)

lemma mem_level_nonneg: "mem_ok now rl \<Longrightarrow> now \<le> t \<Longrightarrow> 0 \<le> mem_level rl k t"
  using mem_okD [OF mem_ok_later, of now rl t]
  by (auto simp: mem_level_def split: option.split intro!: refilled_nonneg)

lemma mem_allow_ok: "mem_ok now rl \<Longrightarrow> mem_ok now (snd (RateLimiter_allow now k rl))"
  using mem_level_nonneg [of now rl now k]
  by (auto simp: mem_allow_eq Let_def mem_ok_def)

lemma mem_level_update:
  "mem_level (rl\<lparr>visitors := (visitors rl)(k \<mapsto> v)\<rparr>) k' t =
     (if k' = k then refilled (rl_burst rl) (tokens v) (rl_rate rl) (lastSeen v) (of_int second) t
      else mem_level rl k' t)"
  by (simp add: mem_level_def split: option.split)

lemma mem_allow_level:
  assumes "mem_ok now rl"
  shows "mem_level (snd (RateLimiter_allow now k rl)) k' t =
           (if k' = k then min (rl_burst rl) (mem_level rl k now - (if 1 \<le> mem_level rl k now then 1 else 0)
                              + rl_rate rl * of_int (t - now) / of_int second)
            else mem_level rl k' t)"
  by (simp add: mem_allow_eq [OF assms] Let_def mem_level_update refilled_def)

lemma mem_tick_level:
  assumes "mem_ok now rl" and "now \<le> t"
  shows "mem_level (RateLimiter_cleanup now rl) k t = mem_level rl k t"
proof -
  have "refilled (rl_burst rl) (tokens v) (rl_rate rl) (lastSeen v) (of_int second) t = rl_burst rl"
    if "visitors rl k = Some v" "lastSeen v < now + -3 * minute" for v
  proof (rule refilled_full [where d = 180])
    have "180 * second \<le> t - lastSeen v" using that(2) assms(2) by simp
    then have "rat_of_int (180 * second) \<le> of_int (t - lastSeen v)" by (simp only: of_int_le_iff)
    then show "180 * rat_of_int second \<le> of_int (t - lastSeen v)" by simp
  qed (use mem_okD [OF assms(1)] that in auto)
  then show ?thesis
    by (auto simp: RateLimiter_cleanup_def RateLimiter_evict_def mem_level_def split: option.splits)
qed

lemma mem_tick_ok: "mem_ok now rl \<Longrightarrow> mem_ok now (RateLimiter_cleanup now rl)"
  by (auto simp: RateLimiter_cleanup_def RateLimiter_evict_def mem_ok_def split: option.splits if_splits)

lemma mem_config:
  "rl_rate (snd (RateLimiter_allow now k rl)) = rl_rate rl"
  "rl_burst (snd (RateLimiter_allow now k rl)) = rl_burst rl"
  "rl_rate (RateLimiter_cleanup now rl) = rl_rate rl"
  "rl_burst (RateLimiter_cleanup now rl) = rl_burst rl"
  by (auto simp: RateLimiter_allow_def RateLimiter_cleanup_def RateLimiter_evict_def Let_def split: option.splits)

lemma mem_level_later:
  assumes "mem_ok now rl" and "now \<le> t"
  shows "mem_level rl k t \<le> mem_level rl k now + rl_rate rl * of_int (t - now) / of_int second"
  using refilled_later [OF mem_okD(1) [OF assms(1)] assms(2), of "of_int second"]
    rate_nonneg [OF mem_okD(1) [OF assms(1)] assms(2), of "of_int second"]
  by (simp add: mem_level_def split: option.split)

interpretation mem: token_bucket RateLimiter_allow RateLimiter_cleanup mem_level mem_ok rl_rate rl_burst "of_int second"
proof unfold_locales
  fix now t s k k'
  show "mem_level s k t \<le> rl_burst s"
    by (auto simp: mem_level_def refilled_le split: option.split)
  show "mem_ok now s \<Longrightarrow> fst (RateLimiter_allow now k s) = (1 \<le> mem_level s k now)"
    by (simp add: mem_allow_eq Let_def)
qed (simp_all only: mem_level_nonneg mem_level_later mem_allow_level mem_tick_level mem_allow_ok
       mem_tick_ok mem_ok_later mem_config if_True if_False simp_thms)

subsection \<open>The Redis limiter keeps the contract\<close>

definition red_level :: "redisLimiter \<Rightarrow> string \<Rightarrow> time \<Rightarrow> rat" where
  "red_level rl k t =
     (case rd_keys rl (rd_prefix rl @ k) of
        None \<Rightarrow> rd_burst rl
      | Some b \<Rightarrow> refilled (rd_burst rl) (rb_tokens b) (rd_rate rl) (rb_ts b) 1000 t)"

text \<open>
  The invariant at time \<open>now\<close>: a bucket is full again within the lifetime of its key, and
  every stored bucket was written in the past by the script.
\<close>

definition red_ok :: "time \<Rightarrow> redisLimiter \<Rightarrow> bool" where
  "red_ok now rl \<longleftrightarrow> 0 < rd_rate rl \<and> 1 \<le> rd_burst rl \<and> rd_burst rl \<le> rd_rate rl * (of_int (rd_ttlMs rl) / 1000) \<and>
     (\<forall>k b. rd_keys rl k = Some b \<longrightarrow>
        0 \<le> rb_tokens b \<and> rb_ts b \<le> now \<and> rb_expire b = rb_ts b + rd_ttlMs rl)"

lemma red_okD:
  assumes "red_ok now rl"
  shows "0 < rd_rate rl" "1 \<le> rd_burst rl" "rd_burst rl \<le> rd_rate rl * (of_int (rd_ttlMs rl) / 1000)"
    and "rd_keys rl k = Some b \<Longrightarrow> 0 \<le> rb_tokens b" "rd_keys rl k = Some b \<Longrightarrow> rb_ts b \<le> now"
    and "rd_keys rl k = Some b \<Longrightarrow> rb_expire b = rb_ts b + rd_ttlMs rl"
  using assms by (auto simp: red_ok_def)

lemma red_ok_later: "red_ok now rl \<Longrightarrow> now \<le> t \<Longrightarrow> red_ok t rl"
  unfolding red_ok_def by (meson order_trans)

text \<open>A bucket whose key has expired would be full: its expiry cannot be observed.\<close>

lemma red_expired_full:
  assumes "red_ok now rl" and "rd_keys rl k = Some b" and "now > rb_expire b" and "now \<le> t"
  shows "refilled (rd_burst rl) (rb_tokens b) (rd_rate rl) (rb_ts b) 1000 t = rd_burst rl"
proof (rule refilled_full [where d = "of_int (rd_ttlMs rl) / 1000"])
  have "rd_ttlMs rl \<le> t - rb_ts b"
    using red_okD(6) [OF assms(1,2)] assms(3,4) by simp
  then have "rat_of_int (rd_ttlMs rl) \<le> of_int (t - rb_ts b)" by (simp only: of_int_le_iff)
  then show "of_int (rd_ttlMs rl) / 1000 * 1000 \<le> rat_of_int (t - rb_ts b)" by simp
qed (use red_okD [OF assms(1)] assms(2) in auto)

lemma red_allow_eq:
  assumes ok: "red_ok now rl"
  shows "redisLimiter_allow False now k rl =
    (let l = red_level rl k now
     in (1 \<le> l, rl\<lparr>rd_keys := (rd_keys rl)(rd_prefix rl @ k \<mapsto>
                   \<lparr>rb_tokens = l - (if 1 \<le> l then 1 else 0), rb_ts = now, rb_expire = now + rd_ttlMs rl\<rparr>)\<rparr>))"
proof (cases "rd_keys rl (rd_prefix rl @ k)")
  case None
  then show ?thesis
    using red_okD(2) [OF ok]
    by (simp add: redisLimiter_allow_def tokenBucketScript_def rd_live_def red_level_def Let_def)
next
  case (Some b)
  then show ?thesis
    using red_okD(2) [OF ok] red_okD(5) [OF ok Some] red_expired_full [OF ok Some _ order_refl]
    by (auto simp: redisLimiter_allow_def tokenBucketScript_def rd_live_def red_level_def Let_def
             refilled_def max_def mult.commute)
qed

lemma red_level_update:
  "red_level (rl\<lparr>rd_keys := (rd_keys rl)(rd_prefix rl @ k \<mapsto> b)\<rparr>) k' t =
     (if k' = k then refilled (rd_burst rl) (rb_tokens b) (rd_rate rl) (rb_ts b) 1000 t
      else red_level rl k' t)"
  by (simp add: red_level_def split: option.split)

lemma red_level_nonneg: "red_ok now rl \<Longrightarrow> now \<le> t \<Longrightarrow> 0 \<le> red_level rl k t"
  using red_okD [OF red_ok_later, of now rl t]
  by (auto simp: red_level_def split: option.split intro!: refilled_nonneg)

lemma red_allow_ok: "red_ok now rl \<Longrightarrow> red_ok now (snd (redisLimiter_allow False now k rl))"
  using red_level_nonneg [of now rl now k]
  by (auto simp: red_allow_eq Let_def red_ok_def)

lemma red_allow_level:
  assumes "red_ok now rl"
  shows "red_level (snd (redisLimiter_allow False now k rl)) k' t =
           (if k' = k then min (rd_burst rl) (red_level rl k now - (if 1 \<le> red_level rl k now then 1 else 0)
                              + rd_rate rl * of_int (t - now) / 1000)
            else red_level rl k' t)"
  by (simp add: red_allow_eq [OF assms] Let_def red_level_update refilled_def)

lemma red_tick_level:
  assumes "red_ok now rl" and "now \<le> t"
  shows "red_level (rd_expire now rl) k t = red_level rl k t"
  using red_expired_full [OF assms(1) _ _ assms(2), of "rd_prefix rl @ k"]
  by (auto simp: rd_expire_def red_level_def split: option.splits)

lemma red_tick_ok: "red_ok now rl \<Longrightarrow> red_ok now (rd_expire now rl)"
  by (auto simp: rd_expire_def red_ok_def split: option.splits if_splits)

lemma red_config:
  "rd_rate (snd (redisLimiter_allow d now k rl)) = rd_rate rl"
  "rd_burst (snd (redisLimiter_allow d now k rl)) = rd_burst rl"
  "rd_rate (rd_expire now rl) = rd_rate rl"
  "rd_burst (rd_expire now rl) = rd_burst rl"
  by (auto simp: redisLimiter_allow_def tokenBucketScript_def rd_expire_def Let_def split: option.splits)

lemma red_level_later:
  assumes "red_ok now rl" and "now \<le> t"
  shows "red_level rl k t \<le> red_level rl k now + rd_rate rl * of_int (t - now) / 1000"
  using refilled_later [OF red_okD(1) [OF assms(1)] assms(2), of 1000]
    rate_nonneg [OF red_okD(1) [OF assms(1)] assms(2), of 1000]
  by (simp add: red_level_def split: option.split)

interpretation red: token_bucket "redisLimiter_allow False" rd_expire red_level red_ok rd_rate rd_burst 1000
proof unfold_locales
  fix now t s k k'
  show "red_level s k t \<le> rd_burst s"
    by (auto simp: red_level_def refilled_le split: option.split)
  show "red_ok now s \<Longrightarrow> fst (redisLimiter_allow False now k s) = (1 \<le> red_level s k now)"
    by (simp add: red_allow_eq Let_def)
qed (simp_all only: red_level_nonneg red_level_later red_allow_level red_tick_level red_allow_ok
       red_tick_ok red_ok_later red_config if_True if_False simp_thms)

text \<open>A limiter as the constructors build it satisfies its invariant.\<close>

lemma mem_ok_new:
  "0 < rps \<Longrightarrow> 1 \<le> burst \<Longrightarrow> burst \<le> rps * 180 \<Longrightarrow> mem_ok now (NewRateLimiter rps burst)"
  by (simp add: mem_ok_def NewRateLimiter_def)

lemma red_ok_new:
  assumes "0 < rps" and "1 \<le> burst"
  shows "red_ok now (newRedisLimiter Map.empty prefix rps burst)"
proof -
  define q c where "q = burst / rps" and "c = \<lceil>q * 2 * 1000\<rceil>"
  have "q * 2 * 1000 \<le> of_int c" unfolding c_def by (rule le_of_int_ceiling)
  moreover have "0 < q" using assms by (simp add: q_def)
  ultimately have "q \<le> of_int (c + 1000) / 1000" by simp
  then have "rps * q \<le> rps * (of_int (c + 1000) / 1000)"
    using assms by (intro mult_left_mono) auto
  then have "burst \<le> rps * (of_int (\<lceil>burst / rps * 2 * 1000\<rceil> + 1000) / 1000)"
    using assms unfolding c_def q_def by simp
  then show ?thesis
    using assms by (simp add: red_ok_def newRedisLimiter_def)
qed

subsection \<open>What eviction costs, for every configuration\<close>

text \<open>
  A bucket that needs more than three minutes to refill is full again too early when \<open>cleanupLoop\<close>
  has forgotten its client, and one of less than a token lets the first request of a forgotten
  client through. A potential that grows by one bucket in three minutes pays for both.
\<close>

definition evict_cap :: "RateLimiter \<Rightarrow> rat" where
  "evict_cap rl = max 1 (rl_burst rl)"

definition evict_growth :: "RateLimiter \<Rightarrow> rat" where
  "evict_growth rl = rl_rate rl + evict_cap rl / 180"

definition in_seconds :: "time \<Rightarrow> rat" where
  "in_seconds t = of_int t / of_int second"

definition evict_potential :: "RateLimiter \<Rightarrow> string \<Rightarrow> time \<Rightarrow> rat" where
  "evict_potential rl k now =
     (case visitors rl k of
        None \<Rightarrow> evict_cap rl
      | Some v \<Rightarrow> min (evict_cap rl) (max 0 (tokens v + rl_rate rl * in_seconds (now - lastSeen v)) +
          evict_cap rl / 180 * in_seconds (now - lastSeen v)))"

text \<open>Any limiter a service can have: nobody was last seen in the future.\<close>

definition seen_by :: "time \<Rightarrow> RateLimiter \<Rightarrow> bool" where
  "seen_by now rl \<longleftrightarrow> 0 \<le> rl_rate rl \<and> (\<forall>k v. visitors rl k = Some v \<longrightarrow> lastSeen v \<le> now)"

lemma evict_config:
  "evict_cap (snd (RateLimiter_allow now k rl)) = evict_cap rl" "evict_growth (snd (RateLimiter_allow now k rl)) = evict_growth rl"
  "evict_cap (RateLimiter_cleanup now rl) = evict_cap rl" "evict_growth (RateLimiter_cleanup now rl) = evict_growth rl"
  by (simp_all add: evict_cap_def evict_growth_def mem_config)

lemma in_seconds_nonneg [simp]: "0 \<le> in_seconds t \<longleftrightarrow> 0 \<le> t"
  by (simp add: in_seconds_def zero_le_divide_iff)

lemma in_seconds_split: "in_seconds (t - l) = in_seconds (n - l) + in_seconds (t - n)"
  by (simp add: in_seconds_def diff_divide_distrib)

lemma evict_cap_ge: "1 \<le> evict_cap rl" "rl_burst rl \<le> evict_cap rl" "0 \<le> evict_cap rl"
  by (simp_all add: evict_cap_def)

lemma evict_potential_le: "evict_potential rl k now \<le> evict_cap rl"
  by (simp add: evict_potential_def split: option.split)

lemma evict_potential_nonneg: "seen_by now rl \<Longrightarrow> 0 \<le> evict_potential rl k now"
  using evict_cap_ge(3) [of rl] by (auto simp: evict_potential_def seen_by_def split: option.split)

lemma evict_potential_later:
  assumes "seen_by now rl" and "now \<le> t"
  shows "evict_potential rl k t \<le> evict_potential rl k now + evict_growth rl * in_seconds (t - now)"
proof (cases "visitors rl k")
  case None
  have "0 \<le> evict_growth rl" using assms(1) evict_cap_ge(3) [of rl] by (simp add: seen_by_def evict_growth_def)
  then have "0 \<le> evict_growth rl * in_seconds (t - now)" using assms(2) by simp
  with None show ?thesis by (simp add: evict_potential_def)
next
  case (Some v)
  let ?d = "in_seconds (t - now)" and ?r = "rl_rate rl" and ?g = "evict_cap rl / 180"
  have d: "0 \<le> ?d" and r: "0 \<le> ?r" and g: "0 \<le> ?g" using assms evict_cap_ge(3) [of rl] by (simp_all add: seen_by_def)
  have e: "in_seconds (t - lastSeen v) = in_seconds (now - lastSeen v) + ?d" by (rule in_seconds_split)
  have rd: "0 \<le> ?r * ?d" and gd: "0 \<le> ?g * ?d" using d r g by simp_all
  have "max 0 (tokens v + ?r * in_seconds (t - lastSeen v)) \<le> max 0 (tokens v + ?r * in_seconds (now - lastSeen v)) + ?r * ?d"
    using rd by (simp add: e distrib_left)
  moreover have "evict_growth rl * ?d = ?r * ?d + ?g * ?d" by (simp add: evict_growth_def distrib_right)
  moreover have "?g * in_seconds (t - lastSeen v) = ?g * in_seconds (now - lastSeen v) + ?g * ?d" by (simp add: e distrib_left)
  ultimately show ?thesis using rd gd unfolding evict_potential_def Some option.case by linarith
qed

lemma seen_by_later: "seen_by now rl \<Longrightarrow> now \<le> t \<Longrightarrow> seen_by t rl"
  unfolding seen_by_def by (meson order_trans)

lemma seen_by_allow: "seen_by now rl \<Longrightarrow> seen_by now (snd (RateLimiter_allow now k rl))"
  by (auto simp: seen_by_def RateLimiter_allow_def Let_def split: option.split)

lemma seen_by_cleanup: "seen_by now rl \<Longrightarrow> seen_by now (RateLimiter_cleanup now rl)"
  by (auto simp: seen_by_def RateLimiter_cleanup_def RateLimiter_evict_def split: option.splits if_splits)

text \<open>A request that passes is paid for, and forgetting a client is.\<close>

lemma evict_potential_allow:
  assumes "seen_by now rl"
  shows "(if fst (RateLimiter_allow now k rl) then 1 else 0) + evict_potential (snd (RateLimiter_allow now k rl)) k now
    \<le> evict_potential rl k now"
proof (cases "visitors rl k")
  case None
  then show ?thesis by (simp add: RateLimiter_allow_def evict_potential_def evict_cap_def in_seconds_def)
next
  case (Some v)
  let ?t = "tokens v + rl_rate rl * in_seconds (now - lastSeen v)"
  have e: "(of_int (now - lastSeen v) / of_int second :: rat) * rl_rate rl = rl_rate rl * in_seconds (now - lastSeen v)"
    by (simp add: in_seconds_def)
  have g: "0 \<le> evict_cap rl / 180 * in_seconds (now - lastSeen v)"
    using assms Some evict_cap_ge(3) [of rl] by (simp add: seen_by_def)
  define t where "t = (if ?t > rl_burst rl then rl_burst rl else ?t)"
  have a: "RateLimiter_allow now k rl =
      (1 \<le> t, rl\<lparr>visitors := (visitors rl)(k \<mapsto> \<lparr>tokens = t - (if 1 \<le> t then 1 else 0), lastSeen = now\<rparr>)\<rparr>)"
    unfolding RateLimiter_allow_def Some option.case Let_def e t_def [symmetric] by (cases "1 \<le> t") simp_all
  have z: "in_seconds 0 = 0" by (simp add: in_seconds_def)
  have "t \<le> ?t" "t \<le> evict_cap rl" using evict_cap_ge(2) [of rl] by (auto simp: t_def)
  with g have "max 0 t \<le> evict_potential rl k now"
    using evict_cap_ge(3) [of rl] by (simp add: evict_potential_def Some)
  then show ?thesis by (auto simp: a evict_potential_def evict_cap_def z)
qed

lemma evict_potential_other:
  "k' \<noteq> k \<Longrightarrow> evict_potential (snd (RateLimiter_allow now k' rl)) k now = evict_potential rl k now"
  by (simp add: evict_potential_def RateLimiter_allow_def evict_cap_def Let_def split: option.split)

lemma evict_potential_cleanup:
  assumes "seen_by now rl"
  shows "evict_potential (RateLimiter_cleanup now rl) k now = evict_potential rl k now"
proof (cases "visitors rl k")
  case (Some v)
  show ?thesis
  proof (cases "lastSeen v < now + -3 * minute")
    case True
    then have "180 * second \<le> now - lastSeen v" by simp
    then have "rat_of_int (180 * second) \<le> of_int (now - lastSeen v)" by (simp only: of_int_le_iff)
    then have "180 \<le> in_seconds (now - lastSeen v)" by (simp add: in_seconds_def)
    then have "evict_cap rl * 180 \<le> evict_cap rl * in_seconds (now - lastSeen v)"
      using evict_cap_ge(3) [of rl] by (intro mult_left_mono)
    then have "evict_cap rl \<le> evict_cap rl / 180 * in_seconds (now - lastSeen v)" by simp
    then have "evict_cap rl \<le> max 0 (tokens v + rl_rate rl * in_seconds (now - lastSeen v)) +
        evict_cap rl / 180 * in_seconds (now - lastSeen v)" by linarith
    with True Some show ?thesis
      by (simp add: evict_potential_def RateLimiter_cleanup_def RateLimiter_evict_def evict_cap_def)
  qed (use Some in \<open>simp add: evict_potential_def RateLimiter_cleanup_def RateLimiter_evict_def evict_cap_def\<close>)
qed (simp add: evict_potential_def RateLimiter_cleanup_def RateLimiter_evict_def evict_cap_def)

lemma granted_evicting:
  assumes "seen_by now rl" and "ordered_from now es"
  shows "rat_of_nat (granted RateLimiter_allow RateLimiter_cleanup k rl es)
    \<le> evict_potential rl k now + evict_growth rl * in_seconds (end_time now es - now)"
  using assms
proof (induction es arbitrary: rl now)
  case Nil
  then show ?case by (simp add: granted_def evict_potential_nonneg in_seconds_def)
next
  case (Cons e es)
  let ?t = "event_time e"
  have ok: "seen_by ?t rl" and later: "now \<le> ?t" and ord: "ordered_from ?t es"
    using Cons.prems seen_by_later by auto
  have grow: "evict_potential rl k ?t \<le> evict_potential rl k now + evict_growth rl * in_seconds (?t - now)"
    using evict_potential_later [OF Cons.prems(1) later] .
  have split: "evict_growth rl * in_seconds (end_time ?t es - now) =
      evict_growth rl * in_seconds (?t - now) + evict_growth rl * in_seconds (end_time ?t es - ?t)"
    by (simp flip: distrib_left in_seconds_split)
  show ?case
  proof (cases e)
    case (Tick t)
    with Cons.IH [OF seen_by_cleanup [OF ok] ord] ok grow split show ?thesis
      by (simp add: granted_def evict_potential_cleanup evict_config)
  next
    case (Req t k')
    define rl' where "rl' = snd (RateLimiter_allow t k' rl)"
    have IH: "rat_of_nat (granted RateLimiter_allow RateLimiter_cleanup k rl' es)
        \<le> evict_potential rl' k t + evict_growth rl * in_seconds (end_time t es - t)"
      using Cons.IH [OF seen_by_allow [OF ok, of k'] ord] Req by (simp add: rl'_def evict_config)
    have "rat_of_nat (granted RateLimiter_allow RateLimiter_cleanup k rl (e # es))
        = (if k' = k \<and> fst (RateLimiter_allow t k' rl) then 1 else 0)
          + rat_of_nat (granted RateLimiter_allow RateLimiter_cleanup k rl' es)"
      using Req by (auto simp: granted_def rl'_def)
    moreover have "(if k' = k \<and> fst (RateLimiter_allow t k' rl) then 1 else 0) + evict_potential rl' k t \<le> evict_potential rl k t"
      using evict_potential_allow [of t rl k] evict_potential_other [of k' k t rl] ok Req by (cases "k' = k") (auto simp: rl'_def)
    ultimately show ?thesis using IH grow split Req by simp
  qed
qed

section \<open>Properties of the limiters\<close>

text \<open>
  C4. How many requests of one client the in-memory limiter admits in a window of \<open>T\<close> seconds, whatever
  the other clients do, however the cleanup rounds fall and whatever the configuration: at most
  one bucket (\<open>burst\<close>, or one request if the burst is smaller), what is refilled at \<open>rate\<close>, and
  one more bucket in three minutes, because an idle client is forgotten after that time. If a bucket
  holds a request and refills within these three minutes (\<open>1 \<le> burst \<le> 180 * rate\<close>), forgetting
  costs nothing: at most \<open>burst + rate * T\<close>.
\<close>

theorem RateLimiter_window_bound:
  assumes "seen_by now rl" and "ordered_from now es"
  shows "rat_of_nat (granted RateLimiter_allow RateLimiter_cleanup k rl es)
       \<le> max 1 (rl_burst rl) + (rl_rate rl + max 1 (rl_burst rl) / 180) * (of_int (end_time now es - now) / of_int second) \<and>
    (mem_ok now rl \<longrightarrow> rat_of_nat (granted RateLimiter_allow RateLimiter_cleanup k rl es)
       \<le> rl_burst rl + rl_rate rl * of_int (end_time now es - now) / of_int second)"
  using granted_evicting [OF assms, of k] evict_potential_le [of rl k now] mem.granted_window [OF _ assms(2), of rl k]
  by (auto simp: evict_growth_def evict_cap_def in_seconds_def)

text \<open>
  With a bucket of five and one token in 100 seconds a client gets ten requests in 181 seconds,
  five more than the bucket and the refill give.
\<close>

theorem RateLimiter_window_bound_witness:
  "let es = replicate 5 (Req 0 ''a'') @ [Tick (181 * second)] @ replicate 5 (Req (181 * second) ''a'') in
   rat_of_nat (granted RateLimiter_allow RateLimiter_cleanup ''a'' (NewRateLimiter (1 / 100) 5) es) \<le> 5 + (1 / 100 + 5 / 180) * 181 \<and>
   granted RateLimiter_allow RateLimiter_cleanup ''a'' (NewRateLimiter (1 / 100) 5) es = 10"
proof -
  let ?rl = "NewRateLimiter (1 / 100) 5"
    and ?es = "replicate 5 (Req 0 ''a'') @ [Tick (181 * second)] @ replicate 5 (Req (181 * second) ''a'')"
  have s: "seen_by 0 ?rl" and o: "ordered_from 0 ?es" and e: "end_time 0 ?es = 181 * second"
    by (simp_all add: seen_by_def NewRateLimiter_def numeral_eq_Suc)
  from RateLimiter_window_bound [OF s o, of "''a''"]
  have "rat_of_nat (granted RateLimiter_allow RateLimiter_cleanup ''a'' ?rl ?es) \<le> 5 + (1 / 100 + 5 / 180) * 181"
    unfolding e by (simp add: NewRateLimiter_def)
  moreover have "granted RateLimiter_allow RateLimiter_cleanup ''a'' ?rl ?es = 10"
    by code_simp
  ultimately show ?thesis unfolding Let_def by blast
qed

text \<open>
  C5. For a positive rate, a burst of at least one and a burst that refills within the three minutes
  the in-memory limiter remembers a client (burst at most 180 times the rate), both limiters refine
  the abstract token bucket: they decide every run of requests, at times that do not decrease and
  with Redis answering, as the bucket that never forgets a client does, however the rounds of
  cleaning (eviction of idle visitors, expiry of keys) fall. (Beyond these values the eviction shows:
  \<open>eviction_observable\<close>.)
\<close>
theorem limiters_refine_bucket:
  assumes "0 < rps" and "1 \<le> burst" and "burst \<le> rps * 180" and "ordered_from now es"
  shows "decisions RateLimiter_allow RateLimiter_cleanup (NewRateLimiter rps burst) es =
      decisions (bucket_allow rps burst (of_int second)) (\<lambda>_ L. L) (full_buckets burst) es \<and>
    decisions (redisLimiter_allow False) rd_expire (newRedisLimiter Map.empty prefix rps burst) es =
      decisions (bucket_allow rps burst 1000) (\<lambda>_ L. L) (full_buckets burst) es"
  using mem.refines_bucket [OF mem_ok_new [OF assms(1-3)] assms(4), of "full_buckets burst"]
    red.refines_bucket [OF red_ok_new [OF assms(1,2)] assms(4), of prefix "full_buckets burst"]
  by (simp add: NewRateLimiter_def newRedisLimiter_def mem_level_def red_level_def full_buckets_def)

text \<open>With one token in 100 seconds and a burst of 5, a client that waits 181 seconds finds a full bucket again.\<close>

lemma eviction_observable:
  "let es = replicate 5 (Req 0 ''a'') @ [Tick (181 * second)] @ replicate 5 (Req (181 * second) ''a'')
   in decisions RateLimiter_allow RateLimiter_cleanup (NewRateLimiter (1 / 100) 5) es = replicate 10 (''a'', True) \<and>
      decisions (bucket_allow (1 / 100) 5 (of_int second)) (\<lambda>_ L. L) (full_buckets 5) es =
        replicate 6 (''a'', True) @ replicate 4 (''a'', False)"
  by code_simp

theorem limiters_refine_bucket_witness:
  "decisions RateLimiter_allow RateLimiter_cleanup (NewRateLimiter 1 2)
     [Req 0 ''a'', Tick (200 * second), Req (200 * second) ''a'', Req (200 * second) ''a'', Req (200 * second) ''a''] =
   [(''a'', True), (''a'', True), (''a'', True), (''a'', False)]"
  using limiters_refine_bucket [of 1 2 0 "[Req 0 ''a'', Tick (200 * second), Req (200 * second) ''a'', Req (200 * second) ''a'', Req (200 * second) ''a'']"]
  by (simp add: bucket_allow_def full_buckets_def)

text \<open>
  The same bound holds for the Redis limiter while Redis answers, across replicas that
  share the server and whenever expired keys are dropped.
\<close>

theorem redisLimiter_window_bound:
  assumes "red_ok now rl" and "ordered_from now es"
  shows "rat_of_nat (granted (redisLimiter_allow False) rd_expire k rl es)
           \<le> rd_burst rl + rd_rate rl * of_int (end_time now es - now) / 1000"
  by (rule red.granted_window [OF assms])

theorem redisLimiter_window_bound_witness:
  "rat_of_nat (granted (redisLimiter_allow False) rd_expire ''a'' (newRedisLimiter Map.empty ''rl:'' 1 2)
     [Req 0 ''a'', Req 0 ''a'', Req 500 ''a'', Req 1500 ''a'']) \<le> 7 / 2
   \<and> granted (redisLimiter_allow False) rd_expire ''a'' (newRedisLimiter Map.empty ''rl:'' 1 2)
     [Req 0 ''a'', Req 0 ''a'', Req 500 ''a'', Req 1500 ''a''] = 3"
  using redisLimiter_window_bound [OF red_ok_new [of 1 2 0 "''rl:''"],
      of "[Req 0 ''a'', Req 0 ''a'', Req 500 ''a'', Req 1500 ''a'']" "''a''"]
  by (simp add: newRedisLimiter_def granted_def redisLimiter_allow_def tokenBucketScript_def rd_live_def)

text \<open>The events of a Redis run, on the nanosecond clock of the process.\<close>

fun in_nanoseconds :: "rl_event \<Rightarrow> rl_event" where
  "in_nanoseconds (Req t k) = Req (t * millisecond) k"
| "in_nanoseconds (Tick t) = Tick (t * millisecond)"

definition same_buckets :: "time \<Rightarrow> RateLimiter \<Rightarrow> redisLimiter \<Rightarrow> bool" where
  "same_buckets now m r \<longleftrightarrow> mem_ok (now * millisecond) m \<and> red_ok now r \<and>
     rl_rate m = rd_rate r \<and> rl_burst m = rd_burst r \<and>
     (\<forall>k t. now \<le> t \<longrightarrow> mem_level m k (t * millisecond) = red_level r k t)"

lemma same_buckets_later: "same_buckets now m r \<Longrightarrow> now \<le> t \<Longrightarrow> same_buckets t m r"
  using mem_ok_later [of "now * millisecond" m "t * millisecond"] red_ok_later [of now r t]
  by (auto simp: same_buckets_def)

lemma same_buckets_allow:
  assumes "same_buckets now m r"
  shows "fst (RateLimiter_allow (now * millisecond) k m) = fst (redisLimiter_allow False now k r)"
    and "same_buckets now (snd (RateLimiter_allow (now * millisecond) k m)) (snd (redisLimiter_allow False now k r))"
proof -
  have ok: "mem_ok (now * millisecond) m" "red_ok now r"
    and eq: "rl_rate m = rd_rate r" "rl_burst m = rd_burst r"
    and lev: "\<And>k t. now \<le> t \<Longrightarrow> mem_level m k (t * millisecond) = red_level r k t"
    using assms by (auto simp: same_buckets_def)
  show "fst (RateLimiter_allow (now * millisecond) k m) = fst (redisLimiter_allow False now k r)"
    by (simp add: mem.allow_iff [OF ok(1)] red.allow_iff [OF ok(2)] lev)
  have "of_int (t * millisecond - now * millisecond) / of_int second = (of_int (t - now) / 1000 :: rat)" for t
    by (simp add: algebra_simps diff_divide_distrib)
  then have scale: "q * of_int (t * millisecond - now * millisecond) / of_int second = (q * of_int (t - now) / 1000 :: rat)" for q t
    by (metis times_divide_eq_right)
  show "same_buckets now (snd (RateLimiter_allow (now * millisecond) k m)) (snd (redisLimiter_allow False now k r))"
    unfolding same_buckets_def mem_allow_level [OF ok(1)] red_allow_level [OF ok(2)] scale
    using mem_allow_ok [OF ok(1)] red_allow_ok [OF ok(2)] by (simp add: mem_config red_config eq lev)
qed

lemma same_buckets_tick:
  "same_buckets now m r \<Longrightarrow> same_buckets now (RateLimiter_cleanup (now * millisecond) m) (rd_expire now r)"
  using mem_tick_ok red_tick_ok mem_tick_level red_tick_level
  by (auto simp: same_buckets_def mem_config red_config)

text \<open>
  The script makes the same decisions as the in-memory limiter ("the same token bucket as
  \<open>RateLimiter.allow\<close>"): started with the same configuration, on any run of requests and
  cleaning rounds at whole milliseconds, the two sequences of decisions are equal.
\<close>

theorem redisLimiter_equals_RateLimiter:
  assumes "same_buckets now m r" and "ordered_from now es"
  shows "decisions RateLimiter_allow RateLimiter_cleanup m (map in_nanoseconds es)
           = decisions (redisLimiter_allow False) rd_expire r es"
  using assms
proof (induction es arbitrary: now m r)
  case (Cons e es)
  then have now: "same_buckets (event_time e) m r" and ord: "ordered_from (event_time e) es"
    using same_buckets_later by auto
  show ?case
  proof (cases e)
    case (Req t k)
    with now ord show ?thesis
      using Cons.IH [OF same_buckets_allow(2) [of t m r k]] same_buckets_allow(1) [of t m r k] by simp
  next
    case (Tick t)
    with now ord show ?thesis
      using Cons.IH [OF same_buckets_tick [of t m r]] by simp
  qed
qed simp

theorem redisLimiter_equals_RateLimiter_witness:
  "decisions RateLimiter_allow RateLimiter_cleanup (NewRateLimiter 1 2)
     (map in_nanoseconds [Req 0 ''a'', Req 0 ''a'', Req 500 ''a'', Req 1500 ''a''])
   = decisions (redisLimiter_allow False) rd_expire (newRedisLimiter Map.empty ''rl:'' 1 2)
     [Req 0 ''a'', Req 0 ''a'', Req 500 ''a'', Req 1500 ''a'']
   \<and> decisions (redisLimiter_allow False) rd_expire (newRedisLimiter Map.empty ''rl:'' 1 2)
     [Req 0 ''a'', Req 0 ''a'', Req 500 ''a'', Req 1500 ''a'']
     = [(''a'', True), (''a'', True), (''a'', False), (''a'', True)]"
proof -
  have "same_buckets 0 (NewRateLimiter 1 2) (newRedisLimiter Map.empty ''rl:'' 1 2)"
    unfolding same_buckets_def using mem_ok_new [of 1 2 0] red_ok_new [of 1 2 0 "''rl:''"]
    by (simp add: NewRateLimiter_def newRedisLimiter_def mem_level_def red_level_def)
  then have "decisions RateLimiter_allow RateLimiter_cleanup (NewRateLimiter 1 2)
     (map in_nanoseconds [Req 0 ''a'', Req 0 ''a'', Req 500 ''a'', Req 1500 ''a''])
   = decisions (redisLimiter_allow False) rd_expire (newRedisLimiter Map.empty ''rl:'' 1 2)
     [Req 0 ''a'', Req 0 ''a'', Req 500 ''a'', Req 1500 ''a'']"
    by (rule redisLimiter_equals_RateLimiter) simp
  then show ?thesis
    by (rule conjI) (simp add: newRedisLimiter_def redisLimiter_allow_def tokenBucketScript_def rd_live_def)
qed

end
