(* ===== verification/Gateway.thy ===== *)
theory Gateway
  imports Jwt RateLimit
begin

section \<open>The API gateway (api-gateway/cmd)\<close>

text \<open>
  The gateway turns a request of a client into a reply or into a request to an upstream
  service. Its global middleware stamps a request id and the internal secret and limits the
  rate; \<open>authMiddleware\<close> validates the bearer token and sets the identity headers; the routes
  pick the upstream; each upstream is called through a circuit breaker. CORS and the breaker
  (sony/gobreaker) are parameters.
\<close>

subsection \<open>Global middleware\<close>

text \<open>\<open>generateRequestID\<close>: 16 random bytes in hexadecimal, or the clock when the source fails.\<close>

definition generateRequestID :: "string option \<Rightarrow> nat \<Rightarrow> string" where
  "generateRequestID random unixNano =
     (case random of
        None \<Rightarrow> show_nat unixNano
      | Some b \<Rightarrow> hex_encode b)"

definition requestIDMiddleware :: "string \<Rightarrow> request \<Rightarrow> request" where
  "requestIDMiddleware gen r =
     (let reqID = (if GetHeader ''X-Request-ID'' r = [] then gen else GetHeader ''X-Request-ID'' r)
      in SetHeader ''X-Request-ID'' reqID r)"

definition internalSecretMiddleware :: "string \<Rightarrow> request \<Rightarrow> request" where
  "internalSecretMiddleware secret r = SetHeader ''X-Internal-Secret'' secret r"

subsection \<open>Authentication\<close>

definition bearer_token :: "request \<Rightarrow> string" where
  "bearer_token r = (let authHeader = GetHeader ''Authorization'' r
     in if length authHeader > 7 \<and> take 7 authHeader = ''Bearer '' then drop 7 authHeader else authHeader)"

definition authMiddleware :: "Jwt \<Rightarrow> time \<Rightarrow> string \<Rightarrow> request \<Rightarrow> 'd response + request" where
  "authMiddleware jwt now secret r =
     (if GetHeader ''Authorization'' r = [] then Inl (Error 401 ''missing token'' ''UNAUTHORIZED'')
      else case jwt_Parse jwt now (keyfunc secret) (bearer_token r) of
             None \<Rightarrow> Inl (Error 401 ''invalid token'' ''UNAUTHORIZED'')
           | Some token \<Rightarrow>
               if \<not> tk_Valid token then Inl (Error 401 ''invalid token'' ''UNAUTHORIZED'')
               else (case tk_Claims token of
                       None \<Rightarrow> Inl (Error 401 ''invalid token claims'' ''UNAUTHORIZED'')
                     | Some claims \<Rightarrow>
                         let userIDClaim = claim ''user_id'' claims; roleClaim = claim ''role'' claims in
                         if userIDClaim = JNull \<or> roleClaim = JNull then Inl (Error 401 ''invalid token claims'' ''UNAUTHORIZED'')
                         else let userID = Sprint_v userIDClaim; role = Sprint_v roleClaim in
                              if userID = [] \<or> role = [] then Inl (Error 401 ''invalid token claims'' ''UNAUTHORIZED'')
                              else Inr (SetHeader ''X-User-ROLE'' role (SetHeader ''X-User-ID'' userID r))))"

subsection \<open>Proxying\<close>

datatype upstream = AuthUpstream | TicketUpstream

text \<open>
  \<open>httputil.ReverseProxy\<close> drops the hop-by-hop headers and every header that the client names
  in \<open>Connection\<close> before it calls the upstream. The comparison of names is modelled on
  canonical names.
\<close>

definition hopHeaders :: "string list" where
  "hopHeaders = [''Connection'', ''Proxy-Connection'', ''Keep-Alive'', ''Proxy-Authenticate'', ''Proxy-Authorization'',
     ''Te'', ''Trailer'', ''Transfer-Encoding'', ''Upgrade'']"

definition connection_names :: "request \<Rightarrow> string list" where
  "connection_names r = map TrimSpace (Split (CHR '','') (GetHeader ''Connection'' r))"

definition hop_by_hop :: "request \<Rightarrow> string \<Rightarrow> bool" where
  "hop_by_hop r h \<longleftrightarrow> (\<exists>n\<in>set (connection_names r). n \<noteq> [] \<and> fold_eq n h) \<or> h \<in> set hopHeaders"

definition removeHopByHopHeaders :: "request \<Rightarrow> request" where
  "removeHopByHopHeaders r = r\<lparr>rq_headers := (\<lambda>h. if hop_by_hop r h then [] else rq_headers r h)\<rparr>"

text \<open>What leaves the gateway: a reply of its own, or a request for an upstream.\<close>

datatype 'd outcome = Reply "'d response" | Forward upstream request

definition proxyTo :: "upstream \<Rightarrow> request \<Rightarrow> 'd outcome" where
  "proxyTo target r = Forward target (removeHopByHopHeaders r)"

definition proxyTrim :: "string \<Rightarrow> upstream \<Rightarrow> request \<Rightarrow> 'd outcome" where
  "proxyTrim prefix target r =
     (let path = drop (length prefix) (rq_path r);
          path = (if path = [] then ''/'' else path)
      in Forward target (removeHopByHopHeaders (r\<lparr>rq_path := path\<rparr>)))"

subsection \<open>Routes\<close>

definition gw_auth :: "Jwt \<Rightarrow> time \<Rightarrow> string \<Rightarrow> (request \<Rightarrow> 'd outcome) \<Rightarrow> request \<Rightarrow> 'd outcome" where
  "gw_auth jwt now secret proxy r =
     (case authMiddleware jwt now secret r of Inl reply \<Rightarrow> Reply reply | Inr r' \<Rightarrow> proxy r')"

text \<open>
  The route table: a method (\<open>None\<close> for \<open>Any\<close>), a path pattern (\<open>Inr p\<close> for the wildcard
  \<open>p/*path\<close>) and the handler.
\<close>

definition anyMethods :: "string list" where
  "anyMethods = [''GET'', ''POST'', ''PUT'', ''PATCH'', ''HEAD'', ''OPTIONS'', ''DELETE'', ''CONNECT'', ''TRACE'']"

definition gateway_routes ::
  "Jwt \<Rightarrow> time \<Rightarrow> string \<Rightarrow> 'd \<Rightarrow> (string option \<times> (string + string) \<times> (request \<Rightarrow> 'd outcome)) list" where
  "gateway_routes jwt now secret ok =
     (let auth = gw_auth jwt now secret; toAuth = proxyTrim ''/auth'' AuthUpstream; toTicket = proxyTo TicketUpstream in
     [(Some ''GET'', Inl ''/health'', \<lambda>r. Reply (Success ok)),
      (None, Inl ''/auth/login'', toAuth),
      (None, Inl ''/auth/register'', toAuth),
      (None, Inl ''/auth/refresh'', toAuth),
      (Some ''POST'', Inl ''/auth/logout'', auth toAuth),
      (Some ''POST'', Inl ''/auth/admin/staff'', auth toAuth),
      (Some ''GET'', Inl ''/auth/admin/agents'', auth toAuth),
      (Some ''GET'', Inl ''/auth/me'', auth toAuth),
      (Some ''PATCH'', Inl ''/auth/me'', auth toAuth),
      (Some ''PATCH'', Inl ''/auth/me/availability'', auth toAuth),
      (Some ''POST'', Inl ''/auth/change-password'', auth toAuth),
      (Some ''GET'', Inl ''/reports/summary'', auth toTicket),
      (Some ''GET'', Inl ''/reports/agents'', auth toTicket),
      (Some ''GET'', Inl ''/reports/critical-trends'', auth toTicket),
      (Some ''GET'', Inl ''/reports/queue-size'', auth toTicket),
      (None, Inl ''/tickets'', auth toTicket),
      (None, Inr ''/tickets'', auth toTicket)])"

fun route_matches :: "request \<Rightarrow> string option \<times> (string + string) \<times> 'h \<Rightarrow> bool" where
  "route_matches r (meth, Inl path, h) \<longleftrightarrow>
     (case meth of None \<Rightarrow> rq_method r \<in> set anyMethods | Some me \<Rightarrow> rq_method r = me) \<and> rq_path r = path"
| "route_matches r (meth, Inr path, h) \<longleftrightarrow>
     (case meth of None \<Rightarrow> rq_method r \<in> set anyMethods | Some me \<Rightarrow> rq_method r = me) \<and> is_prefix (path @ ''/'') (rq_path r)"

definition gw_route :: "Jwt \<Rightarrow> time \<Rightarrow> string \<Rightarrow> 'd \<Rightarrow> request \<Rightarrow> 'd outcome" where
  "gw_route jwt now secret ok r =
     (case List.find (route_matches r) (gateway_routes jwt now secret ok) of
        None \<Rightarrow> Reply (Error 404 ''404 page not found'' [])
      | Some (_, _, handler) \<Rightarrow> handler r)"

record 'd GatewayConfig =
  gw_jwt :: Jwt
  gw_jwtSecret :: string
  gw_internalSecret :: string
  gw_cors :: "request \<Rightarrow> 'd response option"
  gw_ok :: 'd

text \<open>One request: the global middleware in the order \<open>main\<close> installs it, then the route.\<close>

definition gateway_handle ::
  "'d GatewayConfig \<Rightarrow> bool \<Rightarrow> time \<Rightarrow> string \<Rightarrow> request \<Rightarrow> Limiter \<Rightarrow> 'd outcome \<times> Limiter" where
  "gateway_handle cfg redis_down now gen r rl =
     (let r = internalSecretMiddleware (gw_internalSecret cfg) (requestIDMiddleware gen r)
      in case RateLimitMiddleware redis_down now r rl of
           (Some reply, rl') \<Rightarrow> (Reply reply, rl')
         | (None, rl') \<Rightarrow>
             (case gw_cors cfg r of
                Some reply \<Rightarrow> (Reply reply, rl')
              | None \<Rightarrow> (gw_route (gw_jwt cfg) now (gw_jwtSecret cfg) (gw_ok cfg) r, rl')))"

subsection \<open>The circuit breaker around an upstream\<close>

datatype transport_err =
    ErrOpenState
  | ErrTooManyRequests
  | TransportError string
  | ClientGone (gone_err: transport_err)

text \<open>
  gobreaker: whether the breaker lets a call through, and what it makes of its result. The
  settings of \<open>newUpstreamBreaker\<close> exclude \<open>clientGoneError\<close>; otherwise a nil error is a
  success (the default).
\<close>

datatype breaker_result = Succeeded | Failed | Excluded

record 'b CircuitBreaker =
  br_before :: "'b \<Rightarrow> transport_err option \<times> 'b"
  br_after :: "breaker_result \<Rightarrow> 'b \<Rightarrow> 'b"

fun IsExcluded :: "transport_err \<Rightarrow> bool" where
  "IsExcluded (ClientGone e) \<longleftrightarrow> True"
| "IsExcluded _ \<longleftrightarrow> False"

fun result_of :: "transport_err + 'r \<Rightarrow> breaker_result" where
  "result_of (Inr resp) = Succeeded"
| "result_of (Inl e) = (if IsExcluded e then Excluded else Failed)"

definition Execute :: "'b CircuitBreaker \<Rightarrow> (transport_err + 'r) \<Rightarrow> 'b \<Rightarrow> (transport_err + 'r) \<times> 'b" where
  "Execute br req b =
     (case br_before br b of
        (Some e, b') \<Rightarrow> (Inl e, b')
      | (None, b') \<Rightarrow> (req, br_after br (result_of req) b'))"

text \<open>\<open>next_rt\<close> is what the transport returns, \<open>ctx_done\<close> whether the request's context is done.\<close>

definition RoundTrip :: "'b CircuitBreaker \<Rightarrow> bool \<Rightarrow> (transport_err + 'r) \<Rightarrow> 'b \<Rightarrow> (transport_err + 'r) \<times> 'b" where
  "RoundTrip br ctx_done next_rt b =
     (let req = (case next_rt of Inl e \<Rightarrow> if ctx_done then Inl (ClientGone e) else Inl e | Inr resp \<Rightarrow> Inr resp)
      in case Execute br req b of
           (Inl (ClientGone e), b') \<Rightarrow> (Inl e, b')
         | (res, b') \<Rightarrow> (res, b'))"

definition proxyErrorHandler :: "transport_err \<Rightarrow> 'd response" where
  "proxyErrorHandler e =
     (if e = ErrOpenState \<or> e = ErrTooManyRequests
      then Error 503 ''upstream service temporarily unavailable'' ''CIRCUIT_OPEN''
      else Error 502 ''upstream service unavailable'' ''BAD_GATEWAY'')"

definition upstream_call :: "'b CircuitBreaker \<Rightarrow> bool \<Rightarrow> (transport_err + 'd response) \<Rightarrow> 'b \<Rightarrow> 'd response \<times> 'b" where
  "upstream_call br ctx_done next_rt b =
     (case RoundTrip br ctx_done next_rt b of
        (Inl e, b') \<Rightarrow> (proxyErrorHandler e, b')
      | (Inr resp, b') \<Rightarrow> (resp, b'))"

subsection \<open>What reaches an upstream\<close>

lemma hop_header [simp]: "GetHeader h (removeHopByHopHeaders r) = (if hop_by_hop r h then [] else GetHeader h r)"
  by (simp add: GetHeader_def removeHopByHopHeaders_def)

lemma hop_by_hop_set [simp]:
  "h' \<noteq> ''Connection'' \<Longrightarrow> hop_by_hop (SetHeader h' v r) = hop_by_hop r" "hop_by_hop (r\<lparr>rq_path := path\<rparr>) = hop_by_hop r"
  by (simp_all add: fun_eq_iff hop_by_hop_def connection_names_def) (simp add: GetHeader_def)

lemma hop_frame [simp]:
  "rq_path (removeHopByHopHeaders r) = rq_path r" "rq_method (removeHopByHopHeaders r) = rq_method r"
  "rq_query (removeHopByHopHeaders r) = rq_query r" "rq_body (removeHopByHopHeaders r) = rq_body r"
  "rq_ip (removeHopByHopHeaders r) = rq_ip r"
  by (simp_all add: removeHopByHopHeaders_def)

lemma GetHeader_path [simp]: "GetHeader h (r\<lparr>rq_path := path\<rparr>) = GetHeader h r"
  by (simp add: GetHeader_def)

text \<open>The request carries an identity taken from a valid token.\<close>

definition identified :: "Jwt \<Rightarrow> time \<Rightarrow> string \<Rightarrow> request \<Rightarrow> request \<Rightarrow> bool" where
  "identified jwt now secret r r' \<longleftrightarrow> (\<exists>claims.
     jwt_Parse jwt now (keyfunc secret) (bearer_token r) = Some \<lparr>tk_Valid = True, tk_Claims = Some claims\<rparr> \<and>
     claim ''user_id'' claims \<noteq> JNull \<and> claim ''role'' claims \<noteq> JNull \<and>
     GetHeader ''X-User-ID'' r' \<in> {Sprint_v (claim ''user_id'' claims), []} \<and>
     GetHeader ''X-User-ROLE'' r' \<in> {Sprint_v (claim ''role'' claims), []})"

lemma authMiddleware_Inr:
  assumes "authMiddleware jwt now secret r = Inr r'"
  obtains claims where "jwt_Parse jwt now (keyfunc secret) (bearer_token r) = Some \<lparr>tk_Valid = True, tk_Claims = Some claims\<rparr>"
    and "claim ''user_id'' claims \<noteq> JNull" and "claim ''role'' claims \<noteq> JNull"
    and "r' = SetHeader ''X-User-ROLE'' (Sprint_v (claim ''role'' claims)) (SetHeader ''X-User-ID'' (Sprint_v (claim ''user_id'' claims)) r)"
proof -
  from assms obtain token where t: "jwt_Parse jwt now (keyfunc secret) (bearer_token r) = Some token"
    by (auto simp: authMiddleware_def split: if_splits option.splits)
  from assms t obtain claims where c: "token = \<lparr>tk_Valid = True, tk_Claims = Some claims\<rparr>"
    by (cases token) (auto simp: authMiddleware_def split: if_splits option.splits)
  from assms t c that show ?thesis
    by (auto simp: authMiddleware_def Let_def split: if_splits)
qed

definition forwards :: "Jwt \<Rightarrow> time \<Rightarrow> string \<Rightarrow> request \<Rightarrow> (string + string) \<Rightarrow> (request \<Rightarrow> 'd outcome) \<Rightarrow> bool" where
  "forwards jwt now secret r path handler \<longleftrightarrow> (\<forall>up r'. handler r = Forward up r' \<longrightarrow>
     GetHeader ''X-Internal-Secret'' r' \<in> {GetHeader ''X-Internal-Secret'' r, []} \<and>
     (path \<in> {Inl ''/auth/login'', Inl ''/auth/register'', Inl ''/auth/refresh''} \<or> identified jwt now secret r r') \<and>
     (case up of AuthUpstream \<Rightarrow> rq_path r' = drop 5 (rq_path r) | TicketUpstream \<Rightarrow> rq_path r' = rq_path r) \<and>
     rq_method r' = rq_method r \<and> rq_body r' = rq_body r)"

lemma proxyTrim_auth:
  "5 < length (rq_path r) \<Longrightarrow> proxyTrim ''/auth'' up r = Forward up (removeHopByHopHeaders (r\<lparr>rq_path := drop 5 (rq_path r)\<rparr>))"
  by (simp add: proxyTrim_def Let_def eval_nat_numeral)

lemma forwards_trim:
  "5 < length (rq_path r) \<Longrightarrow> path \<in> {Inl ''/auth/login'', Inl ''/auth/register'', Inl ''/auth/refresh''} \<Longrightarrow>
    forwards jwt now secret r path (proxyTrim ''/auth'' AuthUpstream)"
  by (auto simp: forwards_def proxyTrim_auth)

lemma gw_auth_Forward:
  assumes "gw_auth jwt now secret proxy r = Forward up r'"
  obtains claims where "jwt_Parse jwt now (keyfunc secret) (bearer_token r) = Some \<lparr>tk_Valid = True, tk_Claims = Some claims\<rparr>"
    and "claim ''user_id'' claims \<noteq> JNull" and "claim ''role'' claims \<noteq> JNull"
    and "proxy (SetHeader ''X-User-ROLE'' (Sprint_v (claim ''role'' claims))
           (SetHeader ''X-User-ID'' (Sprint_v (claim ''user_id'' claims)) r)) = Forward up r'"
  using assms by (auto simp: gw_auth_def split: sum.splits elim!: authMiddleware_Inr)

lemma forwards_auth:
  assumes "5 < length (rq_path r)"
  shows "forwards jwt now secret r path (gw_auth jwt now secret (proxyTrim ''/auth'' AuthUpstream))"
    and "forwards jwt now secret r path (gw_auth jwt now secret (proxyTo TicketUpstream))"
  using assms by (auto simp: forwards_def proxyTrim_auth proxyTo_def identified_def elim!: gw_auth_Forward cong: if_cong split: if_splits)

lemma forwards_reply: "forwards jwt now secret r path (\<lambda>r. Reply reply)"
  by (simp add: forwards_def)

lemma gateway_routes_forward:
  assumes "(meth, path, handler) \<in> set (gateway_routes jwt now secret ok)" and "route_matches r (meth, path, handler)"
  shows "forwards jwt now secret r path handler"
proof (cases "path = Inl ''/health''")
  case True
  with assms(1) show ?thesis by (auto simp: gateway_routes_def Let_def forwards_reply)
next
  case False
  with assms have "5 < length (rq_path r)"
    by (auto simp: gateway_routes_def Let_def dest!: is_prefix_length)
  with assms(1) False show ?thesis
    by (auto simp: gateway_routes_def Let_def intro: forwards_auth forwards_trim)
qed

lemma gw_route_forward:
  fixes ok :: 'd
  assumes "gw_route jwt now secret ok r = Forward up r'"
  shows "\<exists>path (handler :: request \<Rightarrow> 'd outcome). forwards jwt now secret r path handler \<and> handler r = Forward up r' \<and>
    (\<forall>p. path = Inl p \<longrightarrow> rq_path r = p)"
proof -
  from assms obtain meth path handler where
    "List.find (route_matches r) (gateway_routes jwt now secret ok) = Some (meth, path, handler)" and h: "handler r = Forward up r'"
    by (auto simp: gw_route_def split: option.splits)
  then have "(meth, path, handler) \<in> set (gateway_routes jwt now secret ok)" "route_matches r (meth, path, handler)"
    by (auto simp: find_Some_iff in_set_conv_nth)
  moreover from this(2) have "\<forall>p. path = Inl p \<longrightarrow> rq_path r = p" by auto
  moreover have "forwards jwt now secret r path handler"
    using calculation by (intro gateway_routes_forward)
  ultimately have "forwards jwt now secret r path handler \<and> handler r = Forward up r' \<and> (\<forall>p. path = Inl p \<longrightarrow> rq_path r = p)"
    using h by simp
  then show ?thesis by blast
qed

lemma bearer_token_set [simp]: "h \<noteq> ''Authorization'' \<Longrightarrow> bearer_token (SetHeader h v r) = bearer_token r"
  by (simp add: bearer_token_def)

subsection \<open>Properties\<close>

lemma gateway_forwards:
  fixes cfg :: "'d GatewayConfig"
  assumes "gateway_handle cfg rd now gen r rl = (Forward up r', rl')"
  shows "GetHeader ''X-Internal-Secret'' r' \<in> {gw_internalSecret cfg, []} \<and>
    (rq_path r \<in> {''/auth/login'', ''/auth/register'', ''/auth/refresh''} \<or> identified (gw_jwt cfg) now (gw_jwtSecret cfg) r r') \<and>
    rq_path r' = (case up of AuthUpstream \<Rightarrow> drop 5 (rq_path r) | TicketUpstream \<Rightarrow> rq_path r) \<and>
    rq_method r' = rq_method r \<and> rq_body r' = rq_body r"
proof -
  let ?r = "internalSecretMiddleware (gw_internalSecret cfg) (requestIDMiddleware gen r)"
  have frame: "rq_path ?r = rq_path r" "rq_method ?r = rq_method r" "rq_body ?r = rq_body r" "bearer_token ?r = bearer_token r"
    "GetHeader ''X-Internal-Secret'' ?r = gw_internalSecret cfg"
    by (simp_all add: internalSecretMiddleware_def requestIDMiddleware_def Let_def)
  have "gw_route (gw_jwt cfg) now (gw_jwtSecret cfg) (gw_ok cfg) ?r = Forward up r'"
    using assms by (auto simp: gateway_handle_def Let_def split: prod.splits option.splits)
  from gw_route_forward [OF this] obtain path and handler :: "request \<Rightarrow> 'd outcome" where
    fw: "forwards (gw_jwt cfg) now (gw_jwtSecret cfg) ?r path handler" and h: "handler ?r = Forward up r'"
    and p: "\<forall>p. path = Inl p \<longrightarrow> rq_path r = p"
    unfolding frame by blast
  from fw h p show ?thesis
    unfolding forwards_def identified_def frame by (auto split: upstream.splits)
qed

text \<open>
  C11. Identity cannot be forged: of a request that the gateway forwards, the internal secret is
  the gateway's, and unless its path is one of the three public ones the user id and the role
  are those of a valid token of the request, whatever headers the client sent; the client can
  at most make the proxy drop one of these headers (by naming it in \<open>Connection\<close>), never set
  it.
\<close>
theorem gateway_identity:
  fixes cfg :: "'d GatewayConfig"
  assumes "gateway_handle cfg rd now gen r rl = (Forward up r', rl')"
  shows "GetHeader ''X-Internal-Secret'' r' \<in> {gw_internalSecret cfg, []} \<and>
    (rq_path r \<in> {''/auth/login'', ''/auth/register'', ''/auth/refresh''} \<or> identified (gw_jwt cfg) now (gw_jwtSecret cfg) r r') \<and>
    rq_path r' = (case up of AuthUpstream \<Rightarrow> drop 5 (rq_path r) | TicketUpstream \<Rightarrow> rq_path r) \<and>
    rq_method r' = rq_method r \<and> rq_body r' = rq_body r"
  by (rule gateway_forwards [OF assms])

definition demo_gateway :: "string GatewayConfig" where
  "demo_gateway = \<lparr>gw_jwt = demo_jwt ''k'' [(''A1'', \<lparr>tc_user_id = 7, tc_role = ''user'', tc_exp = 7200, tc_jti = None\<rparr>)],
     gw_jwtSecret = ''k'', gw_internalSecret = ''s'', gw_cors = (\<lambda>_. None), gw_ok = ''ok''\<rparr>"

definition demo_client :: "string \<Rightarrow> request" where
  "demo_client path = \<lparr>rq_method = ''GET'', rq_path = path,
     rq_headers = (\<lambda>k. if k = ''Authorization'' then ''Bearer A1'' else if k = ''X-User-ID'' then ''1''
                       else if k = ''X-User-ROLE'' then ''admin'' else []),
     rq_query = (\<lambda>_. []), rq_ip = ''10.0.0.1'', rq_body = None\<rparr>"

lemma demo_forward:
  "\<exists>r' rl'. gateway_handle demo_gateway False 0 ''id'' (demo_client ''/tickets'') (InMemory (NewRateLimiter 1 5)) = (Forward TicketUpstream r', rl')"
  by (simp add: gateway_handle_def internalSecretMiddleware_def requestIDMiddleware_def Let_def RateLimitMiddleware_def
      RateLimiter_allow_def NewRateLimiter_def demo_gateway_def gw_route_def gateway_routes_def demo_client_def anyMethods_def
      gw_auth_def authMiddleware_def proxyTo_def bearer_token_def demo_jwt_def keyfunc_def SigningMethodHMAC_def GetHeader_def
      SetHeader_def fmtG_small)

theorem gateway_identity_witness:
  "\<exists>r' rl'. gateway_handle demo_gateway False 0 ''id'' (demo_client ''/tickets'') (InMemory (NewRateLimiter 1 5)) = (Forward TicketUpstream r', rl') \<and>
     identified (gw_jwt demo_gateway) 0 ''k'' (demo_client ''/tickets'') r'"
proof -
  from demo_forward obtain r' rl' where
    f: "gateway_handle demo_gateway False 0 ''id'' (demo_client ''/tickets'') (InMemory (NewRateLimiter 1 5)) = (Forward TicketUpstream r', rl')"
    by blast
  from gateway_identity [OF f] have "identified (gw_jwt demo_gateway) 0 ''k'' (demo_client ''/tickets'') r'"
    by (simp add: demo_client_def demo_gateway_def)
  with f show ?thesis by blast
qed

lemma authMiddleware_signed:
  assumes "jwt_ok jwt" and "jwt_Sign jwt secret c = Some tok" and "tc_user_id c \<le> 2 ^ 53" and "tc_role c \<noteq> []"
    and "now < tc_exp c * second" and "GetHeader ''Authorization'' r = ''Bearer '' @ tok" and "tok \<noteq> []"
  shows "(authMiddleware jwt now secret r :: 'd response + request) =
    Inr (SetHeader ''X-User-ROLE'' (tc_role c) (SetHeader ''X-User-ID'' (fmtG (f64_of_nat (tc_user_id c))) r))"
proof -
  have tok: "bearer_token r = tok" using assms(6,7) by (simp add: bearer_token_def)
  have "fmtG (f64_of_nat (tc_user_id c)) \<noteq> []"
  proof (cases "tc_user_id c < 10 ^ 6")
    case False
    then have "Sscanf_uint (fmtG (f64_of_nat (tc_user_id c))) \<noteq> None" by (simp add: Sscanf_fmtG_large not_less)
    moreover have "Sscanf_uint [] = None" by code_simp
    ultimately show ?thesis by metis
  qed (simp add: fmtG_small)
  then show ?thesis
    using assms(4,6) jwt_okD [OF assms(1,2,3,5)] tok by (simp add: authMiddleware_def)
qed

text \<open>
  C12. How an identifier travels: for a valid token of user \<open>n\<close> the gateway writes \<open>n\<close> into
  \<open>X-User-ID\<close> in decimal only while \<open>n\<close> is below one million, and then both ways in which the
  services read the header give \<open>n\<close> back. From one million on the claim, a float64, is printed
  with an exponent: \<open>ParseUint\<close> (auth-service) rejects it, and \<open>Sscanf("%d")\<close> (ticket-service)
  takes its first digit for the identifier.
\<close>
theorem gateway_user_id:
  assumes "jwt_ok jwt" and "jwt_Sign jwt secret c = Some tok" and "tc_user_id c \<le> 2 ^ 53" and "tc_role c \<noteq> []"
    and "now < tc_exp c * second" and "GetHeader ''Authorization'' r = ''Bearer '' @ tok" and "tok \<noteq> []"
  shows "\<exists>r'. (authMiddleware jwt now secret r :: 'd response + request) = Inr r' \<and> GetHeader ''X-User-ROLE'' r' = tc_role c \<and>
    (let n = tc_user_id c; h = GetHeader ''X-User-ID'' r' in
     if n < 10 ^ 6 then h = show_nat n \<and> ParseUint h = Some n \<and> Sscanf_uint h = Some n
     else ParseUint h = None \<and> Sscanf_uint h = Some (hd (digits n)))"
proof -
  have "tc_user_id c < 2 ^ 64" using assms(3) by simp
  then show ?thesis
    unfolding authMiddleware_signed [OF assms]
    by (auto simp: Let_def fmtG_small ParseUint_fmtG_large Sscanf_fmtG_large not_less)
qed

theorem gateway_user_id_witness:
  "\<exists>r'. (authMiddleware (demo_jwt ''k'' [(''A'', \<lparr>tc_user_id = 7000000, tc_role = ''user'', tc_exp = 7200, tc_jti = None\<rparr>)]) 0 ''k''
      \<lparr>rq_method = ''GET'', rq_path = ''/tickets'', rq_headers = (\<lambda>_. ''Bearer A''), rq_query = (\<lambda>_. []), rq_ip = [], rq_body = None\<rparr>
      :: string response + request) = Inr r' \<and> ParseUint (GetHeader ''X-User-ID'' r') = None"
proof -
  let ?c = "\<lparr>tc_user_id = 7000000, tc_role = ''user'', tc_exp = 7200, tc_jti = None\<rparr>"
  let ?jwt = "demo_jwt ''k'' [(''A'', ?c)]"
  let ?r = "\<lparr>rq_method = ''GET'', rq_path = ''/tickets'', rq_headers = (\<lambda>_. ''Bearer A''), rq_query = (\<lambda>_. []), rq_ip = [], rq_body = None\<rparr>"
  have "jwt_ok ?jwt" by (rule demo_jwt_ok) simp
  moreover have "jwt_Sign ?jwt ''k'' ?c = Some ''A''" by (simp add: demo_jwt_def)
  ultimately show ?thesis
    using gateway_user_id [of ?jwt "''k''" ?c "''A''" 0 ?r] by (auto simp: GetHeader_def Let_def)
qed

text \<open>
  What a call of an upstream reports to the breaker and to the client: a call the breaker
  refuses is answered 503 without reaching the upstream; otherwise a reply counts as a success
  and is passed on, and an error of the transport is answered 502 and counts as a failure
  unless the client has gone, when it counts as neither. So however many requests are
  abandoned, a breaker for which excluded results change nothing stays as it was.
\<close>
theorem breaker_accounting:
  assumes "\<forall>m. e \<noteq> ErrOpenState \<and> e \<noteq> ErrTooManyRequests \<and> e \<noteq> ClientGone m"
  shows "(\<forall>res ctx_done. \<forall>why\<in>{ErrOpenState, ErrTooManyRequests}. br_before br b = (Some why, b') \<longrightarrow>
       upstream_call br ctx_done res b = (Error 503 ''upstream service temporarily unavailable'' ''CIRCUIT_OPEN'', b')) \<and>
    (br_before br b = (None, b') \<longrightarrow>
       (\<forall>resp ctx_done. upstream_call br ctx_done (Inr resp) b = (resp, br_after br Succeeded b')) \<and>
       upstream_call br False (Inl e) b = (Error 502 ''upstream service unavailable'' ''BAD_GATEWAY'', br_after br Failed b') \<and>
       upstream_call br True (Inl e) b = (Error 502 ''upstream service unavailable'' ''BAD_GATEWAY'', br_after br Excluded b')) \<and>
    (br_before br b = (None, b) \<and> br_after br Excluded b = b \<longrightarrow>
       (\<forall>n. run_steps (\<lambda>_. upstream_call br True (Inl e)) (replicate n ()) b = b))"
proof -
  have excluded: "br_before br b = (None, b') \<Longrightarrow>
      upstream_call br True (Inl e) b = (Error 502 ''upstream service unavailable'' ''BAD_GATEWAY'', br_after br Excluded b')" for b'
    using assms by (cases e) (simp_all add: upstream_call_def RoundTrip_def Execute_def proxyErrorHandler_def)
  have "br_before br b = (None, b) \<and> br_after br Excluded b = b \<Longrightarrow>
      run_steps (\<lambda>_. upstream_call br True (Inl e)) (replicate n ()) b = b" for n
    by (induction n) (simp_all add: excluded)
  moreover have "br_before br b = (None, b') \<Longrightarrow>
      upstream_call br False (Inl e) b = (Error 502 ''upstream service unavailable'' ''BAD_GATEWAY'', br_after br Failed b')"
    using assms by (cases e) (simp_all add: upstream_call_def RoundTrip_def Execute_def proxyErrorHandler_def)
  ultimately show ?thesis
    using excluded by (auto simp: upstream_call_def RoundTrip_def Execute_def proxyErrorHandler_def)
qed

text \<open>A breaker that opens after five failures in a row, as in gobreaker's default.\<close>

definition demo_breaker :: "nat CircuitBreaker" where
  "demo_breaker = \<lparr>br_before = (\<lambda>n. (if n > 5 then Some ErrOpenState else None, n)),
     br_after = (\<lambda>res n. case res of Succeeded \<Rightarrow> 0 | Failed \<Rightarrow> n + 1 | Excluded \<Rightarrow> n)\<rparr>"

theorem breaker_accounting_witness:
  "run_steps (\<lambda>_. upstream_call demo_breaker True (Inl (TransportError ''canceled'') :: transport_err + string response)) (replicate 100 ()) 3 = 3"
proof -
  have e: "\<forall>m. TransportError ''canceled'' \<noteq> ErrOpenState \<and> TransportError ''canceled'' \<noteq> ErrTooManyRequests \<and> TransportError ''canceled'' \<noteq> ClientGone m"
    by simp
  have "br_before demo_breaker 3 = (None, 3) \<and> br_after demo_breaker Excluded 3 = 3"
    by (simp add: demo_breaker_def)
  with breaker_accounting [OF e, of demo_breaker 3 3] show ?thesis by blast
qed

end
