(* ===== verification/Db.thy ===== *)
theory Db
  imports Prelude "HOL-Library.Product_Lexorder"
begin

section \<open>Tables, statements that fail, transactions\<close>

text \<open>
  A PostgreSQL table with a BIGSERIAL key: its rows in insertion order and the next key. The
  repositories of the services are translated on top of it: each SQL statement they send
  becomes the corresponding operation on the rows. Whether the k-th statement of an
  operation fails (connection lost, timeout) is decided by the environment, a function
  \<open>faults\<close>; a failed statement returns \<open>ErrDatabase\<close> and changes nothing. A transaction
  (\<open>db.Transaction\<close>) keeps the rows of the state it started from when its body or its
  COMMIT fails; the sequence is not rolled back, as in PostgreSQL.
\<close>

type_synonym faults = "nat \<Rightarrow> bool"

record 'r table =
  rows :: "'r list"
  seq :: uint

definition empty_table :: "'r table" where
  "empty_table = \<lparr>rows = [], seq = 1\<rparr>"

text \<open>INSERT: the row is built from the key the sequence hands out.\<close>

definition insert_row :: "(uint \<Rightarrow> 'r) \<Rightarrow> 'r table \<Rightarrow> 'r table" where
  "insert_row mk t = t\<lparr>rows := rows t @ [mk (seq t)], seq := Suc (seq t)\<rparr>"

text \<open>DELETE WHERE, UPDATE WHERE and the number of rows affected.\<close>

definition delete_where :: "('r \<Rightarrow> bool) \<Rightarrow> 'r table \<Rightarrow> 'r table" where
  "delete_where P t = t\<lparr>rows := filter (\<lambda>r. \<not> P r) (rows t)\<rparr>"

definition update_where :: "('r \<Rightarrow> bool) \<Rightarrow> ('r \<Rightarrow> 'r) \<Rightarrow> 'r table \<Rightarrow> 'r table" where
  "update_where P f t = t\<lparr>rows := map (\<lambda>r. if P r then f r else r) (rows t)\<rparr>"

definition affected :: "('r \<Rightarrow> bool) \<Rightarrow> 'r table \<Rightarrow> nat" where
  "affected P t = length (filter P (rows t))"

text \<open>SELECT with ORDER BY a key, LIMIT and OFFSET; GORM drops an offset that is not positive.\<close>

definition select_page :: "('r \<Rightarrow> bool) \<Rightarrow> ('r \<Rightarrow> 'k::linorder) \<Rightarrow> int \<Rightarrow> int \<Rightarrow> 'r table \<Rightarrow> 'r list" where
  "select_page P key limit offset t =
     take (nat limit) (drop (nat offset) (sort_key key (filter P (rows t))))"

text \<open>Back to the rows of \<open>old\<close>, with the sequence where \<open>new\<close> left it.\<close>

definition rollback_rows :: "'r table \<Rightarrow> 'r table \<Rightarrow> 'r table" where
  "rollback_rows old new = old\<lparr>seq := seq new\<rparr>"

fun in_transaction :: "bool \<Rightarrow> ('s \<Rightarrow> 's \<Rightarrow> 's) \<Rightarrow> ('s \<Rightarrow> ('s, 'a) result) \<Rightarrow> 's \<Rightarrow> ('s, 'a) result" where
  "in_transaction commit_fails rb body s =
     (case body s of
        (Inl e, s') \<Rightarrow> (Inl e, rb s s')
      | (Inr x, s') \<Rightarrow> if commit_fails then (Inl ErrDatabase, rb s s') else (Inr x, s'))"

declare in_transaction.simps [simp del]

definition exec_stmt :: "bool \<Rightarrow> ('s \<Rightarrow> ('s, 'a) result) \<Rightarrow> 's \<Rightarrow> ('s, 'a) result" where
  "exec_stmt fails f s = (if fails then (Inl ErrDatabase, s) else f s)"

lemma rows_insert_row [simp]: "rows (insert_row mk t) = rows t @ [mk (seq t)]"
  and seq_insert_row [simp]: "seq (insert_row mk t) = Suc (seq t)"
  and rows_delete_where [simp]: "rows (delete_where P t) = filter (\<lambda>r. \<not> P r) (rows t)"
  and seq_delete_where [simp]: "seq (delete_where P t) = seq t"
  and rows_update_where [simp]: "rows (update_where P f t) = map (\<lambda>r. if P r then f r else r) (rows t)"
  and seq_update_where [simp]: "seq (update_where P f t) = seq t"
  and rows_rollback [simp]: "rows (rollback_rows old new) = rows old"
  and seq_rollback [simp]: "seq (rollback_rows old new) = seq new"
  and rows_empty_table [simp]: "rows empty_table = []"
  and seq_empty_table [simp]: "seq empty_table = 1"
  by (simp_all add: insert_row_def delete_where_def update_where_def rollback_rows_def empty_table_def)

text \<open>
  The invariant of every table: keys are distinct and below the sequence. It is stated over
  the key column, and every statement keeps it.
\<close>

definition keys_ok :: "('r \<Rightarrow> uint) \<Rightarrow> 'r table \<Rightarrow> bool" where
  "keys_ok key t \<longleftrightarrow> distinct (map key (rows t)) \<and> (\<forall>r\<in>set (rows t). key r < seq t)"

lemma keys_ok_empty [inv_rules]: "keys_ok key empty_table"
  by (simp add: keys_ok_def)

lemma keys_ok_insert [inv_rules]: "keys_ok key t \<Longrightarrow> key (mk (seq t)) = seq t \<Longrightarrow> keys_ok key (insert_row mk t)"
  by (auto simp: keys_ok_def)

lemma keys_ok_delete [inv_rules]: "keys_ok key t \<Longrightarrow> keys_ok key (delete_where P t)"
  by (auto simp: keys_ok_def distinct_map_filter)

lemma keys_ok_update [inv_rules]:
  assumes "keys_ok key t" and "\<And>r. r \<in> set (rows t) \<Longrightarrow> key (f r) = key r"
  shows "keys_ok key (update_where P f t)"
proof -
  have "map key (rows (update_where P f t)) = map key (rows t)"
    using assms(2) by auto
  with assms show ?thesis by (auto simp: keys_ok_def simp del: map_map)
qed

lemma keys_ok_rollback [inv_rules]: "keys_ok key old \<Longrightarrow> seq old \<le> seq new \<Longrightarrow> keys_ok key (rollback_rows old new)"
  by (force simp: keys_ok_def)

lemma keys_okD: "keys_ok key t \<Longrightarrow> r \<in> set (rows t) \<Longrightarrow> r' \<in> set (rows t) \<Longrightarrow> key r = key r' \<Longrightarrow> r = r'"
  by (auto simp: keys_ok_def distinct_map inj_on_def)

lemma find_by_key:
  "keys_ok key t \<Longrightarrow> r \<in> set (rows t) \<Longrightarrow> List.find (\<lambda>x. key x = key r) (rows t) = Some r"
  by (simp add: keys_ok_def find_distinct_key)

lemma find_SomeD: "List.find P xs = Some x \<Longrightarrow> x \<in> set xs \<and> P x"
  by (induction xs) (auto split: if_splits)

text \<open>A transaction that reports an error leaves the rows as they were: atomicity.\<close>

lemma in_transaction_Inl:
  "in_transaction c rb body s = (Inl e, t) \<Longrightarrow> \<exists>s'. t = rb s s' \<and> snd (body s) = s'"
  by (auto simp: in_transaction.simps split: prod.splits sum.splits if_splits)

lemma in_transaction_Inr:
  "in_transaction c rb body s = (Inr x, t) \<longleftrightarrow> body s = (Inr x, t) \<and> \<not> c"
  by (auto simp: in_transaction.simps split: prod.splits sum.splits if_splits)

lemma exec_stmt_Inr: "exec_stmt b f s = (Inr x, t) \<longleftrightarrow> \<not> b \<and> f s = (Inr x, t)"
  by (simp add: exec_stmt_def)

lemma set_select_page: "r \<in> set (select_page P key l off t) \<Longrightarrow> r \<in> set (rows t) \<and> P r"
  by (auto simp: select_page_def dest!: in_set_takeD in_set_dropD)

lemma length_select_page: "length (select_page P key l off t) \<le> nat l"
  by (simp add: select_page_def)

text \<open>Pages by descending key: strictly sorted, and one after the other they list everything.\<close>

lemma sorted_desc_strict:
  "sorted_wrt (\<lambda>r s. - int (key r) \<le> - int (key s)) xs \<Longrightarrow> distinct (map key xs) \<Longrightarrow> sorted_wrt (\<lambda>r s. key s < key r) xs"
  by (induction xs) (force simp: image_iff less_le)+

lemma select_page_desc:
  assumes "keys_ok key t"
  shows "sorted_wrt (\<lambda>r s. key s < key r) (select_page P (\<lambda>r. - int (key r)) l off t)"
proof -
  let ?s = "sort_key (\<lambda>r. - int (key r)) (filter P (rows t))"
  have d: "distinct (map key ?s)"
  proof -
    have "distinct (map key (filter P (rows t)))" using assms by (simp add: keys_ok_def distinct_map_filter)
    then show ?thesis by (auto simp: distinct_map)
  qed
  have "sorted_wrt (\<lambda>r s. - int (key r) \<le> - int (key s)) ?s"
    using sorted_sort_key [of "\<lambda>r. - int (key r)" "filter P (rows t)"] by (simp add: sorted_map)
  then have "sorted_wrt (\<lambda>r s. key s < key r) ?s"
    using d by (rule sorted_desc_strict)
  then show ?thesis by (simp add: select_page_def sorted_wrt_take sorted_wrt_drop)
qed

lemma pages_partition:
  "concat (map (\<lambda>k. select_page P key (int l) (int k * int l) t) [0..<n]) = take (n * l) (sort_key key (filter P (rows t)))"
proof (induction n)
  case (Suc n)
  have "nat (int n * int l) = n * l" by (simp flip: of_nat_mult)
  moreover have "take (Suc n * l) xs = take (n * l) xs @ take l (drop (n * l) xs)" for xs :: "'a list"
    using take_add [of "n * l" l xs] by (simp add: add.commute)
  ultimately show ?case using Suc by (simp add: select_page_def del: mult_Suc)
qed simp

end
