(* ===== verification/Users.thy ===== *)
theory Users
  imports Db
begin

section \<open>Accounts (auth-service, internal/repository and internal/usecase)\<close>

text \<open>
  The table \<open>users\<close>, the repository over it, and the use cases of \<open>AuthUsecase\<close> with the
  start-up step \<open>bootstrapAdmin\<close>. As in the source the use cases are written against the
  interface \<open>domain.UserRepository\<close>, here a record of its operations; locale
  \<open>user_repository\<close> states what the use cases need of it and proves their lemmas, and
  \<open>userRepository\<close>, the model of the GORM repository, is its interpretation. bcrypt is a
  parameter, with the random salt of a call as an argument. \<open>ft k\<close> says which statements of
  the k-th repository call fail.
\<close>

record User =
  us_ID :: uint
  us_Name :: string
  us_Email :: string
  us_Password :: string
  us_Department :: string
  us_Availability :: string
  us_Role :: string

type_synonym users = "User table"

record 'd UserRepository =
  ur_Create :: "faults \<Rightarrow> User \<Rightarrow> 'd \<Rightarrow> ('d, unit) result"
  ur_Update :: "faults \<Rightarrow> User \<Rightarrow> 'd \<Rightarrow> ('d, unit) result"
  ur_FindByEmail :: "faults \<Rightarrow> string \<Rightarrow> 'd \<Rightarrow> err + User"
  ur_FindByID :: "faults \<Rightarrow> uint \<Rightarrow> 'd \<Rightarrow> err + User"
  ur_FindByRole :: "faults \<Rightarrow> string \<Rightarrow> 'd \<Rightarrow> err + User list"

subsection \<open>The repository\<close>

text \<open>
  \<open>db.Create\<close>: the key comes from the sequence, an empty availability from the column's
  default; the column \<open>email\<close> is UNIQUE.
\<close>

definition Users_Create :: "faults \<Rightarrow> User \<Rightarrow> users \<Rightarrow> (users, unit) result" where
  "Users_Create ft user =
     exec_stmt (ft 0) (\<lambda>db.
       if \<exists>r\<in>set (rows db). us_Email r = us_Email user then (Inl ErrDuplicatedKey, db\<lparr>seq := Suc (seq db)\<rparr>)
       else (Inr (), insert_row (\<lambda>id. user\<lparr>us_ID := id,
               us_Availability := if us_Availability user = [] then ''offline'' else us_Availability user\<rparr>) db))"

text \<open>
  \<open>db.Save\<close>: UPDATE of every column of the row with that key; when no row has it, INSERT with
  the key (ON CONFLICT UPDATE, but there is no such row).
\<close>

definition Users_Update :: "faults \<Rightarrow> User \<Rightarrow> users \<Rightarrow> (users, unit) result" where
  "Users_Update ft user =
     exec_stmt (ft 0) (\<lambda>db.
       if us_ID user = 0 then Users_Create (\<lambda>_. False) user db
       else if \<exists>r\<in>set (rows db). us_ID r \<noteq> us_ID user \<and> us_Email r = us_Email user then (Inl ErrDuplicatedKey, db)
       else if affected (\<lambda>r. us_ID r = us_ID user) db = 0
       then exec_stmt (ft 1) (\<lambda>db. (Inr (), db\<lparr>rows := rows db @ [user]\<rparr>)) db
       else (Inr (), update_where (\<lambda>r. us_ID r = us_ID user) (\<lambda>_. user) db))"

definition find_row :: "bool \<Rightarrow> (User \<Rightarrow> bool) \<Rightarrow> users \<Rightarrow> err + User" where
  "find_row fails P db =
     (if fails then Inl ErrDatabase
      else case sort_key us_ID (filter P (rows db)) of [] \<Rightarrow> Inl ErrRecordNotFound | r # _ \<Rightarrow> Inr r)"

definition Users_FindByEmail :: "faults \<Rightarrow> string \<Rightarrow> users \<Rightarrow> err + User" where
  "Users_FindByEmail ft email = find_row (ft 0) (\<lambda>r. us_Email r = email)"

definition Users_FindByID :: "faults \<Rightarrow> uint \<Rightarrow> users \<Rightarrow> err + User" where
  "Users_FindByID ft userID = find_row (ft 0) (\<lambda>r. us_ID r = userID)"

definition Users_FindByRole :: "faults \<Rightarrow> string \<Rightarrow> users \<Rightarrow> err + User list" where
  "Users_FindByRole ft role db =
     (if ft 0 then Inl ErrDatabase else Inr (sort_key us_ID (filter (\<lambda>r. us_Role r = role) (rows db))))"

definition userRepository :: "users UserRepository" where
  "userRepository = \<lparr>ur_Create = Users_Create, ur_Update = Users_Update, ur_FindByEmail = Users_FindByEmail,
     ur_FindByID = Users_FindByID, ur_FindByRole = Users_FindByRole\<rparr>"

subsection \<open>The use cases\<close>

text \<open>\<open>bc_Hash\<close> is \<open>GenerateFromPassword\<close>, \<open>None\<close> its error; \<open>bc_Compare\<close> is \<open>CompareHashAndPassword\<close>.\<close>

record Bcrypt =
  bc_Hash :: "nat \<Rightarrow> string \<Rightarrow> string option"
  bc_Compare :: "string \<Rightarrow> string \<Rightarrow> bool"

definition validAvailability :: "string list" where
  "validAvailability = [''available'', ''busy'', ''offline'']"

definition AuthUsecase_Register ::
  "Bcrypt \<Rightarrow> 'd UserRepository \<Rightarrow> nat \<Rightarrow> (nat \<Rightarrow> faults) \<Rightarrow> string \<Rightarrow> string \<Rightarrow> string \<Rightarrow> string \<Rightarrow> string \<Rightarrow>
    'd \<Rightarrow> ('d, unit) result" where
  "AuthUsecase_Register bc repo salt ft name email password department role d =
     (case ur_FindByEmail repo (ft 0) email d of
        Inr existing \<Rightarrow> (Inl ErrEmailTaken, d)
      | Inl _ \<Rightarrow>
          (case bc_Hash bc salt password of
             None \<Rightarrow> (Inl ErrHash, d)
           | Some hashed \<Rightarrow>
               ur_Create repo (ft 1) \<lparr>us_ID = 0, us_Name = name, us_Email = email, us_Password = hashed,
                 us_Department = department, us_Availability = [], us_Role = role\<rparr> d))"

definition AuthUsecase_Login ::
  "Bcrypt \<Rightarrow> 'd UserRepository \<Rightarrow> (nat \<Rightarrow> faults) \<Rightarrow> string \<Rightarrow> string \<Rightarrow> 'd \<Rightarrow> err + User" where
  "AuthUsecase_Login bc repo ft email password d =
     (case ur_FindByEmail repo (ft 0) email d of
        Inl e \<Rightarrow> Inl e
      | Inr user \<Rightarrow> if bc_Compare bc (us_Password user) password then Inr user else Inl ErrHash)"

definition AuthUsecase_GetByID :: "'d UserRepository \<Rightarrow> (nat \<Rightarrow> faults) \<Rightarrow> uint \<Rightarrow> 'd \<Rightarrow> err + User" where
  "AuthUsecase_GetByID repo ft userID d = ur_FindByID repo (ft 0) userID d"

definition AuthUsecase_ListByRole :: "'d UserRepository \<Rightarrow> (nat \<Rightarrow> faults) \<Rightarrow> string \<Rightarrow> 'd \<Rightarrow> err + User list" where
  "AuthUsecase_ListByRole repo ft role d = ur_FindByRole repo (ft 0) role d"

definition AuthUsecase_ChangePassword ::
  "Bcrypt \<Rightarrow> 'd UserRepository \<Rightarrow> nat \<Rightarrow> (nat \<Rightarrow> faults) \<Rightarrow> uint \<Rightarrow> string \<Rightarrow> string \<Rightarrow> 'd \<Rightarrow> ('d, unit) result" where
  "AuthUsecase_ChangePassword bc repo salt ft userID oldPassword newPassword d =
     (case ur_FindByID repo (ft 0) userID d of
        Inl e \<Rightarrow> (Inl e, d)
      | Inr user \<Rightarrow>
          if \<not> bc_Compare bc (us_Password user) oldPassword then (Inl ErrWrongPassword, d)
          else case bc_Hash bc salt newPassword of
                 None \<Rightarrow> (Inl ErrHash, d)
               | Some hashed \<Rightarrow> ur_Update repo (ft 1) (user\<lparr>us_Password := hashed\<rparr>) d)"

definition AuthUsecase_UpdateProfile ::
  "'d UserRepository \<Rightarrow> (nat \<Rightarrow> faults) \<Rightarrow> uint \<Rightarrow> string \<Rightarrow> string \<Rightarrow> 'd \<Rightarrow> ('d, User) result" where
  "AuthUsecase_UpdateProfile repo ft userID name department d =
     (case ur_FindByID repo (ft 0) userID d of
        Inl e \<Rightarrow> (Inl e, d)
      | Inr user \<Rightarrow>
          let user' = user\<lparr>us_Name := name, us_Department := department\<rparr>
          in and_then (ur_Update repo (ft 1) user' d) (\<lambda>_ d. (Inr user', d)))"

definition AuthUsecase_UpdateAvailability ::
  "'d UserRepository \<Rightarrow> (nat \<Rightarrow> faults) \<Rightarrow> uint \<Rightarrow> string \<Rightarrow> 'd \<Rightarrow> ('d, User) result" where
  "AuthUsecase_UpdateAvailability repo ft userID availability d =
     (if availability \<notin> set validAvailability then (Inl ErrInvalidAvailability, d)
      else case ur_FindByID repo (ft 0) userID d of
             Inl e \<Rightarrow> (Inl e, d)
           | Inr user \<Rightarrow>
               let user' = user\<lparr>us_Availability := availability\<rparr>
               in and_then (ur_Update repo (ft 1) user' d) (\<lambda>_ d. (Inr user', d)))"

definition bootstrapAdmin ::
  "Bcrypt \<Rightarrow> 'd UserRepository \<Rightarrow> nat \<Rightarrow> (nat \<Rightarrow> faults) \<Rightarrow> string \<Rightarrow> string \<Rightarrow> 'd \<Rightarrow> ('d, unit) result" where
  "bootstrapAdmin bc repo salt ft email password d =
     (if email = [] \<or> password = [] then (Inr (), d)
      else case ur_FindByRole repo (ft 0) ''admin'' d of
             Inl e \<Rightarrow> (Inl e, d)
           | Inr admins \<Rightarrow>
               if admins \<noteq> [] then (Inr (), d)
               else case bc_Hash bc salt password of
                      None \<Rightarrow> (Inl ErrHash, d)
                    | Some hashed \<Rightarrow>
                        ur_Create repo (ft 1) \<lparr>us_ID = 0, us_Name = ''Admin'', us_Email = email, us_Password = hashed,
                          us_Department = [], us_Availability = [], us_Role = ''admin''\<rparr> d)"

subsection \<open>What the use cases need of the repository\<close>

definition stored_user :: "uint \<Rightarrow> User \<Rightarrow> User" where
  "stored_user i u = u\<lparr>us_ID := i, us_Availability := if us_Availability u = [] then ''offline'' else us_Availability u\<rparr>"

lemma stored_user_simps [simp]:
  "us_ID (stored_user i u) = i" "us_Email (stored_user i u) = us_Email u" "us_Password (stored_user i u) = us_Password u"
  "us_Role (stored_user i u) = us_Role u" "us_Name (stored_user i u) = us_Name u"
  "us_Department (stored_user i u) = us_Department u"
  by (simp_all add: stored_user_def)

locale user_repository =
  fixes repo :: "'d UserRepository"
    and lookup :: "'d \<Rightarrow> uint \<Rightarrow> User option"
    and ok :: "'d \<Rightarrow> bool"
  assumes create_Inr: "ok d \<Longrightarrow> ur_Create repo ft u d = (Inr (), d') \<Longrightarrow>
      \<exists>i. lookup d i = None \<and> lookup d' = (lookup d)(i \<mapsto> stored_user i u)"
    and create_fresh_email: "ok d \<Longrightarrow> ur_Create repo ft u d = (Inr (), d') \<Longrightarrow> lookup d i = Some v \<Longrightarrow> us_Email v \<noteq> us_Email u"
    and create_Inl: "ur_Create repo ft u d = (Inl e, d') \<Longrightarrow> lookup d' = lookup d"
    and create_ok: "ok d \<Longrightarrow> ok (snd (ur_Create repo ft u d))"
    and update_Inr: "ok d \<Longrightarrow> lookup d (us_ID u) = Some v \<Longrightarrow> ur_Update repo ft u d = (Inr (), d') \<Longrightarrow>
      lookup d' = (lookup d)(us_ID u \<mapsto> u)"
    and update_Inl: "ok d \<Longrightarrow> lookup d (us_ID u) = Some v \<Longrightarrow> ur_Update repo ft u d = (Inl e, d') \<Longrightarrow> lookup d' = lookup d"
    and update_ok: "ok d \<Longrightarrow> lookup d (us_ID u) = Some v \<Longrightarrow> ok (snd (ur_Update repo ft u d))"
    and find_id_Inr: "ok d \<Longrightarrow> ur_FindByID repo ft i d = Inr u \<Longrightarrow> lookup d i = Some u"
    and find_id_complete: "ok d \<Longrightarrow> lookup d i = Some u \<Longrightarrow> \<not> ft 0 \<Longrightarrow> ur_FindByID repo ft i d = Inr u"
    and find_email_Inr: "ok d \<Longrightarrow> ur_FindByEmail repo ft em d = Inr u \<Longrightarrow> lookup d (us_ID u) = Some u \<and> us_Email u = em"
    and find_email_complete: "ok d \<Longrightarrow> lookup d i = Some u \<Longrightarrow> \<not> ft 0 \<Longrightarrow> ur_FindByEmail repo ft (us_Email u) d = Inr u"
    and find_role_Inr: "ok d \<Longrightarrow> ur_FindByRole repo ft role d = Inr us \<Longrightarrow> set us = {u. lookup d (us_ID u) = Some u \<and> us_Role u = role}"
    and lookup_id: "ok d \<Longrightarrow> lookup d i = Some u \<Longrightarrow> us_ID u = i"
begin

text \<open>The accounts after a use case: one new account, or one field of the caller's own.\<close>

lemma register_Inr:
  assumes "ok d" and "AuthUsecase_Register bc repo salt ft name email password department role d = (Inr (), d')"
  obtains i u hashed where "lookup d i = None" and "lookup d' = (lookup d)(i \<mapsto> u)" and "us_ID u = i"
    and "us_Name u = name" and "us_Email u = email" and "us_Role u = role" and "us_Availability u = ''offline''"
    and "us_Department u = department" and "\<forall>j v. lookup d j = Some v \<longrightarrow> us_Email v \<noteq> email" and "bc_Hash bc salt password = Some hashed" and "us_Password u = hashed"
proof -
  from assms(2) obtain hashed where h: "bc_Hash bc salt password = Some hashed"
    and c: "ur_Create repo (ft 1) \<lparr>us_ID = 0, us_Name = name, us_Email = email, us_Password = hashed,
      us_Department = department, us_Availability = [], us_Role = role\<rparr> d = (Inr (), d')"
    by (auto simp: AuthUsecase_Register_def split: sum.splits option.splits)
  have fresh: "\<forall>j v. lookup d j = Some v \<longrightarrow> us_Email v \<noteq> email"
    using create_fresh_email [OF assms(1) c] by auto
  from create_Inr [OF assms(1) c] show ?thesis
    by (auto intro!: that h fresh simp: stored_user_def)
qed

lemma register_Inl: "AuthUsecase_Register bc repo salt ft name email password department role d = (Inl e, d') \<Longrightarrow> lookup d' = lookup d"
  by (auto simp: AuthUsecase_Register_def dest: create_Inl split: sum.splits option.splits)

lemma register_ok: "ok d \<Longrightarrow> ok (snd (AuthUsecase_Register bc repo salt ft name email password department role d))"
  by (auto simp: AuthUsecase_Register_def create_ok split: sum.splits option.splits)

lemma login_Inr:
  "ok d \<Longrightarrow> AuthUsecase_Login bc repo ft email password d = Inr u \<Longrightarrow>
    lookup d (us_ID u) = Some u \<and> us_Email u = email \<and> bc_Compare bc (us_Password u) password"
  by (auto simp: AuthUsecase_Login_def dest: find_email_Inr split: sum.splits if_splits)

lemma login_eq:
  "ok d \<Longrightarrow> lookup d i = Some u \<Longrightarrow> \<not> ft 0 0 \<Longrightarrow>
    AuthUsecase_Login bc repo ft (us_Email u) password d = (if bc_Compare bc (us_Password u) password then Inr u else Inl ErrHash)"
  by (simp add: AuthUsecase_Login_def find_email_complete)

lemma change_password_Inr:
  assumes "ok d" and "AuthUsecase_ChangePassword bc repo salt ft i old new d = (Inr (), d')"
  obtains u hashed where "lookup d i = Some u" and "bc_Compare bc (us_Password u) old" and "bc_Hash bc salt new = Some hashed"
    and "lookup d' = (lookup d)(i \<mapsto> u\<lparr>us_Password := hashed\<rparr>)"
proof -
  from assms(2) obtain u hashed where u: "ur_FindByID repo (ft 0) i d = Inr u" "bc_Compare bc (us_Password u) old"
      "bc_Hash bc salt new = Some hashed" "ur_Update repo (ft 1) (u\<lparr>us_Password := hashed\<rparr>) d = (Inr (), d')"
    by (auto simp: AuthUsecase_ChangePassword_def split: sum.splits option.splits if_splits)
  have l: "lookup d i = Some u" "us_ID u = i" using find_id_Inr lookup_id assms(1) u(1) by blast+
  show ?thesis
    using u l update_Inr [OF assms(1) _ u(4), of u] by (intro that [of u hashed]) auto
qed

lemma update_same_role:
  assumes "ok d" and "lookup d (us_ID u) = Some v" and "us_Role u = us_Role v"
  shows "map_option us_Role (lookup (snd (ur_Update repo ft u d)) j) = map_option us_Role (lookup d j)"
proof (cases "ur_Update repo ft u d")
  case (Pair z d')
  with assms show ?thesis
    by (cases z) (auto dest: update_Inr update_Inl)
qed

lemma found: "ok d \<Longrightarrow> ur_FindByID repo ft i d = Inr u \<Longrightarrow> lookup d i = Some u \<and> us_ID u = i"
  using find_id_Inr lookup_id by blast

lemma snd_and_then: "snd (and_then r (\<lambda>_ d. (Inr x, d))) = snd r"
  by (cases r; cases "fst r") auto

lemma roles_kept:
  assumes "ok d"
  shows "map_option us_Role (lookup (snd (AuthUsecase_ChangePassword bc repo salt ft i old new d)) j) = map_option us_Role (lookup d j)"
    and "map_option us_Role (lookup (snd (AuthUsecase_UpdateProfile repo ft i name department d)) j) = map_option us_Role (lookup d j)"
    and "map_option us_Role (lookup (snd (AuthUsecase_UpdateAvailability repo ft i availability d)) j) = map_option us_Role (lookup d j)"
  using assms
  by (auto simp: AuthUsecase_ChangePassword_def AuthUsecase_UpdateProfile_def AuthUsecase_UpdateAvailability_def
      Let_def snd_and_then split: sum.splits option.splits dest!: found [OF assms] intro!: update_same_role [OF assms])

lemma update_others:
  assumes "ok d" and "lookup d (us_ID u) = Some v" and "j \<noteq> us_ID u"
  shows "lookup (snd (ur_Update repo ft u d)) j = lookup d j"
proof (cases "ur_Update repo ft u d")
  case (Pair z d')
  with assms show ?thesis by (cases z) (auto dest: update_Inr update_Inl)
qed

lemma others_kept:
  assumes "ok d" and "j \<noteq> i"
  shows "lookup (snd (AuthUsecase_ChangePassword bc repo salt ft i old new d)) j = lookup d j"
    and "lookup (snd (AuthUsecase_UpdateProfile repo ft i name department d)) j = lookup d j"
    and "lookup (snd (AuthUsecase_UpdateAvailability repo ft i availability d)) j = lookup d j"
  using assms
  by (auto simp: AuthUsecase_ChangePassword_def AuthUsecase_UpdateProfile_def AuthUsecase_UpdateAvailability_def
      Let_def snd_and_then split: sum.splits option.splits dest!: found [OF assms(1)] intro!: update_others [OF assms(1)])

lemma usecases_ok:
  assumes "ok d"
  shows "ok (snd (AuthUsecase_ChangePassword bc repo salt ft i old new d))"
    and "ok (snd (AuthUsecase_UpdateProfile repo ft i name department d))"
    and "ok (snd (AuthUsecase_UpdateAvailability repo ft i availability d))"
    and "ok (snd (bootstrapAdmin bc repo salt ft email password d))"
  using assms
  by (auto simp: AuthUsecase_ChangePassword_def AuthUsecase_UpdateProfile_def AuthUsecase_UpdateAvailability_def bootstrapAdmin_def
      Let_def snd_and_then create_ok split: sum.splits option.splits dest!: found [OF assms] intro!: update_ok)

end

subsection \<open>The GORM repository provides it\<close>

definition lookup_user :: "users \<Rightarrow> uint \<Rightarrow> User option" where
  "lookup_user db i = List.find (\<lambda>r. us_ID r = i) (rows db)"

definition users_ok :: "users \<Rightarrow> bool" where
  "users_ok db \<longleftrightarrow> keys_ok us_ID db \<and> distinct (map us_Email (rows db)) \<and> (\<forall>r\<in>set (rows db). 0 < us_ID r) \<and> 0 < seq db"

lemma users_ok_empty [inv_rules]: "users_ok empty_table"
  by (simp add: users_ok_def keys_ok_empty)

lemma lookup_user_Some: "users_ok db \<Longrightarrow> lookup_user db i = Some u \<longleftrightarrow> u \<in> set (rows db) \<and> us_ID u = i"
  using find_by_key [of us_ID db u] by (auto simp: lookup_user_def users_ok_def dest: find_SomeD)

lemma lookup_user_eqI:
  assumes "users_ok db" and "\<And>u. m i = Some u \<longleftrightarrow> u \<in> set (rows db) \<and> us_ID u = i"
  shows "lookup_user db i = m i"
  using lookup_user_Some [OF assms(1), of i] assms(2) by (metis not_Some_eq)

lemma sort_singleton: "filter P xs = [x] \<Longrightarrow> sort_key f (filter P xs) = [x]"
  by simp

lemma find_row_Inr: "find_row b P db = Inr u \<Longrightarrow> u \<in> set (rows db) \<and> P u"
proof -
  assume "find_row b P db = Inr u"
  then obtain us where "sort_key us_ID (filter P (rows db)) = u # us"
    by (auto simp: find_row_def split: if_splits list.splits)
  then have "u \<in> set (sort_key us_ID (filter P (rows db)))" by simp
  then show ?thesis by simp
qed

lemma find_row_unique:
  assumes "u \<in> set (rows db)" "P u" "\<And>v. v \<in> set (rows db) \<Longrightarrow> P v \<Longrightarrow> v = u"
  shows "find_row False P db = Inr u"
proof (cases "sort_key us_ID (filter P (rows db))")
  case Nil
  then have "set (filter P (rows db)) = {}" by (metis empty_set set_sort)
  moreover have "u \<in> set (filter P (rows db))" using assms(1,2) by simp
  ultimately have False by (metis empty_iff)
  then show ?thesis ..
next
  case (Cons v vs)
  then have "v \<in> set (filter P (rows db))" by (metis list.set_intros(1) set_sort)
  with Cons assms(3) show ?thesis by (simp add: find_row_def)
qed

lemma users_email_inj: "users_ok db \<Longrightarrow> u \<in> set (rows db) \<Longrightarrow> v \<in> set (rows db) \<Longrightarrow> us_Email u = us_Email v \<Longrightarrow> u = v"
  by (auto simp: users_ok_def distinct_map inj_on_def)

lemma Create_user_Inr:
  "Users_Create ft u db = (Inr (), db') \<longleftrightarrow>
    \<not> ft 0 \<and> (\<forall>r\<in>set (rows db). us_Email r \<noteq> us_Email u) \<and> db' = insert_row (\<lambda>i. stored_user i u) db"
  by (auto simp: Users_Create_def exec_stmt_def stored_user_def)

lemma Create_user_Inl: "Users_Create ft u db = (Inl e, db') \<Longrightarrow> rows db' = rows db \<and> seq db \<le> seq db'"
  by (auto simp: Users_Create_def exec_stmt_def split: if_splits)

lemma insert_user_ok:
  "users_ok db \<Longrightarrow> \<forall>r\<in>set (rows db). us_Email r \<noteq> us_Email u \<Longrightarrow> users_ok (insert_row (\<lambda>i. stored_user i u) db)"
  by (auto simp: users_ok_def keys_ok_insert image_iff)

lemma users_same_rows: "users_ok db \<Longrightarrow> rows db' = rows db \<Longrightarrow> seq db \<le> seq db' \<Longrightarrow> users_ok db'"
  by (force simp: users_ok_def keys_ok_def)

lemma Create_user_ok [inv_rules]:
  assumes "users_ok db"
  shows "users_ok (snd (Users_Create ft u db))"
proof (cases "Users_Create ft u db")
  case (Pair z db')
  show ?thesis
  proof (cases z)
    case (Inl e)
    with Pair have "rows db' = rows db \<and> seq db \<le> seq db'" using Create_user_Inl by simp
    with Pair assms users_same_rows show ?thesis by simp
  next
    case (Inr x)
    with Pair have c: "Users_Create ft u db = (Inr (), db')" by simp
    with assms insert_user_ok have "users_ok db'" by (simp add: Create_user_Inr)
    with c show ?thesis by simp
  qed
qed

text \<open>An update of a stored row.\<close>

lemma Update_user:
  assumes "users_ok db" and "lookup_user db (us_ID u) = Some v" and "Users_Update ft u db = (z, db')"
  shows "z = Inr () \<and> (\<forall>r\<in>set (rows db). us_ID r \<noteq> us_ID u \<longrightarrow> us_Email r \<noteq> us_Email u) \<and>
           db' = update_where (\<lambda>r. us_ID r = us_ID u) (\<lambda>_. u) db
       \<or> (\<exists>e. z = Inl e) \<and> db' = db"
proof -
  have v: "v \<in> set (rows db)" "us_ID v = us_ID u" "0 < us_ID v"
    using assms(1,2) by (auto simp: lookup_user_Some users_ok_def)
  then have "affected (\<lambda>r. us_ID r = us_ID u) db \<noteq> 0"
    by (auto simp: affected_def filter_empty_conv)
  with v assms(3) show ?thesis
    by (auto simp: Users_Update_def exec_stmt_def split: if_splits)
qed

lemma update_user_ok:
  assumes ok: "users_ok db" and "lookup_user db (us_ID u) = Some v"
    and new: "\<forall>r\<in>set (rows db). us_ID r \<noteq> us_ID u \<longrightarrow> us_Email r \<noteq> us_Email u"
  shows "users_ok (update_where (\<lambda>r. us_ID r = us_ID u) (\<lambda>_. u) db)"
proof -
  let ?f = "\<lambda>r. if us_ID r = us_ID u then u else r"
  have "inj_on (us_Email \<circ> ?f) (set (rows db))"
  proof (rule inj_onI)
    fix a b assume "a \<in> set (rows db)" "b \<in> set (rows db)" "(us_Email \<circ> ?f) a = (us_Email \<circ> ?f) b"
    then show "a = b"
      using new users_email_inj [OF ok] keys_okD [of us_ID db a b] ok
      by (auto simp: users_ok_def split: if_splits)
  qed
  then have "distinct (map us_Email (map ?f (rows db)))"
    using ok by (auto simp: users_ok_def keys_ok_def distinct_map comp_def inj_on_def)
  moreover have "keys_ok us_ID (update_where (\<lambda>r. us_ID r = us_ID u) (\<lambda>_. u) db)"
    using ok unfolding users_ok_def keys_ok_def by (auto simp: comp_def if_distrib [of us_ID] cong: map_cong)
  ultimately show ?thesis
    using ok assms(2) by (auto simp: users_ok_def lookup_user_Some)
qed

lemma lookup_insert_user:
  assumes "users_ok db" and "\<forall>r\<in>set (rows db). us_Email r \<noteq> us_Email u"
  shows "lookup_user db (seq db) = None"
    and "lookup_user (insert_row (\<lambda>i. stored_user i u) db) = (lookup_user db)(seq db \<mapsto> stored_user (seq db) u)"
proof -
  have new: "\<forall>r\<in>set (rows db). us_ID r < seq db" using assms(1) by (simp add: users_ok_def keys_ok_def)
  show none: "lookup_user db (seq db) = None"
    using new by (force simp: lookup_user_def find_None_iff)
  show "lookup_user (insert_row (\<lambda>i. stored_user i u) db) = (lookup_user db)(seq db \<mapsto> stored_user (seq db) u)"
  proof
    fix j
    show "lookup_user (insert_row (\<lambda>i. stored_user i u) db) j = ((lookup_user db)(seq db \<mapsto> stored_user (seq db) u)) j"
      using lookup_user_Some [OF assms(1)] none new
      by (intro lookup_user_eqI [OF insert_user_ok [OF assms]]) (auto split: if_splits)
  qed
qed

lemma lookup_update_user:
  assumes "users_ok db" and "lookup_user db (us_ID u) = Some v"
    and "\<forall>r\<in>set (rows db). us_ID r \<noteq> us_ID u \<longrightarrow> us_Email r \<noteq> us_Email u"
  shows "lookup_user (update_where (\<lambda>r. us_ID r = us_ID u) (\<lambda>_. u) db) = (lookup_user db)(us_ID u \<mapsto> u)"
proof
  fix j
  show "lookup_user (update_where (\<lambda>r. us_ID r = us_ID u) (\<lambda>_. u) db) j = ((lookup_user db)(us_ID u \<mapsto> u)) j"
    using lookup_user_Some [OF assms(1)] assms(2)
    by (intro lookup_user_eqI [OF update_user_ok [OF assms]]) (auto split: if_splits)
qed

lemma Users_Update_Inr:
  assumes "users_ok db" and "lookup_user db (us_ID u) = Some v" and "Users_Update ft u db = (Inr (), db')"
  shows "users_ok db'" and "lookup_user db' = (lookup_user db)(us_ID u \<mapsto> u)"
  using Update_user [OF assms] update_user_ok [OF assms(1,2)] lookup_update_user [OF assms(1,2)] by auto

lemma Users_Update_Inl:
  "users_ok db \<Longrightarrow> lookup_user db (us_ID u) = Some v \<Longrightarrow> Users_Update ft u db = (Inl e, db') \<Longrightarrow> db' = db"
  using Update_user [of db u v ft "Inl e" db'] by auto

interpretation users: user_repository userRepository lookup_user users_ok
proof (unfold_locales, goal_cases)
  case (1 d ft u d')
  then show ?case
    using lookup_insert_user [of d u] by (auto simp: userRepository_def Create_user_Inr)
next
  case (2 d ft u d' i v)
  then show ?case by (auto simp: userRepository_def Create_user_Inr lookup_user_Some)
next
  case (3 ft u d e d')
  then show ?case by (auto simp: userRepository_def lookup_user_def fun_eq_iff dest: Create_user_Inl)
next
  case (4 d ft u)
  then show ?case by (simp add: userRepository_def Create_user_ok)
next
  case (5 d u v ft d')
  then have "Users_Update ft u d = (Inr (), d')" by (simp add: userRepository_def)
  with 5 show ?case by (intro Users_Update_Inr(2) [of d u v ft d'])
next
  case (6 d u v ft e d')
  then have "d' = d" by (intro Users_Update_Inl [of d u v ft e d']) (simp_all add: userRepository_def)
  then show ?case by simp
next
  case (7 d u v ft)
  then have "users_ok d'" if "Users_Update ft u d = (z, d')" for z d'
    using that Users_Update_Inr(1) [of d u v ft d'] Users_Update_Inl [of d u v ft _ d'] by (cases z) auto
  then show ?case by (cases "Users_Update ft u d") (simp add: userRepository_def)
next
  case (8 d ft i u)
  then show ?case by (auto simp: userRepository_def Users_FindByID_def lookup_user_Some dest: find_row_Inr)
next
  case (9 d i u ft)
  then show ?case
    by (auto simp: userRepository_def Users_FindByID_def lookup_user_Some users_ok_def intro!: find_row_unique keys_okD [where key = us_ID])
next
  case (10 d ft em u)
  then show ?case by (auto simp: userRepository_def Users_FindByEmail_def lookup_user_Some dest: find_row_Inr)
next
  case (11 d i u ft)
  then show ?case
    by (auto simp: userRepository_def Users_FindByEmail_def lookup_user_Some intro!: find_row_unique users_email_inj)
next
  case (12 d ft role us)
  then show ?case
    by (auto simp: userRepository_def Users_FindByRole_def lookup_user_Some split: if_splits)
next
  case (13 d i u)
  then show ?case by (simp add: lookup_user_Some)
qed

subsection \<open>Properties\<close>

text \<open>
  What golang.org/x/crypto/bcrypt documents: a hash matches the password it was made from, and
  exactly the passwords longer than 72 bytes are refused.
\<close>

definition bcrypt_ok :: "Bcrypt \<Rightarrow> bool" where
  "bcrypt_ok bc \<longleftrightarrow> (\<forall>salt p h. bc_Hash bc salt p = Some h \<longrightarrow> bc_Compare bc h p) \<and>
     (\<forall>salt p. bc_Hash bc salt p = None \<longleftrightarrow> 72 < length p)"

text \<open>A concrete instance, for the witnesses.\<close>

definition demo_bcrypt :: Bcrypt where
  "demo_bcrypt = \<lparr>bc_Hash = (\<lambda>salt p. if length p \<le> 72 then Some (CHR ''$'' # p) else None),
     bc_Compare = (\<lambda>h p. h = CHR ''$'' # p)\<rparr>"

lemma demo_bcrypt_ok: "bcrypt_ok demo_bcrypt"
  by (auto simp: bcrypt_ok_def demo_bcrypt_def not_less)

definition demo_users :: users where
  "demo_users = \<lparr>rows = [\<lparr>us_ID = 1, us_Name = ''Ann'', us_Email = ''a@x'', us_Password = ''$secret12'',
     us_Department = ''IT'', us_Availability = ''busy'', us_Role = ''agent''\<rparr>], seq = 2\<rparr>"

lemma demo_users_ok: "users_ok demo_users"
  by code_simp

text \<open>
  C7. An account that was registered can log in: after \<open>Register\<close> succeeded, the address was
  not in use before, and \<open>Login\<close> with the same address and password returns an account with
  exactly the registered name, department and role, availability "offline" and a key no
  account had; every other account is unchanged.
\<close>
theorem register_then_login:
  assumes "bcrypt_ok bc" and "users_ok db"
    and "AuthUsecase_Register bc userRepository salt ft name email password department role db = (Inr (), db')"
    and "\<not> ft' 0 0"
  shows "\<exists>u. AuthUsecase_Login bc userRepository ft' email password db' = Inr u \<and> us_Name u = name \<and> us_Email u = email \<and>
           us_Department u = department \<and> us_Role u = role \<and> us_Availability u = ''offline'' \<and>
           lookup_user db (us_ID u) = None \<and> lookup_user db' = (lookup_user db)(us_ID u \<mapsto> u) \<and>
           (\<forall>j v. lookup_user db j = Some v \<longrightarrow> us_Email v \<noteq> email)"
proof -
  obtain i u hashed where u: "lookup_user db i = None" "lookup_user db' = (lookup_user db)(i \<mapsto> u)" "us_ID u = i"
      "us_Name u = name" "us_Email u = email" "us_Role u = role" "us_Availability u = ''offline''"
      "us_Department u = department" "\<forall>j v. lookup_user db j = Some v \<longrightarrow> us_Email v \<noteq> email"
      "bc_Hash bc salt password = Some hashed" "us_Password u = hashed"
    by (rule users.register_Inr [OF assms(2,3)])
  have "users_ok db'"
    using users.register_ok [OF assms(2), of bc salt ft name email password department role] assms(3) by simp
  moreover have "bc_Compare bc (us_Password u) password"
    using assms(1) u(10,11) by (auto simp: bcrypt_ok_def)
  ultimately have "AuthUsecase_Login bc userRepository ft' email password db' = Inr u"
    using users.login_eq [of db' i u ft' bc password] u assms(4) by simp
  with u show ?thesis by blast
qed

theorem register_then_login_witness:
  "\<exists>u. AuthUsecase_Login demo_bcrypt userRepository (\<lambda>_ _. False) ''b@x'' ''passw0rd''
        (snd (AuthUsecase_Register demo_bcrypt userRepository 0 (\<lambda>_ _. False) ''Bob'' ''b@x'' ''passw0rd'' ''HR'' ''user'' demo_users))
      = Inr u \<and> us_ID u = 2 \<and> us_Role u = ''user''"
proof -
  let ?r = "AuthUsecase_Register demo_bcrypt userRepository 0 (\<lambda>_ _. False) ''Bob'' ''b@x'' ''passw0rd'' ''HR'' ''user'' demo_users"
  have "fst ?r = Inr ()" and 2: "map us_ID (rows (snd ?r)) = [1, 2]" by code_simp+
  then have "?r = (Inr (), snd ?r)" by (metis prod.collapse)
  from register_then_login [OF demo_bcrypt_ok demo_users_ok this, of "\<lambda>_ _. False"]
  obtain u where u: "AuthUsecase_Login demo_bcrypt userRepository (\<lambda>_ _. False) ''b@x'' ''passw0rd'' (snd ?r) = Inr u"
    "us_Role u = ''user''" "us_Email u = ''b@x''" by blast
  moreover have "map_option us_ID (case AuthUsecase_Login demo_bcrypt userRepository (\<lambda>_ _. False) ''b@x'' ''passw0rd'' (snd ?r) of
      Inr u \<Rightarrow> Some u | Inl _ \<Rightarrow> None) = Some 2" by code_simp
  ultimately show ?thesis by simp
qed

text \<open>
  A password change is the caller's own, once and for all: it succeeds only with the
  current password; afterwards the new password logs in, another one only if bcrypt takes it
  for the new one, and nothing else of any account has changed.
\<close>
theorem change_password_effect:
  assumes "bcrypt_ok bc" and "users_ok db" and "\<not> ft' 0 0"
    and "AuthUsecase_ChangePassword bc userRepository salt ft userID old new db = (Inr (), db')"
  shows "\<exists>u h. lookup_user db userID = Some u \<and> bc_Compare bc (us_Password u) old \<and> bc_Hash bc salt new = Some h \<and>
           lookup_user db' = (lookup_user db)(userID \<mapsto> u\<lparr>us_Password := h\<rparr>) \<and>
           (\<forall>p. AuthUsecase_Login bc userRepository ft' (us_Email u) p db' =
                  (if bc_Compare bc h p then Inr (u\<lparr>us_Password := h\<rparr>) else Inl ErrHash)) \<and>
           AuthUsecase_Login bc userRepository ft' (us_Email u) new db' = Inr (u\<lparr>us_Password := h\<rparr>)"
proof -
  obtain u h where u: "lookup_user db userID = Some u" "bc_Compare bc (us_Password u) old" "bc_Hash bc salt new = Some h"
      "lookup_user db' = (lookup_user db)(userID \<mapsto> u\<lparr>us_Password := h\<rparr>)"
    by (rule users.change_password_Inr [OF assms(2,4)])
  have "users_ok db'"
    using users.usecases_ok(1) [OF assms(2), of bc salt ft userID old new] assms(4) by simp
  then have "AuthUsecase_Login bc userRepository ft' (us_Email u) p db' =
      (if bc_Compare bc h p then Inr (u\<lparr>us_Password := h\<rparr>) else Inl ErrHash)" for p
    using users.login_eq [of db' userID "u\<lparr>us_Password := h\<rparr>" ft' bc p] u(4) assms(3) by simp
  moreover have "bc_Compare bc h new" using assms(1) u(3) by (simp add: bcrypt_ok_def)
  ultimately show ?thesis using u by auto
qed

theorem change_password_effect_witness:
  "fst (AuthUsecase_ChangePassword demo_bcrypt userRepository 0 (\<lambda>_ _. False) 1 ''secret12'' ''topsecret'' demo_users) = Inr () \<and>
   (\<exists>h. map_option us_Password (lookup_user
      (snd (AuthUsecase_ChangePassword demo_bcrypt userRepository 0 (\<lambda>_ _. False) 1 ''secret12'' ''topsecret'' demo_users)) 1) = Some h)"
proof -
  let ?r = "AuthUsecase_ChangePassword demo_bcrypt userRepository 0 (\<lambda>_ _. False) 1 ''secret12'' ''topsecret'' demo_users"
  have f: "fst ?r = Inr ()" by code_simp
  then have "?r = (Inr (), snd ?r)" by (metis prod.collapse)
  from change_password_effect [OF demo_bcrypt_ok demo_users_ok _ this, of "\<lambda>_ _. False"] f show ?thesis
    by auto
qed

end
