(* ===== verification/Sessions.thy ===== *)
theory Sessions
  imports Db GoStd
begin

section \<open>Refresh-token sessions (auth-service, internal/repository)\<close>

text \<open>
  A session is a row of \<open>refresh_tokens\<close>; it stores a hash of the token the client holds. The
  operations of \<open>refreshTokenRepository\<close> are translated statement by statement: \<open>Create\<close>
  (lock, insert, drop expired sessions, evict beyond the cap), \<open>Rotate\<close>, \<open>DeleteSession\<close>,
  \<open>DeleteByUser\<close> and \<open>Find\<close>. The digest \<open>sha256\<close> is a parameter of the operations; nothing
  is assumed of it but, where a property needs it, that two given tokens have different
  hashes. \<open>now\<close> is the service's clock (GORM sets \<open>CreatedAt\<close> with it), \<open>dbnow\<close> the
  database's.
\<close>

record RefreshToken =
  rt_ID :: uint
  rt_UserID :: uint
  rt_Token :: string
  rt_CreatedAt :: time
  rt_ExpiresAt :: "time option"

type_synonym sessions = "RefreshToken table"

definition hashToken :: "(string \<Rightarrow> string) \<Rightarrow> string \<Rightarrow> string" where
  "hashToken sha256 token = hex_encode (sha256 token)"

definition sessionLockKey :: "uint \<Rightarrow> nat" where
  "sessionLockKey userID = or (push_bit 40 1) userID"

text \<open>INSERT into a table whose \<open>token\<close> column is UNIQUE; a rejected row still uses up a key.\<close>

definition insert_session :: "RefreshToken \<Rightarrow> sessions \<Rightarrow> (sessions, unit) result" where
  "insert_session stored db =
     (if \<exists>r\<in>set (rows db). rt_Token r = rt_Token stored
      then (Inl ErrDuplicatedKey, db\<lparr>seq := Suc (seq db)\<rparr>)
      else (Inr (), insert_row (\<lambda>id. stored\<lparr>rt_ID := id\<rparr>) db))"

definition is_expired :: "time \<Rightarrow> RefreshToken \<Rightarrow> bool" where
  "is_expired dbnow r \<longleftrightarrow> (case rt_ExpiresAt r of None \<Rightarrow> False | Some e \<Rightarrow> e < dbnow)"

text \<open>ORDER BY \<open>created_at\<close> DESC, \<open>id\<close> DESC LIMIT \<open>n\<close>, and the DELETE of everything else.\<close>

definition newest_key :: "RefreshToken \<Rightarrow> int \<times> int" where
  "newest_key r = (- rt_CreatedAt r, - int (rt_ID r))"

definition newest :: "uint \<Rightarrow> nat \<Rightarrow> sessions \<Rightarrow> RefreshToken list" where
  "newest u n db = take n (sort_key newest_key (filter (\<lambda>r. rt_UserID r = u) (rows db)))"

definition evict_oldest :: "uint \<Rightarrow> nat \<Rightarrow> sessions \<Rightarrow> sessions" where
  "evict_oldest u n db =
     delete_where (\<lambda>r. rt_UserID r = u \<and> rt_ID r \<notin> set (map rt_ID (newest u n db))) db"

definition RefreshTokens_Find :: "(string \<Rightarrow> string) \<Rightarrow> faults \<Rightarrow> string \<Rightarrow> sessions \<Rightarrow> err + RefreshToken" where
  "RefreshTokens_Find sha256 ft token db =
     (if ft 0 then Inl ErrDatabase
      else case List.find (\<lambda>r. rt_Token r = hashToken sha256 token) (rows db) of
             None \<Rightarrow> Inl ErrRecordNotFound
           | Some rt \<Rightarrow> Inr rt)"

definition RefreshTokens_Create ::
  "(string \<Rightarrow> string) \<Rightarrow> faults \<Rightarrow> time \<Rightarrow> time \<Rightarrow> RefreshToken \<Rightarrow> int \<Rightarrow> sessions \<Rightarrow> (sessions, unit) result" where
  "RefreshTokens_Create sha256 ft now dbnow token maxSessions =
     in_transaction (ft 4) rollback_rows (\<lambda>db.
       and_then (exec_stmt (ft 0) (\<lambda>db. (Inr (), db)) db) (\<lambda>_ db. \<comment> \<open>advisory lock\<close>
       let stored = token\<lparr>rt_Token := hashToken sha256 (rt_Token token), rt_CreatedAt := now\<rparr>
       in and_then (exec_stmt (ft 1) (insert_session stored) db) (\<lambda>_ db.
       and_then (exec_stmt (ft 2) (\<lambda>db. (Inr (),
                   delete_where (\<lambda>r. rt_UserID r = rt_UserID token \<and> is_expired dbnow r) db)) db) (\<lambda>_ db.
       if maxSessions \<le> 0 then (Inr (), db)
       else exec_stmt (ft 3) (\<lambda>db. (Inr (), evict_oldest (rt_UserID token) (nat maxSessions) db)) db))))"

definition RefreshTokens_Rotate ::
  "(string \<Rightarrow> string) \<Rightarrow> faults \<Rightarrow> time \<Rightarrow> string \<Rightarrow> RefreshToken \<Rightarrow> sessions \<Rightarrow> (sessions, unit) result" where
  "RefreshTokens_Rotate sha256 ft now oldToken next_rt =
     in_transaction (ft 2) rollback_rows (\<lambda>db.
       let P = (\<lambda>r. rt_Token r = hashToken sha256 oldToken)
       in and_then (exec_stmt (ft 0) (\<lambda>db. (Inr (affected P db), delete_where P db)) db) (\<lambda>rowsAffected db.
       if rowsAffected \<noteq> 1 then (Inl ErrTokenNotFound, db)
       else let stored = next_rt\<lparr>rt_Token := hashToken sha256 (rt_Token next_rt), rt_CreatedAt := now\<rparr>
            in exec_stmt (ft 1) (insert_session stored) db))"

definition RefreshTokens_DeleteSession ::
  "(string \<Rightarrow> string) \<Rightarrow> faults \<Rightarrow> uint \<Rightarrow> string \<Rightarrow> sessions \<Rightarrow> (sessions, unit) result" where
  "RefreshTokens_DeleteSession sha256 ft userID token =
     exec_stmt (ft 0) (\<lambda>db. (Inr (),
       delete_where (\<lambda>r. rt_UserID r = userID \<and> rt_Token r = hashToken sha256 token) db))"

definition RefreshTokens_DeleteByUser :: "faults \<Rightarrow> uint \<Rightarrow> sessions \<Rightarrow> (sessions, unit) result" where
  "RefreshTokens_DeleteByUser ft userID =
     exec_stmt (ft 0) (\<lambda>db. (Inr (), delete_where (\<lambda>r. rt_UserID r = userID) db))"

subsection \<open>The invariant of the table\<close>

definition sessions_ok :: "sessions \<Rightarrow> bool" where
  "sessions_ok db \<longleftrightarrow> keys_ok rt_ID db \<and> distinct (map rt_Token (rows db))"

definition session_count :: "uint \<Rightarrow> sessions \<Rightarrow> nat" where
  "session_count u db = length (filter (\<lambda>r. rt_UserID r = u) (rows db))"

lemma sessions_ok_empty [inv_rules]: "sessions_ok empty_table"
  by (simp add: sessions_ok_def keys_ok_empty)

lemma sessions_ok_delete [inv_rules]: "sessions_ok db \<Longrightarrow> sessions_ok (delete_where P db)"
  by (simp add: sessions_ok_def keys_ok_delete distinct_map_filter)

lemma sessions_ok_rollback: "sessions_ok db \<Longrightarrow> seq db \<le> seq db' \<Longrightarrow> sessions_ok (rollback_rows db db')"
  by (simp add: sessions_ok_def keys_ok_rollback)

lemma insert_session_Inr:
  assumes "insert_session stored db = (Inr (), db')"
  shows "rows db' = rows db @ [stored\<lparr>rt_ID := seq db\<rparr>]" and "seq db' = Suc (seq db)"
    and "rt_Token stored \<notin> rt_Token ` set (rows db)"
  using assms by (auto simp: insert_session_def split: if_splits)

lemma insert_session_ok:
  assumes "sessions_ok db" and "insert_session stored db = (Inr (), db')"
  shows "sessions_ok db'"
  using assms(1) insert_session_Inr [OF assms(2)]
  by (auto simp: sessions_ok_def keys_ok_def less_Suc_eq image_iff)

subsection \<open>What each operation does to the rows\<close>

definition prune_sessions :: "uint \<Rightarrow> time \<Rightarrow> int \<Rightarrow> sessions \<Rightarrow> sessions" where
  "prune_sessions u dbnow maxSessions db =
     (let db' = delete_where (\<lambda>r. rt_UserID r = u \<and> is_expired dbnow r) db
      in if maxSessions \<le> 0 then db' else evict_oldest u (nat maxSessions) db')"

lemma Create_Inr:
  assumes "RefreshTokens_Create sha256 ft now dbnow token maxSessions db = (Inr (), db')"
  obtains db1 where
    "insert_session (token\<lparr>rt_Token := hashToken sha256 (rt_Token token), rt_CreatedAt := now\<rparr>) db = (Inr (), db1)"
    and "db' = prune_sessions (rt_UserID token) dbnow maxSessions db1"
  using assms
  by (auto simp: RefreshTokens_Create_def in_transaction_Inr and_then_eq_Inr exec_stmt_Inr Let_def
           prune_sessions_def split: if_splits)

lemma Rotate_Inr:
  assumes "RefreshTokens_Rotate sha256 ft now oldToken nxt db = (Inr (), db')"
  shows "affected (\<lambda>r. rt_Token r = hashToken sha256 oldToken) db = 1"
    and "insert_session (nxt\<lparr>rt_Token := hashToken sha256 (rt_Token nxt), rt_CreatedAt := now\<rparr>)
           (delete_where (\<lambda>r. rt_Token r = hashToken sha256 oldToken) db) = (Inr (), db')"
  using assms
  by (auto simp: RefreshTokens_Rotate_def in_transaction_Inr and_then_eq_Inr exec_stmt_Inr Let_def
           split: if_splits)

lemma Create_Inl_rows [frame_rules]:
  "RefreshTokens_Create sha256 ft now dbnow token maxSessions db = (Inl e, db') \<Longrightarrow> rows db' = rows db"
  by (auto simp: RefreshTokens_Create_def dest: in_transaction_Inl)

lemma Rotate_Inl_rows [frame_rules]:
  "RefreshTokens_Rotate sha256 ft now old nxt db = (Inl e, db') \<Longrightarrow> rows db' = rows db"
  by (auto simp: RefreshTokens_Rotate_def dest: in_transaction_Inl)

lemma seq_evict [simp]: "seq (evict_oldest u n db) = seq db"
  by (simp add: evict_oldest_def)

lemma sessions_ok_evict [inv_rules]: "sessions_ok db \<Longrightarrow> sessions_ok (evict_oldest u n db)"
  by (simp add: evict_oldest_def sessions_ok_delete)

lemma sessions_ok_prune [inv_rules]: "sessions_ok db \<Longrightarrow> sessions_ok (prune_sessions u t n db)"
  by (simp add: prune_sessions_def Let_def sessions_ok_evict sessions_ok_delete)

text \<open>No operation lets the sequence fall back, also when it fails.\<close>

lemma in_transaction_seq:
  "(\<And>s'. snd (body db) = s' \<Longrightarrow> seq db \<le> seq s') \<Longrightarrow> seq db \<le> seq (snd (in_transaction c rollback_rows body db))"
  by (cases "body db") (auto simp: in_transaction.simps split: sum.splits)

lemma Create_seq: "seq db \<le> seq (snd (RefreshTokens_Create sha256 ft now dbnow token n db))"
  unfolding RefreshTokens_Create_def
  by (rule in_transaction_seq, cases "ft 0"; cases "ft 1"; cases "ft 2"; cases "ft 3")
    (auto simp: exec_stmt_def Let_def insert_session_def)

lemma Rotate_seq: "seq db \<le> seq (snd (RefreshTokens_Rotate sha256 ft now old nxt db))"
  unfolding RefreshTokens_Rotate_def
  by (rule in_transaction_seq, cases "ft 0"; cases "ft 1")
    (auto simp: exec_stmt_def Let_def insert_session_def)

lemma sessions_ok_same_rows:
  "sessions_ok db \<Longrightarrow> rows db' = rows db \<Longrightarrow> seq db \<le> seq db' \<Longrightarrow> sessions_ok db'"
  by (force simp: sessions_ok_def keys_ok_def)

lemma Create_ok [inv_rules]:
  assumes "sessions_ok db" and "RefreshTokens_Create sha256 ft now dbnow token n db = (z, db')"
  shows "sessions_ok db'"
proof (cases z)
  case (Inl e)
  then show ?thesis
    using assms Create_Inl_rows Create_seq sessions_ok_same_rows by (metis snd_conv)
next
  case (Inr x)
  with assms(2) show ?thesis
    by (auto elim!: Create_Inr intro: sessions_ok_prune insert_session_ok [OF assms(1)])
qed

lemma Rotate_ok [inv_rules]:
  assumes "sessions_ok db" and "RefreshTokens_Rotate sha256 ft now old nxt db = (z, db')"
  shows "sessions_ok db'"
proof (cases z)
  case (Inl e)
  then show ?thesis
    using assms Rotate_Inl_rows Rotate_seq sessions_ok_same_rows by (metis snd_conv)
next
  case (Inr x)
  then have "RefreshTokens_Rotate sha256 ft now old nxt db = (Inr (), db')"
    using assms(2) by simp
  from insert_session_ok [OF sessions_ok_delete [OF assms(1)] Rotate_Inr(2) [OF this]] show ?thesis .
qed

lemma Delete_ok [inv_rules]:
  "sessions_ok db \<Longrightarrow> sessions_ok (snd (RefreshTokens_DeleteSession sha256 ft u token db))"
  "sessions_ok db \<Longrightarrow> sessions_ok (snd (RefreshTokens_DeleteByUser ft u db))"
  by (auto simp: RefreshTokens_DeleteSession_def RefreshTokens_DeleteByUser_def exec_stmt_def sessions_ok_delete)

subsection \<open>The cap on sessions\<close>

lemma length_newest: "length (newest u n db) \<le> n"
  by (simp add: newest_def)

lemma evict_count:
  assumes "keys_ok rt_ID db"
  shows "session_count u (evict_oldest u n db) \<le> n"
proof -
  let ?ids = "set (map rt_ID (newest u n db))"
  let ?db = "evict_oldest u n db"
  have ok: "distinct (map rt_ID (rows ?db))"
    using keys_ok_delete [OF assms] unfolding evict_oldest_def keys_ok_def by blast
  have "session_count u ?db \<le> card ?ids"
    unfolding session_count_def
    by (rule filter_length_le_card [OF ok]) (auto simp: evict_oldest_def)
  also have "\<dots> \<le> n"
    using card_length [of "map rt_ID (newest u n db)"] length_newest [of u n db] by simp
  finally show ?thesis .
qed

lemma evict_others: "filter (\<lambda>r. rt_UserID r \<noteq> u) (rows (evict_oldest u n db)) = filter (\<lambda>r. rt_UserID r \<noteq> u) (rows db)"
  by (auto simp: evict_oldest_def intro: filter_cong)

lemma prune_others:
  "filter (\<lambda>r. rt_UserID r \<noteq> u) (rows (prune_sessions u t n db)) = filter (\<lambda>r. rt_UserID r \<noteq> u) (rows db)"
  by (auto simp: prune_sessions_def Let_def evict_others intro: filter_cong)

lemma prune_subset: "set (rows (prune_sessions u t n db)) \<subseteq> set (rows db)"
  by (auto simp: prune_sessions_def Let_def evict_oldest_def)

text \<open>
  Taking the first \<open>n\<close> of a sorted list splits it: what is taken comes before what is left.
\<close>

lemma take_sort_key_le:
  assumes "x \<in> set (take n (sort_key f xs))" and "y \<in> set (drop n (sort_key f xs))"
  shows "f x \<le> f y"
proof -
  have "sorted (map f (take n (sort_key f xs)) @ map f (drop n (sort_key f xs)))"
    using sorted_sort_key [of f xs] by (simp flip: map_append)
  with assms show ?thesis by (auto simp: sorted_append)
qed

lemma in_take_or_drop: "x \<in> set xs \<Longrightarrow> x \<in> set (take n xs) \<or> x \<in> set (drop n xs)"
  by (metis append_take_drop_id set_append UnE)

lemma evicted_oldest:
  assumes "keys_ok rt_ID db"
    and kept: "k \<in> set (rows (evict_oldest u n db))" "rt_UserID k = u"
    and gone: "g \<in> set (rows db)" "rt_UserID g = u" "g \<notin> set (rows (evict_oldest u n db))"
  shows "newest_key k \<le> newest_key g"
proof -
  let ?xs = "sort_key newest_key (filter (\<lambda>r. rt_UserID r = u) (rows db))"
  from kept obtain k' where k': "k' \<in> set (take n ?xs)" "rt_ID k' = rt_ID k"
    by (auto simp: evict_oldest_def newest_def)
  then have "k' \<in> set (rows db)" by (auto dest: in_set_takeD)
  then have "k' = k"
    using kept k'(2) assms(1) by (auto simp: evict_oldest_def intro: keys_okD)
  moreover have "g \<notin> set (take n ?xs)"
    using gone by (auto simp: evict_oldest_def newest_def)
  then have "g \<in> set (drop n ?xs)"
    using gone in_take_or_drop [of g ?xs n] by auto
  ultimately show ?thesis
    using take_sort_key_le [OF k'(1)] by simp
qed

subsection \<open>Runs of the repository, and the contract of a store of single-use tokens\<close>

text \<open>
  The calls the service makes of the repository. The requests of the replicas reach the
  database one transaction at a time, so a list of calls is an interleaving of them.
\<close>

datatype session_op =
    OpCreate faults time time RefreshToken int
  | OpRotate faults time string RefreshToken
  | OpDeleteSession faults uint string
  | OpDeleteByUser faults uint

fun session_step :: "(string \<Rightarrow> string) \<Rightarrow> session_op \<Rightarrow> sessions \<Rightarrow> (sessions, unit) result" where
  "session_step sha256 (OpCreate ft now dbnow token n) db = RefreshTokens_Create sha256 ft now dbnow token n db"
| "session_step sha256 (OpRotate ft now old nxt) db = RefreshTokens_Rotate sha256 ft now old nxt db"
| "session_step sha256 (OpDeleteSession ft u token) db = RefreshTokens_DeleteSession sha256 ft u token db"
| "session_step sha256 (OpDeleteByUser ft u) db = RefreshTokens_DeleteByUser ft u db"

text \<open>What a call issues and what it consumes, as keys of the table.\<close>

fun op_issues :: "(string \<Rightarrow> string) \<Rightarrow> session_op \<Rightarrow> string option" where
  "op_issues sha256 (OpCreate ft now dbnow token n) = Some (hashToken sha256 (rt_Token token))"
| "op_issues sha256 (OpRotate ft now old nxt) = Some (hashToken sha256 (rt_Token nxt))"
| "op_issues sha256 (OpDeleteSession ft u token) = None"
| "op_issues sha256 (OpDeleteByUser ft u) = None"

fun op_consumes :: "(string \<Rightarrow> string) \<Rightarrow> session_op \<Rightarrow> string option" where
  "op_consumes sha256 (OpRotate ft now old nxt) = Some (hashToken sha256 old)"
| "op_consumes sha256 _ = None"

fun op_quiet :: "session_op \<Rightarrow> bool" where
  "op_quiet (OpCreate ft now dbnow token n) \<longleftrightarrow> (\<forall>k<5. \<not> ft k)"
| "op_quiet (OpRotate ft now old nxt) \<longleftrightarrow> (\<forall>k<3. \<not> ft k)"
| "op_quiet (OpDeleteSession ft u token) \<longleftrightarrow> \<not> ft 0"
| "op_quiet (OpDeleteByUser ft u) \<longleftrightarrow> \<not> ft 0"

definition live_keys :: "sessions \<Rightarrow> string set" where
  "live_keys db = rt_Token ` set (rows db)"

text \<open>A store of tokens that can be exchanged once; \<open>step\<close> tells whether the call succeeded.\<close>

locale token_store =
  fixes step :: "'op \<Rightarrow> 'd \<Rightarrow> ('e + unit) \<times> 'd"
    and issues :: "'op \<Rightarrow> 'k option"
    and consumes :: "'op \<Rightarrow> 'k option"
    and live :: "'d \<Rightarrow> 'k set"
    and ok :: "'d \<Rightarrow> bool"
  assumes step_ok: "ok d \<Longrightarrow> ok (snd (step op d))"
    and live_step: "live (snd (step op d)) \<subseteq> live d \<union> set_option (issues op)"
    and consumes_live: "consumes op = Some k \<Longrightarrow> step op d = (Inr (), d') \<Longrightarrow> k \<in> live d"
    and consumes_gone: "consumes op = Some k \<Longrightarrow> issues op \<noteq> Some k \<Longrightarrow> step op d = (Inr (), d') \<Longrightarrow> k \<notin> live d'"
begin

lemma run_ok: "ok d \<Longrightarrow> ok (run_steps step ops d)"
  by (induction ops arbitrary: d) (simp_all add: step_ok)

lemma run_absent:
  "k \<notin> live d \<Longrightarrow> (\<And>op. op \<in> set ops \<Longrightarrow> issues op \<noteq> Some k) \<Longrightarrow> k \<notin> live (run_steps step ops d)"
proof (induction ops arbitrary: d)
  case (Cons op ops)
  have "k \<notin> live (snd (step op d))"
    using Cons.prems live_step [of op d] by (cases "issues op") auto
  with Cons show ?case by simp
qed simp

lemma absent_rejected: "k \<notin> live d \<Longrightarrow> consumes op = Some k \<Longrightarrow> fst (step op d) \<noteq> Inr ()"
  using consumes_live by (metis prod.collapse)

lemma single_use:
  assumes "consumes op = Some k" and "issues op \<noteq> Some k" and "step op d = (Inr (), d')"
    and "\<And>op. op \<in> set ops \<Longrightarrow> issues op \<noteq> Some k" and "consumes op' = Some k"
  shows "fst (step op' (run_steps step ops d')) \<noteq> Inr ()"
  using consumes_gone [OF assms(1-3)] run_absent assms(4,5) absent_rejected by metis

lemma no_winner:
  "k \<notin> live d \<Longrightarrow> (\<And>op. op \<in> set ops \<Longrightarrow> consumes op = Some k \<and> issues op \<noteq> Some k) \<Longrightarrow>
    filter (\<lambda>r. r = Inr ()) (step_results step ops d) = []"
proof (induction ops arbitrary: d)
  case (Cons op ops)
  have "fst (step op d) \<noteq> Inr ()"
    using Cons.prems absent_rejected by simp
  moreover have "k \<notin> live (snd (step op d))"
    using Cons.prems run_absent [of k d "[op]"] by simp
  ultimately show ?case using Cons by simp
qed simp

lemma at_most_one_winner:
  "(\<And>op. op \<in> set ops \<Longrightarrow> consumes op = Some k \<and> issues op \<noteq> Some k) \<Longrightarrow>
    length (filter (\<lambda>r. r = Inr ()) (step_results step ops d)) \<le> 1"
proof (induction ops arbitrary: d)
  case (Cons op ops)
  show ?case
  proof (cases "fst (step op d) = Inr ()")
    case True
    then have "k \<notin> live (snd (step op d))"
      using Cons.prems consumes_gone [of op k d "snd (step op d)"] by (metis list.set_intros(1) prod.collapse)
    then show ?thesis using no_winner [of k _ ops] Cons.prems True by simp
  qed (use Cons in simp)
qed simp

end

text \<open>
  With the database answering, a token that is live can be exchanged for a fresh one; then
  exactly one of the concurrent exchanges of a token wins.
\<close>

locale token_store_live = token_store +
  fixes quiet :: "'a \<Rightarrow> bool"
  assumes consumes_succeeds:
    "ok d \<Longrightarrow> quiet op \<Longrightarrow> consumes op = Some k \<Longrightarrow> k \<in> live d \<Longrightarrow> set_option (issues op) \<inter> live d = {} \<Longrightarrow>
      fst (step op d) = Inr ()"
begin

lemma one_winner:
  assumes "ok d" and "k \<in> live d" and "ops \<noteq> []"
    and "\<And>op. op \<in> set ops \<Longrightarrow> quiet op \<and> consumes op = Some k \<and> set_option (issues op) \<inter> live d = {}"
  shows "length (filter (\<lambda>r. r = Inr ()) (step_results step ops d)) = 1" and "hd (step_results step ops d) = Inr ()"
proof -
  from assms(3) obtain op ops' where ops: "ops = op # ops'" by (cases ops) auto
  have "fst (step op d) = Inr ()"
    using consumes_succeeds assms ops by simp
  then show "hd (step_results step ops d) = Inr ()" and "length (filter (\<lambda>r. r = Inr ()) (step_results step ops d)) = 1"
    using at_most_one_winner [of ops k d] assms ops by auto
qed

end

subsection \<open>The table of sessions is such a store\<close>

lemma session_step_ok [inv_rules]: "sessions_ok db \<Longrightarrow> sessions_ok (snd (session_step sha256 op db))"
  by (cases op) (auto intro: Create_ok Rotate_ok Delete_ok prod.collapse [symmetric])

lemma live_keys_simps [simp]:
  "live_keys (delete_where P db) = rt_Token ` {r \<in> set (rows db). \<not> P r}"
  by (simp add: live_keys_def set_filter)

lemma live_insert: "insert_session stored db = (Inr (), db') \<Longrightarrow> live_keys db' = insert (rt_Token stored) (live_keys db)"
  by (auto simp: live_keys_def insert_session_Inr(1))

lemma live_prune: "live_keys (prune_sessions u t n db) \<subseteq> live_keys db"
  using prune_subset by (fastforce simp: live_keys_def)

lemma live_Create:
  assumes "RefreshTokens_Create sha256 ft now dbnow token n db = (z, db')"
  shows "live_keys db' \<subseteq> insert (hashToken sha256 (rt_Token token)) (live_keys db)"
proof (cases z)
  case (Inl e)
  with assms show ?thesis by (auto simp: live_keys_def dest: Create_Inl_rows)
next
  case (Inr x)
  with assms obtain db1 where
    ins: "insert_session (token\<lparr>rt_Token := hashToken sha256 (rt_Token token), rt_CreatedAt := now\<rparr>) db = (Inr (), db1)"
    and db': "db' = prune_sessions (rt_UserID token) dbnow n db1"
    by (auto elim: Create_Inr)
  show ?thesis
    using live_prune [of "rt_UserID token" dbnow n db1] live_insert [OF ins] db' by auto
qed

lemma live_Rotate_Inr:
  "RefreshTokens_Rotate sha256 ft now old nxt db = (Inr (), db') \<Longrightarrow>
    live_keys db' = insert (hashToken sha256 (rt_Token nxt)) (live_keys db - {hashToken sha256 old})"
  by (drule Rotate_Inr(2), drule live_insert) (auto simp: live_keys_def)

lemma live_Rotate:
  assumes "RefreshTokens_Rotate sha256 ft now old nxt db = (z, db')"
  shows "live_keys db' \<subseteq> insert (hashToken sha256 (rt_Token nxt)) (live_keys db)"
proof (cases z)
  case (Inl e)
  with assms show ?thesis by (auto simp: live_keys_def dest: Rotate_Inl_rows)
next
  case (Inr x)
  with assms show ?thesis by (auto dest: live_Rotate_Inr)
qed

lemma live_session_step: "live_keys (snd (session_step sha256 op db)) \<subseteq> live_keys db \<union> set_option (op_issues sha256 op)"
proof (cases op)
  case (OpCreate ft now dbnow token n)
  then show ?thesis using live_Create [OF prod.collapse [symmetric]] by fastforce
next
  case (OpRotate ft now old nxt)
  then show ?thesis using live_Rotate [OF prod.collapse [symmetric]] by fastforce
qed (auto simp: RefreshTokens_DeleteSession_def RefreshTokens_DeleteByUser_def exec_stmt_def live_keys_def)

lemma Rotate_live:
  "RefreshTokens_Rotate sha256 ft now old nxt db = (Inr (), db') \<Longrightarrow> hashToken sha256 old \<in> live_keys db"
  by (drule Rotate_Inr(1))
    (auto simp: affected_def live_keys_def length_Suc_conv filter_eq_Cons_iff)

lemma affected_one: "sessions_ok db \<Longrightarrow> h \<in> live_keys db \<Longrightarrow> affected (\<lambda>r. rt_Token r = h) db = 1"
proof -
  assume ok: "sessions_ok db" and h: "h \<in> live_keys db"
  then have "affected (\<lambda>r. rt_Token r = h) db \<le> card {h}"
    unfolding affected_def by (intro filter_length_le_card [where f = rt_Token]) (auto simp: sessions_ok_def)
  moreover have "affected (\<lambda>r. rt_Token r = h) db \<noteq> 0"
    using h by (auto simp: affected_def live_keys_def filter_empty_conv)
  ultimately show ?thesis by simp
qed

lemma Rotate_succeeds:
  assumes "sessions_ok db" and "\<forall>k<3. \<not> ft k" and "hashToken sha256 old \<in> live_keys db"
    and "hashToken sha256 (rt_Token nxt) \<notin> live_keys db"
  shows "fst (RefreshTokens_Rotate sha256 ft now old nxt db) = Inr ()"
proof -
  have ft: "\<not> ft 0" "\<not> ft 1" "\<not> ft 2" using assms(2) by simp_all
  have "\<not> (\<exists>r\<in>set (rows (delete_where (\<lambda>r. rt_Token r = hashToken sha256 old) db)).
            rt_Token r = hashToken sha256 (rt_Token nxt))"
    using assms(4) by (force simp: live_keys_def)
  with ft affected_one [OF assms(1,3)] show ?thesis
    by (auto simp: RefreshTokens_Rotate_def in_transaction.simps exec_stmt_def insert_session_def Let_def)
qed

interpretation tokens: token_store_live
    "session_step sha256" "op_issues sha256" "op_consumes sha256" live_keys sessions_ok op_quiet for sha256
proof (unfold_locales, goal_cases)
  case 1 then show ?case by (rule session_step_ok)
next
  case 2 show ?case by (rule live_session_step)
next
  case (3 op k d d') then show ?case by (cases op) (auto dest: Rotate_live)
next
  case (4 op k d d') then show ?case by (cases op) (auto dest: live_Rotate_Inr)
next
  case (5 d op k) then show ?case by (cases op) (auto intro: Rotate_succeeds)
qed

lemma minimum_taken:
  assumes "x \<in> set xs" and "0 < n" and "\<And>y. y \<in> set xs \<Longrightarrow> y \<noteq> x \<Longrightarrow> f x < f y"
  shows "x \<in> set (take n (sort_key f xs))"
proof (rule ccontr)
  let ?s = "sort_key f xs"
  assume no: "x \<notin> set (take n ?s)"
  then have "x \<in> set (drop n ?s)" using in_take_or_drop [of x ?s n] assms(1) by simp
  moreover have "?s \<noteq> []" using assms(1) by (metis empty_iff empty_set set_sort)
  then have hd: "hd ?s \<in> set (take n ?s)" using assms(2) by (cases ?s; cases n) auto
  ultimately have "f (hd ?s) \<le> f x" by (rule take_sort_key_le [rotated])
  moreover have "hd ?s \<in> set xs" using hd by (metis in_set_takeD set_sort)
  ultimately show False using no hd assms(3) [of "hd ?s"] by (metis leD)
qed

lemma evict_keeps_newest:
  assumes "r \<in> set (rows db)" and "0 < n"
    and "\<And>r'. r' \<in> set (rows db) \<Longrightarrow> rt_UserID r' = rt_UserID r \<Longrightarrow> r' \<noteq> r \<Longrightarrow> newest_key r < newest_key r'"
  shows "r \<in> set (rows (evict_oldest (rt_UserID r) n db))"
proof -
  have "r \<in> set (newest (rt_UserID r) n db)"
    unfolding newest_def using assms by (intro minimum_taken) auto
  then show ?thesis using assms(1) by (auto simp: evict_oldest_def)
qed

lemma session_step_Inl [frame_rules]: "session_step sha256 op db = (Inl e, db') \<Longrightarrow> rows db' = rows db"
  by (cases op)
    (auto dest: Create_Inl_rows Rotate_Inl_rows
       simp: RefreshTokens_DeleteSession_def RefreshTokens_DeleteByUser_def exec_stmt_def split: if_splits)

lemma Create_capped:
  assumes "sessions_ok db" and "0 < maxSessions"
    and "RefreshTokens_Create sha256 ft now dbnow token maxSessions db = (Inr (), db')"
  shows "int (session_count (rt_UserID token) db') \<le> maxSessions"
proof -
  from assms(3) obtain db1 where ins: "insert_session (token\<lparr>rt_Token := hashToken sha256 (rt_Token token), rt_CreatedAt := now\<rparr>) db = (Inr (), db1)"
    and db': "db' = prune_sessions (rt_UserID token) dbnow maxSessions db1" by (rule Create_Inr)
  have "session_count (rt_UserID token) db' \<le> nat maxSessions"
    using assms(2) insert_session_ok [OF assms(1) ins]
    by (simp add: db' prune_sessions_def Let_def sessions_ok_def evict_count keys_ok_delete)
  with assms(2) show ?thesis by linarith
qed

lemma count_others:
  "filter (\<lambda>r. rt_UserID r \<noteq> u) (rows db') = filter (\<lambda>r. rt_UserID r \<noteq> u) (rows db) \<Longrightarrow> v \<noteq> u \<Longrightarrow>
    session_count v db' = session_count v db"
proof -
  assume eq: "filter (\<lambda>r. rt_UserID r \<noteq> u) (rows db') = filter (\<lambda>r. rt_UserID r \<noteq> u) (rows db)" and "v \<noteq> u"
  then have "filter (\<lambda>r. rt_UserID r = v) (rows d) = filter (\<lambda>r. rt_UserID r = v) (filter (\<lambda>r. rt_UserID r \<noteq> u) (rows d))" for d :: sessions
    by (auto intro: filter_cong)
  with eq show ?thesis unfolding session_count_def by metis
qed

lemma Create_others:
  assumes "RefreshTokens_Create sha256 ft now dbnow token maxSessions db = (Inr (), db')"
  shows "filter (\<lambda>r. rt_UserID r \<noteq> rt_UserID token) (rows db') = filter (\<lambda>r. rt_UserID r \<noteq> rt_UserID token) (rows db)"
  using assms by (auto elim!: Create_Inr simp: prune_others dest: insert_session_Inr(1))

lemma filter_unique_tok:
  assumes "distinct (map f xs)" and "r \<in> set xs"
  shows "length (filter (\<lambda>x. P x \<and> f x \<noteq> f r) xs) + (if P r then 1 else 0) = length (filter P xs)"
  using assms
proof (induction xs)
  case (Cons x xs)
  have "filter (\<lambda>y. P y \<and> f y \<noteq> f x) xs = filter P xs"
    using Cons.prems(1) by (intro filter_cong) (auto intro: rev_image_eqI)
  with Cons show ?case by auto
qed simp

text \<open>Exchanging a token for one of the same user keeps everybody's number of sessions.\<close>

lemma Rotate_count:
  assumes "sessions_ok db" and "RefreshTokens_Rotate sha256 ft now old nxt db = (Inr (), db')"
    and "r \<in> set (rows db)" and "rt_Token r = hashToken sha256 old" and "rt_UserID r = rt_UserID nxt"
  shows "session_count u db' = session_count u db"
  using filter_unique_tok [of rt_Token "rows db" r "\<lambda>x. rt_UserID x = u"] assms
    insert_session_Inr(1) [OF Rotate_Inr(2) [OF assms(2)]]
  by (auto simp: session_count_def sessions_ok_def conj_commute filter_filter)

lemma Delete_count:
  "session_count u (snd (RefreshTokens_DeleteSession sha256 ft v token db)) \<le> session_count u db"
  "session_count u (snd (RefreshTokens_DeleteByUser ft v db)) \<le> session_count u db"
  by (auto simp: session_count_def RefreshTokens_DeleteSession_def RefreshTokens_DeleteByUser_def exec_stmt_def
      filter_filter intro!: length_filter_mono)

lemma same_rows_count: "rows db' = rows db \<Longrightarrow> session_count u db' = session_count u db"
  by (simp add: session_count_def)

lemma Find_Inr: "RefreshTokens_Find sha256 ft token db = Inr rt \<Longrightarrow> rt \<in> set (rows db) \<and> rt_Token rt = hashToken sha256 token"
  by (auto simp: RefreshTokens_Find_def split: if_splits option.splits dest: find_SomeD)

subsection \<open>Properties\<close>

text \<open>
  After \<open>Create\<close> succeeded with a positive cap, the user has at most that many sessions,
  whatever the table held before.
\<close>
theorem sessions_capped:
  assumes "sessions_ok db" and "0 < maxSessions"
    and "RefreshTokens_Create sha256 ft now dbnow token maxSessions db = (Inr (), db')"
  shows "int (session_count (rt_UserID token) db') \<le> maxSessions"
  using assms by (rule Create_capped)

definition demo_session :: "uint \<Rightarrow> uint \<Rightarrow> string \<Rightarrow> time \<Rightarrow> RefreshToken" where
  "demo_session i u t c = \<lparr>rt_ID = i, rt_UserID = u, rt_Token = hashToken id t, rt_CreatedAt = c, rt_ExpiresAt = None\<rparr>"

definition demo_sessions :: sessions where
  "demo_sessions = \<lparr>rows = [demo_session 1 7 ''a'' 10, demo_session 2 8 ''b'' 20, demo_session 3 7 ''c'' 30], seq = 4\<rparr>"

definition demo_new :: "string \<Rightarrow> RefreshToken" where
  "demo_new t = \<lparr>rt_ID = 0, rt_UserID = 7, rt_Token = t, rt_CreatedAt = 0, rt_ExpiresAt = None\<rparr>"

lemma demo_sessions_ok: "sessions_ok demo_sessions"
  by code_simp

theorem sessions_capped_witness:
  "session_count 7 (snd (RefreshTokens_Create id (\<lambda>_. False) 40 40 (demo_new ''d'') 2 demo_sessions)) \<le> 2"
proof -
  have "fst (RefreshTokens_Create id (\<lambda>_. False) 40 40 (demo_new ''d'') 2 demo_sessions) = Inr ()"
    by code_simp
  then have "RefreshTokens_Create id (\<lambda>_. False) 40 40 (demo_new ''d'') 2 demo_sessions =
      (Inr (), snd (RefreshTokens_Create id (\<lambda>_. False) 40 40 (demo_new ''d'') 2 demo_sessions))"
    by (metis prod.collapse)
  from sessions_capped [OF demo_sessions_ok _ this] show ?thesis by (simp add: demo_new_def)
qed

text \<open>
  Eviction takes the oldest sessions of the user and nobody else's: after a successful
  \<open>Create\<close> the rows of other users are the same, and a session of the user that is gone
  either had expired or is no newer (creation time, then key) than every session kept.
\<close>
theorem sessions_evict_oldest:
  assumes "sessions_ok db"
    and "RefreshTokens_Create sha256 ft now dbnow token maxSessions db = (Inr (), db')"
  shows "filter (\<lambda>r. rt_UserID r \<noteq> rt_UserID token) (rows db') = filter (\<lambda>r. rt_UserID r \<noteq> rt_UserID token) (rows db)
    \<and> (\<forall>g k. g \<in> set (rows db) - set (rows db') \<and> k \<in> set (rows db') \<and> rt_UserID k = rt_UserID token \<longrightarrow>
          rt_UserID g = rt_UserID token \<and> (is_expired dbnow g \<or> newest_key k \<le> newest_key g))"
proof (intro conjI allI impI)
  from assms(2) obtain db1 where ins: "insert_session (token\<lparr>rt_Token := hashToken sha256 (rt_Token token), rt_CreatedAt := now\<rparr>) db = (Inr (), db1)"
    and db': "db' = prune_sessions (rt_UserID token) dbnow maxSessions db1" by (rule Create_Inr)
  show others: "filter (\<lambda>r. rt_UserID r \<noteq> rt_UserID token) (rows db') = filter (\<lambda>r. rt_UserID r \<noteq> rt_UserID token) (rows db)"
    using prune_others insert_session_Inr(1) [OF ins] by (simp add: db')
  fix g k
  assume gk: "g \<in> set (rows db) - set (rows db') \<and> k \<in> set (rows db') \<and> rt_UserID k = rt_UserID token"
  show u: "rt_UserID g = rt_UserID token"
    using gk arg_cong [OF others, of set] by (auto simp: set_eq_iff)
  let ?db2 = "delete_where (\<lambda>r. rt_UserID r = rt_UserID token \<and> is_expired dbnow r) db1"
  have "keys_ok rt_ID ?db2"
    using insert_session_ok [OF assms(1) ins] by (simp add: sessions_ok_def keys_ok_delete)
  moreover have "\<not> is_expired dbnow g \<Longrightarrow> g \<in> set (rows ?db2)"
    using gk insert_session_Inr(1) [OF ins] by simp
  ultimately show "is_expired dbnow g \<or> newest_key k \<le> newest_key g"
    using u gk evicted_oldest [of ?db2 k "rt_UserID token" "nat maxSessions" g]
    by (cases "maxSessions \<le> 0") (auto simp: db' prune_sessions_def Let_def)
qed

theorem sessions_evict_oldest_witness:
  "let db' = snd (RefreshTokens_Create id (\<lambda>_. False) 40 40 (demo_new ''d'') 2 demo_sessions) in
    map rt_ID (rows db') = [2, 3, 4] \<and>
    filter (\<lambda>r. rt_UserID r \<noteq> 7) (rows db') = filter (\<lambda>r. rt_UserID r \<noteq> 7) (rows demo_sessions)"
proof -
  let ?db' = "snd (RefreshTokens_Create id (\<lambda>_. False) 40 40 (demo_new ''d'') 2 demo_sessions)"
  have "fst (RefreshTokens_Create id (\<lambda>_. False) 40 40 (demo_new ''d'') 2 demo_sessions) = Inr ()"
    by code_simp
  then have "RefreshTokens_Create id (\<lambda>_. False) 40 40 (demo_new ''d'') 2 demo_sessions = (Inr (), ?db')"
    by (metis prod.collapse)
  note * = sessions_evict_oldest [OF demo_sessions_ok this]
  have "map rt_ID (rows ?db') = [2, 3, 4]" by code_simp
  with * show ?thesis by (simp add: demo_new_def Let_def)
qed

text \<open>
  C6. A refresh token is good for one exchange: after a successful \<open>Rotate\<close> of a token, no
  later \<open>Rotate\<close> of it succeeds, whatever calls of any clients come in between, as long as
  none of them issues a token with the same hash.
\<close>
theorem refresh_token_single_use:
  assumes "RefreshTokens_Rotate sha256 ft now old nxt db = (Inr (), db')"
    and "hashToken sha256 (rt_Token nxt) \<noteq> hashToken sha256 old"
    and "\<forall>op\<in>set ops. op_issues sha256 op \<noteq> Some (hashToken sha256 old)"
  shows "fst (RefreshTokens_Rotate sha256 ft' now' old nxt' (run_steps (session_step sha256) ops db')) \<noteq> Inr ()"
  using tokens.single_use [of sha256 "OpRotate ft now old nxt" _ db db' ops "OpRotate ft' now' old nxt'"] assms
  by simp

theorem refresh_token_single_use_witness:
  "fst (RefreshTokens_Rotate id (\<lambda>_. False) 50 ''a'' (demo_new ''e'')
     (run_steps (session_step id) [OpCreate (\<lambda>_. False) 45 45 (demo_new ''f'') 5]
       (snd (RefreshTokens_Rotate id (\<lambda>_. False) 40 ''a'' (demo_new ''d'') demo_sessions)))) \<noteq> Inr ()"
proof -
  have "fst (RefreshTokens_Rotate id (\<lambda>_. False) 40 ''a'' (demo_new ''d'') demo_sessions) = Inr ()"
    by code_simp
  then have *: "RefreshTokens_Rotate id (\<lambda>_. False) 40 ''a'' (demo_new ''d'') demo_sessions
      = (Inr (), snd (RefreshTokens_Rotate id (\<lambda>_. False) 40 ''a'' (demo_new ''d'') demo_sessions))"
    by (metis prod.collapse)
  have "hashToken id ''d'' \<noteq> hashToken id ''a''" "hashToken id ''f'' \<noteq> hashToken id ''a''"
    by code_simp+
  then show ?thesis
    by (intro refresh_token_single_use [OF *]) (simp_all add: demo_new_def)
qed

text \<open>
  Concurrent refreshes with one token: whatever order the database serves them in, when
  the token is live, the new tokens are fresh and no statement fails, exactly one succeeds,
  and it is the one served first; without these conditions at most one does.
\<close>
theorem refresh_race_one_winner:
  assumes "sessions_ok db" and "hashToken sha256 old \<in> live_keys db" and "reqs \<noteq> []"
    and "\<forall>(ft, now, nxt)\<in>set reqs. (\<forall>k<3. \<not> ft k) \<and> hashToken sha256 (rt_Token nxt) \<notin> live_keys db"
  shows "let res = step_results (session_step sha256) (map (\<lambda>(ft, now, nxt). OpRotate ft now old nxt) reqs) db
    in length (filter (\<lambda>r. r = Inr ()) res) = 1 \<and> hd res = Inr ()"
proof -
  let ?ops = "map (\<lambda>(ft, now, nxt). OpRotate ft now old nxt) reqs"
  have "op_quiet op \<and> op_consumes sha256 op = Some (hashToken sha256 old) \<and> set_option (op_issues sha256 op) \<inter> live_keys db = {}"
    if "op \<in> set ?ops" for op
    using that assms(4) by auto
  from tokens.one_winner [OF assms(1,2) _ this, of ?ops] assms(3) show ?thesis by (simp add: Let_def)
qed

theorem refresh_race_one_winner_witness:
  "length (filter (\<lambda>r. r = Inr ()) (step_results (session_step id)
      (map (\<lambda>(ft, now, nxt). OpRotate ft now ''a'' nxt)
        [(\<lambda>_. False, 40, demo_new ''d''), (\<lambda>_. False, 41, demo_new ''e''), (\<lambda>_. False, 41, demo_new ''f'')]) demo_sessions)) = 1"
proof -
  let ?reqs = "[(\<lambda>_. False, 40, demo_new ''d''), (\<lambda>_. False, 41, demo_new ''e''), (\<lambda>_. False, 41, demo_new ''f'')]"
  have a: "hashToken id ''a'' \<in> live_keys demo_sessions" by code_simp
  moreover have "hashToken id ''d'' \<notin> live_keys demo_sessions" "hashToken id ''e'' \<notin> live_keys demo_sessions"
    "hashToken id ''f'' \<notin> live_keys demo_sessions" by code_simp+
  ultimately have "\<forall>(ft, now, nxt)\<in>set ?reqs. (\<forall>k<3. \<not> ft k) \<and> hashToken id (rt_Token nxt) \<notin> live_keys demo_sessions"
    by (simp add: demo_new_def)
  from refresh_race_one_winner [OF demo_sessions_ok a _ this] show ?thesis by (simp add: Let_def del: step_results.simps list.map)
qed

text \<open>
  The session that was just opened is there: when no session of the user was created
  later than \<open>now\<close> and the new one has not expired, a successful \<open>Create\<close> leaves a session
  that \<open>Find\<close> returns for the token, with the user it was issued to, also when the cap
  evicted others.
\<close>
theorem session_created_is_found:
  assumes "sessions_ok db"
    and "RefreshTokens_Create sha256 ft now dbnow token maxSessions db = (Inr (), db')"
    and "\<forall>r\<in>set (rows db). rt_UserID r = rt_UserID token \<longrightarrow> rt_CreatedAt r \<le> now"
    and "\<not> is_expired dbnow token" and "\<not> ft' 0"
  shows "\<exists>rt. RefreshTokens_Find sha256 ft' (rt_Token token) db' = Inr rt \<and> rt_UserID rt = rt_UserID token"
proof -
  let ?stored = "token\<lparr>rt_Token := hashToken sha256 (rt_Token token), rt_CreatedAt := now\<rparr>"
  let ?r = "?stored\<lparr>rt_ID := seq db\<rparr>"
  from assms(2) obtain db1 where ins: "insert_session ?stored db = (Inr (), db1)"
    and db': "db' = prune_sessions (rt_UserID token) dbnow maxSessions db1" by (rule Create_Inr)
  let ?db2 = "delete_where (\<lambda>r. rt_UserID r = rt_UserID token \<and> is_expired dbnow r) db1"
  have r2: "?r \<in> set (rows ?db2)"
    using insert_session_Inr(1) [OF ins] assms(4) by (simp add: is_expired_def)
  have "newest_key ?r < newest_key r'" if "r' \<in> set (rows ?db2)" "rt_UserID r' = rt_UserID ?r" "r' \<noteq> ?r" for r'
  proof -
    have "r' \<in> set (rows db)"
      using that insert_session_Inr(1) [OF ins] by (auto split: if_splits)
    then have "rt_CreatedAt r' \<le> now" and "rt_ID r' < seq db"
      using assms(1,3) that(2) by (auto simp: sessions_ok_def keys_ok_def)
    then show ?thesis by (auto simp: newest_key_def)
  qed
  with r2 have "?r \<in> set (rows db')"
    using evict_keeps_newest [of ?r ?db2 "nat maxSessions"] by (auto simp: db' prune_sessions_def Let_def)
  moreover have "distinct (map rt_Token (rows db'))"
    using Create_ok [OF assms(1,2)] by (simp add: sessions_ok_def)
  ultimately have "List.find (\<lambda>r. rt_Token r = rt_Token ?r) (rows db') = Some ?r"
    by (intro find_distinct_key)
  with assms(5) show ?thesis by (simp add: RefreshTokens_Find_def)
qed

theorem session_created_is_found_witness:
  "\<exists>rt. RefreshTokens_Find id (\<lambda>_. False) ''d''
     (snd (RefreshTokens_Create id (\<lambda>_. False) 40 40 (demo_new ''d'') 1 demo_sessions)) = Inr rt \<and> rt_UserID rt = 7"
proof -
  have "fst (RefreshTokens_Create id (\<lambda>_. False) 40 40 (demo_new ''d'') 1 demo_sessions) = Inr ()"
    by code_simp
  then have *: "RefreshTokens_Create id (\<lambda>_. False) 40 40 (demo_new ''d'') 1 demo_sessions =
      (Inr (), snd (RefreshTokens_Create id (\<lambda>_. False) 40 40 (demo_new ''d'') 1 demo_sessions))"
    by (metis prod.collapse)
  have "\<forall>r\<in>set (rows demo_sessions). rt_CreatedAt r \<le> 40"
    by (simp add: demo_sessions_def demo_session_def)
  then show ?thesis
    using session_created_is_found [OF demo_sessions_ok *, of "\<lambda>_. False"] by (simp add: demo_new_def is_expired_def)
qed

text \<open>
  Every call of the repository is atomic and keeps the table's invariant: over any run
  keys and token hashes stay distinct, and a call that reports an error (a failed statement,
  a failed commit, a duplicate token, a token that is not there) leaves every row as it was.
\<close>
theorem session_calls_atomic:
  "(sessions_ok db \<longrightarrow> sessions_ok (run_steps (session_step sha256) ops db)) \<and>
   (session_step sha256 op db = (Inl e, db') \<longrightarrow> rows db' = rows db)"
  by (simp add: tokens.run_ok session_step_Inl)

theorem session_calls_atomic_witness:
  "sessions_ok (run_steps (session_step id) [OpRotate (\<lambda>_. False) 40 ''a'' (demo_new ''c''), OpDeleteByUser (\<lambda>_. False) 8] demo_sessions) \<and>
   rows (snd (session_step id (OpRotate (\<lambda>_. False) 40 ''a'' (demo_new ''c'')) demo_sessions)) = rows demo_sessions"
proof -
  have "fst (session_step id (OpRotate (\<lambda>_. False) 40 ''a'' (demo_new ''c'')) demo_sessions) = Inl ErrDuplicatedKey"
    by code_simp
  then have *: "session_step id (OpRotate (\<lambda>_. False) 40 ''a'' (demo_new ''c'')) demo_sessions =
      (Inl ErrDuplicatedKey, snd (session_step id (OpRotate (\<lambda>_. False) 40 ''a'' (demo_new ''c'')) demo_sessions))"
    by (metis prod.collapse)
  show ?thesis
    using session_calls_atomic [THEN conjunct1, rule_format, OF demo_sessions_ok]
      session_calls_atomic [THEN conjunct2, rule_format, OF *] by blast
qed

end
