(* ===== verification/AuthService.thy ===== *)
theory AuthService
  imports Users Sessions Jwt RateLimit
begin

section \<open>The HTTP handlers of auth-service (internal/delivery/http/handler.go)\<close>

text \<open>
  Every handler of \<open>AuthHandler\<close> and the routes with their middleware. The state is the
  database, the accounts and the sessions; a handler takes the handler's fields, the
  environment of one request (clocks, randomness, which statements fail) and the request, and
  returns the reply and the new state. Writing to the log is left out.
\<close>

record AuthHandler =
  ah_bcrypt :: Bcrypt
  ah_jwt :: Jwt
  ah_sha256 :: "string \<Rightarrow> string"
  ah_is_email :: "string \<Rightarrow> bool"  \<comment> \<open>the validator's \<open>email\<close> tag\<close>
  ah_oob :: "float64 \<Rightarrow> uint"  \<comment> \<open>\<open>uint(f)\<close> out of range\<close>
  ah_jwtSecret :: string
  ah_maxSessions :: int

record AuthEnv =
  ae_now :: time
  ae_dbnow :: time
  ae_salt :: nat
  ae_jti :: string
  ae_users_ft :: "nat \<Rightarrow> faults"
  ae_sess_ft :: "nat \<Rightarrow> faults"
  ae_db_up :: bool

record AuthState =
  as_users :: users
  as_sessions :: sessions

record UserResponse =
  ur_ID :: uint
  ur_Name :: string
  ur_Email :: string
  ur_Department :: string
  ur_Availability :: string
  ur_Role :: string

datatype auth_data =
    D_text string
  | D_health
  | D_tokens (d_access: string) (d_refresh: string)
  | D_user UserResponse
  | D_users "UserResponse list"

definition defaultMaxSessions :: int where
  "defaultMaxSessions = 5"

definition sessionCap :: "AuthHandler \<Rightarrow> int" where
  "sessionCap h = (if 0 < ah_maxSessions h then ah_maxSessions h else defaultMaxSessions)"

definition toUserResponse :: "User \<Rightarrow> UserResponse" where
  "toUserResponse u = \<lparr>ur_ID = us_ID u, ur_Name = us_Name u, ur_Email = us_Email u,
     ur_Department = us_Department u, ur_Availability = us_Availability u, ur_Role = us_Role u\<rparr>"

definition AuthHandler_HealthCheck :: "AuthEnv \<Rightarrow> AuthState \<Rightarrow> auth_data response \<times> AuthState" where
  "AuthHandler_HealthCheck env s =
     (if \<not> ae_db_up env then Error 503 ''database disconnected'' ''unavailable'' else Success D_health, s)"

definition AuthHandler_Healthz :: "AuthState \<Rightarrow> auth_data response \<times> AuthState" where
  "AuthHandler_Healthz s = (Success (D_text ''ok''), s)"

subsection \<open>Request bodies\<close>

text \<open>\<open>ShouldBindJSON\<close> for each request struct: decode, then the binding tags.\<close>

definition str_field :: "string \<Rightarrow> (string \<times> raw) list \<Rightarrow> string option" where
  "str_field n kvs = field dec_string n [] kvs"

record RegisterRequest =
  rr_Name :: string
  rr_Email :: string
  rr_Department :: string
  rr_Password :: string

definition bind_RegisterRequest :: "AuthHandler \<Rightarrow> raw option \<Rightarrow> RegisterRequest option" where
  "bind_RegisterRequest h body =
     (case members body of None \<Rightarrow> None | Some kvs \<Rightarrow>
       (case (str_field ''name'' kvs, str_field ''email'' kvs, str_field ''department'' kvs, str_field ''password'' kvs) of
          (Some name, Some email, Some department, Some password) \<Rightarrow>
            if required name \<and> RuneCount name \<ge> 1 \<and> RuneCount name \<le> 100 \<and>
               required email \<and> ah_is_email h email \<and>
               required department \<and> RuneCount department \<le> 100 \<and>
               required password \<and> RuneCount password \<ge> 8 \<and> RuneCount password \<le> 72
            then Some \<lparr>rr_Name = name, rr_Email = email, rr_Department = department, rr_Password = password\<rparr>
            else None
        | _ \<Rightarrow> None))"

definition bind_LoginRequest :: "AuthHandler \<Rightarrow> raw option \<Rightarrow> (string \<times> string) option" where
  "bind_LoginRequest h body =
     (case members body of None \<Rightarrow> None | Some kvs \<Rightarrow>
       (case (str_field ''email'' kvs, str_field ''password'' kvs) of
          (Some email, Some password) \<Rightarrow>
            if required email \<and> ah_is_email h email \<and> required password \<and> RuneCount password \<le> 72
            then Some (email, password) else None
        | _ \<Rightarrow> None))"

definition bind_RefreshRequest :: "raw option \<Rightarrow> string option" where
  "bind_RefreshRequest body =
     (case members body of None \<Rightarrow> None | Some kvs \<Rightarrow>
       (case str_field ''refresh_token'' kvs of None \<Rightarrow> None
        | Some tok \<Rightarrow> if required tok then Some tok else None))"

text \<open>
  The body of a logout is bound without looking at the error: members of another type are
  skipped, and anything that is not an object counts as no token.
\<close>

definition lenient_string :: "raw \<Rightarrow> string \<Rightarrow> string option" where
  "lenient_string v acc = (case dec_string v acc of None \<Rightarrow> Some acc | Some s \<Rightarrow> Some s)"

definition bind_LogoutRequest :: "raw option \<Rightarrow> string" where
  "bind_LogoutRequest body =
     (case members body of None \<Rightarrow> [] | Some kvs \<Rightarrow>
       (case field lenient_string ''refresh_token'' [] kvs of None \<Rightarrow> [] | Some tok \<Rightarrow> tok))"

definition bind_CreateStaffRequest :: "AuthHandler \<Rightarrow> raw option \<Rightarrow> (RegisterRequest \<times> string) option" where
  "bind_CreateStaffRequest h body =
     (case members body of None \<Rightarrow> None | Some kvs \<Rightarrow>
       (case (str_field ''name'' kvs, str_field ''email'' kvs, str_field ''department'' kvs, str_field ''password'' kvs,
              str_field ''role'' kvs) of
          (Some name, Some email, Some department, Some password, Some role) \<Rightarrow>
            if RuneCount name \<le> 100 \<and> required email \<and> ah_is_email h email \<and> RuneCount department \<le> 100 \<and>
               required password \<and> RuneCount password \<ge> 8 \<and> RuneCount password \<le> 72 \<and> required role
            then Some (\<lparr>rr_Name = name, rr_Email = email, rr_Department = department, rr_Password = password\<rparr>, role)
            else None
        | _ \<Rightarrow> None))"

definition bind_ChangePasswordRequest :: "raw option \<Rightarrow> (string \<times> string) option" where
  "bind_ChangePasswordRequest body =
     (case members body of None \<Rightarrow> None | Some kvs \<Rightarrow>
       (case (str_field ''old_password'' kvs, str_field ''new_password'' kvs) of
          (Some old, Some new) \<Rightarrow>
            if required old \<and> required new \<and> RuneCount new \<ge> 8 \<and> RuneCount new \<le> 72 then Some (old, new) else None
        | _ \<Rightarrow> None))"

definition bind_UpdateProfileRequest :: "raw option \<Rightarrow> (string \<times> string) option" where
  "bind_UpdateProfileRequest body =
     (case members body of None \<Rightarrow> None | Some kvs \<Rightarrow>
       (case (str_field ''name'' kvs, str_field ''department'' kvs) of
          (Some name, Some department) \<Rightarrow>
            if required name \<and> RuneCount name \<ge> 1 \<and> RuneCount name \<le> 100 \<and> RuneCount department \<le> 100
            then Some (name, department) else None
        | _ \<Rightarrow> None))"

definition bind_UpdateAvailabilityRequest :: "raw option \<Rightarrow> string option" where
  "bind_UpdateAvailabilityRequest body =
     (case members body of None \<Rightarrow> None | Some kvs \<Rightarrow>
       (case str_field ''availability'' kvs of None \<Rightarrow> None
        | Some a \<Rightarrow> if required a then Some a else None))"

subsection \<open>Tokens and sessions\<close>

definition accessTokenTTL :: duration where
  "accessTokenTTL = 2 * hour"

definition refreshTokenTTL :: duration where
  "refreshTokenTTL = 7 * 24 * hour"

definition access_claims :: "AuthEnv \<Rightarrow> uint \<Rightarrow> string \<Rightarrow> token_claims" where
  "access_claims env userID role =
     \<lparr>tc_user_id = userID, tc_role = role, tc_exp = (ae_now env + accessTokenTTL) div second, tc_jti = None\<rparr>"

definition refresh_claims :: "AuthEnv \<Rightarrow> uint \<Rightarrow> string \<Rightarrow> token_claims" where
  "refresh_claims env userID role =
     \<lparr>tc_user_id = userID, tc_role = role, tc_exp = (ae_now env + refreshTokenTTL) div second, tc_jti = Some (ae_jti env)\<rparr>"

definition signTokens :: "AuthHandler \<Rightarrow> AuthEnv \<Rightarrow> uint \<Rightarrow> string \<Rightarrow> (string \<times> string \<times> time) option" where
  "signTokens h env userID role =
     (case jwt_Sign (ah_jwt h) (ah_jwtSecret h) (access_claims env userID role) of
        None \<Rightarrow> None
      | Some access \<Rightarrow>
          (case jwt_Sign (ah_jwt h) (ah_jwtSecret h) (refresh_claims env userID role) of
             None \<Rightarrow> None
           | Some refresh \<Rightarrow> Some (access, refresh, ae_now env + refreshTokenTTL)))"

definition session_record :: "uint \<Rightarrow> string \<Rightarrow> time \<Rightarrow> RefreshToken" where
  "session_record userID refresh refreshExp =
     \<lparr>rt_ID = 0, rt_UserID = userID, rt_Token = refresh, rt_CreatedAt = 0, rt_ExpiresAt = Some refreshExp\<rparr>"

definition issueSession :: "AuthHandler \<Rightarrow> AuthEnv \<Rightarrow> uint \<Rightarrow> string \<Rightarrow> sessions \<Rightarrow> (sessions, string \<times> string) result" where
  "issueSession h env userID role db =
     (case signTokens h env userID role of
        None \<Rightarrow> (Inl ErrSign, db)
      | Some (access, refresh, refreshExp) \<Rightarrow>
          and_then (RefreshTokens_Create (ah_sha256 h) (ae_sess_ft env 0) (ae_now env) (ae_dbnow env)
                      (session_record userID refresh refreshExp) (sessionCap h) db)
            (\<lambda>_ db. (Inr (access, refresh), db)))"

definition rotateSession ::
  "AuthHandler \<Rightarrow> AuthEnv \<Rightarrow> string \<Rightarrow> uint \<Rightarrow> string \<Rightarrow> sessions \<Rightarrow> (sessions, string \<times> string) result" where
  "rotateSession h env oldRefresh userID role db =
     (case signTokens h env userID role of
        None \<Rightarrow> (Inl ErrSign, db)
      | Some (access, refresh, refreshExp) \<Rightarrow>
          and_then (RefreshTokens_Rotate (ah_sha256 h) (ae_sess_ft env 1) (ae_now env) oldRefresh
                      (session_record userID refresh refreshExp) db)
            (\<lambda>_ db. (Inr (access, refresh), db)))"

subsection \<open>The handlers\<close>

definition caller_id :: "request \<Rightarrow> uint option" where
  "caller_id r = (let userIDStr = GetHeader ''X-User-ID'' r
     in if userIDStr = [] then None else ParseUint userIDStr)"

abbreviation unauthorized :: "auth_data response" where
  "unauthorized \<equiv> Error 401 ''unauthorized'' ''unauthorized''"

abbreviation invalid_input :: "auth_data response" where
  "invalid_input \<equiv> Error 400 ''invalid input'' ''bad_request''"

definition AuthHandler_Register :: "AuthHandler \<Rightarrow> AuthEnv \<Rightarrow> request \<Rightarrow> AuthState \<Rightarrow> auth_data response \<times> AuthState" where
  "AuthHandler_Register h env r s =
     (case bind_RegisterRequest h (rq_body r) of
        None \<Rightarrow> (invalid_input, s)
      | Some req \<Rightarrow>
          (case AuthUsecase_Register (ah_bcrypt h) userRepository (ae_salt env) (ae_users_ft env)
                  (rr_Name req) (rr_Email req) (rr_Password req) (rr_Department req) ''user'' (as_users s) of
             (Inl e, db) \<Rightarrow>
               (if e = ErrEmailTaken then Error 409 ''email already registered'' ''conflict''
                else Error 500 ''failed to register'' ''internal_error'', s\<lparr>as_users := db\<rparr>)
           | (Inr _, db) \<Rightarrow> (Success (D_text ''registered''), s\<lparr>as_users := db\<rparr>)))"

definition AuthHandler_Login :: "AuthHandler \<Rightarrow> AuthEnv \<Rightarrow> request \<Rightarrow> AuthState \<Rightarrow> auth_data response \<times> AuthState" where
  "AuthHandler_Login h env r s =
     (case bind_LoginRequest h (rq_body r) of
        None \<Rightarrow> (invalid_input, s)
      | Some (email, password) \<Rightarrow>
          (case AuthUsecase_Login (ah_bcrypt h) userRepository (ae_users_ft env) email password (as_users s) of
             Inl e \<Rightarrow> (Error 401 ''invalid credentials'' ''unauthorized'', s)
           | Inr user \<Rightarrow>
               (case issueSession h env (us_ID user) (us_Role user) (as_sessions s) of
                  (Inl e, db) \<Rightarrow> (Error 500 ''failed to process session'' ''internal_error'', s\<lparr>as_sessions := db\<rparr>)
                | (Inr (access, refresh), db) \<Rightarrow> (Success (D_tokens access refresh), s\<lparr>as_sessions := db\<rparr>))))"

definition AuthHandler_Refresh :: "AuthHandler \<Rightarrow> AuthEnv \<Rightarrow> request \<Rightarrow> AuthState \<Rightarrow> auth_data response \<times> AuthState" where
  "AuthHandler_Refresh h env r s =
     (case bind_RefreshRequest (rq_body r) of
        None \<Rightarrow> (invalid_input, s)
      | Some tok \<Rightarrow>
     (case RefreshTokens_Find (ah_sha256 h) (ae_sess_ft env 0) tok (as_sessions s) of
        Inl e \<Rightarrow> (Error 401 ''invalid refresh token'' ''unauthorized'', s)
      | Inr rt \<Rightarrow>
     (case jwt_Parse (ah_jwt h) (ae_now env) (keyfunc (ah_jwtSecret h)) tok of
        None \<Rightarrow> (Error 401 ''expired refresh token'' ''unauthorized'', s)
      | Some token \<Rightarrow>
          if \<not> tk_Valid token then (Error 401 ''expired refresh token'' ''unauthorized'', s)
          else (case tk_Claims token of
                  None \<Rightarrow> (Error 401 ''invalid refresh token'' ''unauthorized'', s)
                | Some claims \<Rightarrow>
                    (case claim ''user_id'' claims of
                       JNum userIDClaim \<Rightarrow>
                         let userID = uint_of_f64 (ah_oob h) userIDClaim;
                             role = (case claim ''role'' claims of JStr x \<Rightarrow> x | _ \<Rightarrow> [])
                         in if rt_UserID rt \<noteq> userID then (Error 401 ''invalid refresh token'' ''unauthorized'', s)
                            else (case rotateSession h env tok userID role (as_sessions s) of
                                    (Inl e, db) \<Rightarrow>
                                      (if e = ErrTokenNotFound then Error 401 ''invalid refresh token'' ''unauthorized''
                                       else Error 500 ''failed to refresh session'' ''internal_error'', s\<lparr>as_sessions := db\<rparr>)
                                  | (Inr (access, refresh), db) \<Rightarrow> (Success (D_tokens access refresh), s\<lparr>as_sessions := db\<rparr>))
                     | _ \<Rightarrow> (Error 401 ''invalid refresh token'' ''unauthorized'', s))))))"

definition AuthHandler_Logout :: "AuthHandler \<Rightarrow> AuthEnv \<Rightarrow> request \<Rightarrow> AuthState \<Rightarrow> auth_data response \<times> AuthState" where
  "AuthHandler_Logout h env r s =
     (let userIDStr = GetHeader ''X-User-ID'' r
      in if userIDStr = [] then (unauthorized, s)
         else case ParseUint userIDStr of
                None \<Rightarrow> (Error 400 ''invalid user id format'' ''bad_request'', s)
              | Some userID \<Rightarrow>
                  let tok = bind_LogoutRequest (rq_body r);
                      res = (if tok \<noteq> [] then RefreshTokens_DeleteSession (ah_sha256 h) (ae_sess_ft env 0) userID tok (as_sessions s)
                             else RefreshTokens_DeleteByUser (ae_sess_ft env 0) userID (as_sessions s))
                  in (case fst res of
                        Inl e \<Rightarrow> Error 500 ''failed logout'' ''internal_error''
                      | Inr _ \<Rightarrow> Success (D_text ''logged out''), s\<lparr>as_sessions := snd res\<rparr>))"

definition AuthHandler_CreateStaff :: "AuthHandler \<Rightarrow> AuthEnv \<Rightarrow> request \<Rightarrow> AuthState \<Rightarrow> auth_data response \<times> AuthState" where
  "AuthHandler_CreateStaff h env r s =
     (case bind_CreateStaffRequest h (rq_body r) of
        None \<Rightarrow> (invalid_input, s)
      | Some (req, role) \<Rightarrow>
          if role \<noteq> ''agent'' \<and> role \<noteq> ''admin'' then (Error 400 ''role must be agent or admin'' ''bad_request'', s)
          else (case AuthUsecase_Register (ah_bcrypt h) userRepository (ae_salt env) (ae_users_ft env)
                       (rr_Name req) (rr_Email req) (rr_Password req) (rr_Department req) role (as_users s) of
                  (Inl e, db) \<Rightarrow>
                    (if e = ErrEmailTaken then Error 409 ''email already registered'' ''conflict''
                     else Error 500 ''failed to create staff account'' ''internal_error'', s\<lparr>as_users := db\<rparr>)
                | (Inr _, db) \<Rightarrow> (Success (D_text ''staff account created''), s\<lparr>as_users := db\<rparr>)))"

definition AuthHandler_Me :: "AuthEnv \<Rightarrow> request \<Rightarrow> AuthState \<Rightarrow> auth_data response \<times> AuthState" where
  "AuthHandler_Me env r s =
     (case caller_id r of
        None \<Rightarrow> (unauthorized, s)
      | Some userID \<Rightarrow>
          (case AuthUsecase_GetByID userRepository (ae_users_ft env) userID (as_users s) of
             Inl e \<Rightarrow> (Error 404 ''user not found'' ''not_found'', s)
           | Inr user \<Rightarrow> (Success (D_user (toUserResponse user)), s)))"

definition AuthHandler_ChangePassword :: "AuthHandler \<Rightarrow> AuthEnv \<Rightarrow> request \<Rightarrow> AuthState \<Rightarrow> auth_data response \<times> AuthState" where
  "AuthHandler_ChangePassword h env r s =
     (case caller_id r of
        None \<Rightarrow> (unauthorized, s)
      | Some userID \<Rightarrow>
     (case bind_ChangePasswordRequest (rq_body r) of
        None \<Rightarrow> (invalid_input, s)
      | Some (old, new) \<Rightarrow>
          (case AuthUsecase_ChangePassword (ah_bcrypt h) userRepository (ae_salt env) (ae_users_ft env) userID old new (as_users s) of
             (Inl e, db) \<Rightarrow>
               (if e = ErrWrongPassword then Error 401 ''wrong password'' ''unauthorized''
                else Error 500 ''failed to change password'' ''internal_error'', s\<lparr>as_users := db\<rparr>)
           | (Inr _, db) \<Rightarrow>
               (Success (D_text ''password changed''),
                s\<lparr>as_users := db, as_sessions := snd (RefreshTokens_DeleteByUser (ae_sess_ft env 0) userID (as_sessions s))\<rparr>))))"

definition AuthHandler_UpdateProfile :: "AuthEnv \<Rightarrow> request \<Rightarrow> AuthState \<Rightarrow> auth_data response \<times> AuthState" where
  "AuthHandler_UpdateProfile env r s =
     (case caller_id r of
        None \<Rightarrow> (unauthorized, s)
      | Some userID \<Rightarrow>
     (case bind_UpdateProfileRequest (rq_body r) of
        None \<Rightarrow> (invalid_input, s)
      | Some (name, department) \<Rightarrow>
          (case AuthUsecase_UpdateProfile userRepository (ae_users_ft env) userID name department (as_users s) of
             (Inl e, db) \<Rightarrow> (Error 500 ''failed to update profile'' ''internal_error'', s\<lparr>as_users := db\<rparr>)
           | (Inr user, db) \<Rightarrow> (Success (D_user (toUserResponse user)), s\<lparr>as_users := db\<rparr>))))"

definition AuthHandler_UpdateAvailability :: "AuthEnv \<Rightarrow> request \<Rightarrow> AuthState \<Rightarrow> auth_data response \<times> AuthState" where
  "AuthHandler_UpdateAvailability env r s =
     (case caller_id r of
        None \<Rightarrow> (unauthorized, s)
      | Some userID \<Rightarrow>
     (case bind_UpdateAvailabilityRequest (rq_body r) of
        None \<Rightarrow> (invalid_input, s)
      | Some availability \<Rightarrow>
          (case AuthUsecase_UpdateAvailability userRepository (ae_users_ft env) userID availability (as_users s) of
             (Inl e, db) \<Rightarrow>
               (if e = ErrInvalidAvailability then Error 400 ''invalid availability value'' ''bad_request''
                else Error 500 ''failed to update availability'' ''internal_error'', s\<lparr>as_users := db\<rparr>)
           | (Inr user, db) \<Rightarrow> (Success (D_user (toUserResponse user)), s\<lparr>as_users := db\<rparr>))))"

definition AuthHandler_ListAgents :: "AuthEnv \<Rightarrow> AuthState \<Rightarrow> auth_data response \<times> AuthState" where
  "AuthHandler_ListAgents env s =
     (case AuthUsecase_ListByRole userRepository (ae_users_ft env) ''agent'' (as_users s) of
        Inl e \<Rightarrow> (Error 500 ''failed to list agents'' ''internal_error'', s)
      | Inr us \<Rightarrow> (Success (D_users (map toUserResponse us)), s))"

subsection \<open>Routes\<close>

text \<open>
  \<open>RegisterRoutes\<close>: the handler of a route behind its middleware, in the order gin runs them. A
  path or method without a route gets gin's 404.
\<close>

record AuthServer =
  av_state :: AuthState
  av_limiter :: Limiter

definition after :: "'d response option \<Rightarrow> (AuthState \<Rightarrow> 'd response \<times> AuthState) \<Rightarrow> AuthServer \<Rightarrow> 'd response \<times> AuthServer" where
  "after refused handler srv =
     (case refused of
        Some reply \<Rightarrow> (reply, srv)
      | None \<Rightarrow> (case handler (av_state srv) of (reply, s) \<Rightarrow> (reply, srv\<lparr>av_state := s\<rparr>)))"

definition limited :: "bool \<Rightarrow> AuthEnv \<Rightarrow> request \<Rightarrow> (AuthState \<Rightarrow> 'd response \<times> AuthState) \<Rightarrow> AuthServer \<Rightarrow> 'd response \<times> AuthServer" where
  "limited redis_down env r handler srv =
     (case RateLimitMiddleware redis_down (ae_now env) r (av_limiter srv) of
        (refused, rl) \<Rightarrow> after refused handler (srv\<lparr>av_limiter := rl\<rparr>))"

definition internalOnly :: "string \<Rightarrow> request \<Rightarrow> ('s \<Rightarrow> 'd response \<times> 's) \<Rightarrow> 's \<Rightarrow> 'd response \<times> 's" where
  "internalOnly secret r chain srv =
     (case InternalOnlyMiddleware secret r of Some reply \<Rightarrow> (reply, srv) | None \<Rightarrow> chain srv)"

definition auth_RegisterRoutes ::
  "AuthHandler \<Rightarrow> string \<Rightarrow> bool \<Rightarrow> AuthEnv \<Rightarrow> request \<Rightarrow>
    ((string \<times> string) \<times> (AuthServer \<Rightarrow> auth_data response \<times> AuthServer)) list" where
  "auth_RegisterRoutes h internalSecret redis_down env r =
     [((''GET'', ''/health''), after None (AuthHandler_HealthCheck env)),
      ((''GET'', ''/healthz''), after None AuthHandler_Healthz),
      ((''POST'', ''/register''), internalOnly internalSecret r (limited redis_down env r (AuthHandler_Register h env r))),
      ((''POST'', ''/login''), internalOnly internalSecret r (limited redis_down env r (AuthHandler_Login h env r))),
      ((''POST'', ''/refresh''), internalOnly internalSecret r (limited redis_down env r (AuthHandler_Refresh h env r))),
      ((''POST'', ''/logout''), internalOnly internalSecret r (after None (AuthHandler_Logout h env r))),
      ((''GET'', ''/me''), internalOnly internalSecret r (after None (AuthHandler_Me env r))),
      ((''PATCH'', ''/me''), internalOnly internalSecret r (after None (AuthHandler_UpdateProfile env r))),
      ((''PATCH'', ''/me/availability''), internalOnly internalSecret r (after None (AuthHandler_UpdateAvailability env r))),
      ((''POST'', ''/change-password''), internalOnly internalSecret r (after None (AuthHandler_ChangePassword h env r))),
      ((''POST'', ''/admin/staff''),
         internalOnly internalSecret r (after (RequireRole ''admin'' r) (AuthHandler_CreateStaff h env r))),
      ((''GET'', ''/admin/agents''),
         internalOnly internalSecret r (after (RequireRole ''admin'' r) (AuthHandler_ListAgents env)))]"

definition auth_handle ::
  "AuthHandler \<Rightarrow> string \<Rightarrow> bool \<Rightarrow> AuthEnv \<Rightarrow> request \<Rightarrow> AuthServer \<Rightarrow> auth_data response \<times> AuthServer" where
  "auth_handle h internalSecret redis_down env r srv =
     (case map_of (auth_RegisterRoutes h internalSecret redis_down env r) (rq_method r, rq_path r) of
        None \<Rightarrow> (Error 404 ''404 page not found'' [], srv)
      | Some chain \<Rightarrow> chain srv)"

subsection \<open>What a request can do\<close>

text \<open>
  A request leaves the state alone, or it carries the internal secret and its effect is that
  of one handler; \<open>CreateStaff\<close> only runs for an administrator.
\<close>

inductive auth_effect :: "AuthHandler \<Rightarrow> AuthEnv \<Rightarrow> request \<Rightarrow> AuthState \<Rightarrow> AuthState \<Rightarrow> bool" for h env r s where
  "auth_effect h env r s s"
| "auth_effect h env r s (snd (AuthHandler_Register h env r s))"
| "auth_effect h env r s (snd (AuthHandler_Login h env r s))"
| "auth_effect h env r s (snd (AuthHandler_Refresh h env r s))"
| "auth_effect h env r s (snd (AuthHandler_Logout h env r s))"
| "auth_effect h env r s (snd (AuthHandler_ChangePassword h env r s))"
| "auth_effect h env r s (snd (AuthHandler_UpdateProfile env r s))"
| "auth_effect h env r s (snd (AuthHandler_UpdateAvailability env r s))"
| "GetHeader ''X-User-ROLE'' r = ''admin'' \<Longrightarrow> rq_path r = ''/admin/staff'' \<Longrightarrow> auth_effect h env r s (snd (AuthHandler_CreateStaff h env r s))"

lemma read_only_handlers [simp]:
  "snd (AuthHandler_HealthCheck env s) = s" "snd (AuthHandler_Healthz s) = s"
  "snd (AuthHandler_Me env r s) = s" "snd (AuthHandler_ListAgents env s) = s"
  by (simp_all add: AuthHandler_HealthCheck_def AuthHandler_Healthz_def AuthHandler_Me_def AuthHandler_ListAgents_def
      split: option.split sum.split)

definition effect_of ::
  "AuthHandler \<Rightarrow> AuthEnv \<Rightarrow> request \<Rightarrow> bool \<Rightarrow> (AuthServer \<Rightarrow> auth_data response \<times> AuthServer) \<Rightarrow> bool" where
  "effect_of h env r internal chain \<longleftrightarrow> (\<forall>srv. auth_effect h env r (av_state srv) (av_state (snd (chain srv))) \<and>
     (internal \<or> av_state (snd (chain srv)) = av_state srv))"

lemma after_state: "av_state (snd (after refused f srv)) = (if refused = None then snd (f (av_state srv)) else av_state srv)"
  by (simp add: after_def split: option.split prod.split)

lemma limited_state: "av_state (snd (limited rd env r f srv)) \<in> {av_state srv, snd (f (av_state srv))}"
  by (simp add: limited_def after_state split: prod.split)

lemma after_effect:
  "(\<And>s. refused = None \<Longrightarrow> auth_effect h env r s (snd (f s))) \<Longrightarrow> effect_of h env r True (after refused f)"
  by (simp add: effect_of_def after_state auth_effect.intros(1))

lemma limited_effect:
  assumes "\<And>s. auth_effect h env r s (snd (f s))"
  shows "effect_of h env r True (limited rd env r f)"
  unfolding effect_of_def
proof (intro allI conjI)
  fix srv show "auth_effect h env r (av_state srv) (av_state (snd (limited rd env r f srv)))"
    using limited_state [of rd env r f srv] assms [of "av_state srv"] auth_effect.intros(1) [of h env r "av_state srv"]
    by auto
qed simp

lemma internalOnly_effect:
  "effect_of h env r True chain \<Longrightarrow>
    effect_of h env r (InternalOnlyMiddleware secret r = (None :: auth_data response option)) (internalOnly secret r chain)"
  by (auto simp: effect_of_def internalOnly_def intro: auth_effect.intros(1) split: option.split)

lemma health_effect:
  "effect_of h env r b (after None (AuthHandler_HealthCheck env))" "effect_of h env r b (after None AuthHandler_Healthz)"
  by (simp_all add: effect_of_def after_state auth_effect.intros(1))

lemma auth_handle_effect:
  "effect_of h env r (InternalOnlyMiddleware secret r = (None :: auth_data response option)) (auth_handle h secret rd env r)"
proof -
  have "effect_of h env r (InternalOnlyMiddleware secret r = (None :: auth_data response option)) chain"
    if "((rq_method r, rq_path r), chain) \<in> set (auth_RegisterRoutes h secret rd env r)" for chain
    using that unfolding auth_RegisterRoutes_def
    by (auto intro!: internalOnly_effect limited_effect after_effect health_effect
        intro: auth_effect.intros simp: RequireRole_pass)
  then show ?thesis
    unfolding effect_of_def auth_handle_def
    by (auto split: option.split intro: auth_effect.intros(1) dest!: map_of_SomeD)
qed

subsection \<open>The invariant of the service\<close>

definition auth_ok :: "AuthHandler \<Rightarrow> AuthState \<Rightarrow> bool" where
  "auth_ok h s \<longleftrightarrow> users_ok (as_users s) \<and> sessions_ok (as_sessions s) \<and>
     (\<forall>u. int (session_count u (as_sessions s)) \<le> sessionCap h)"

lemma sessionCap_pos: "0 < sessionCap h"
  by (simp add: sessionCap_def defaultMaxSessions_def)

lemma issueSession_cases:
  assumes "issueSession h env userID role db = (z, db')"
  obtains (err) e where "z = Inl e" and "rows db' = rows db" and "seq db \<le> seq db'"
  | (ok) access refresh where "z = Inr (access, refresh)"
      and "jwt_Sign (ah_jwt h) (ah_jwtSecret h) (access_claims env userID role) = Some access"
      and "jwt_Sign (ah_jwt h) (ah_jwtSecret h) (refresh_claims env userID role) = Some refresh"
      and "RefreshTokens_Create (ah_sha256 h) (ae_sess_ft env 0) (ae_now env) (ae_dbnow env)
             (session_record userID refresh (ae_now env + refreshTokenTTL)) (sessionCap h) db = (Inr (), db')"
proof (cases z)
  case (Inl e)
  with assms have "rows db' = rows db \<and> seq db \<le> seq db'"
    using Create_seq [of db "ah_sha256 h" "ae_sess_ft env 0" "ae_now env" "ae_dbnow env" _ "sessionCap h"]
    by (auto simp: issueSession_def signTokens_def and_then_eq_Inl split: option.splits dest: Create_Inl_rows)
      (metis snd_conv)
  with Inl show ?thesis by (intro err) auto
next
  case (Inr tokens)
  with assms show ?thesis
    by (intro ok [of "fst tokens" "snd tokens"]) (auto simp: issueSession_def signTokens_def and_then_eq_Inr split: option.splits)
qed

lemma rotateSession_cases:
  assumes "rotateSession h env old userID role db = (z, db')"
  obtains (err) e where "z = Inl e" and "rows db' = rows db" and "seq db \<le> seq db'"
  | (ok) access refresh where "z = Inr (access, refresh)"
      and "jwt_Sign (ah_jwt h) (ah_jwtSecret h) (access_claims env userID role) = Some access"
      and "jwt_Sign (ah_jwt h) (ah_jwtSecret h) (refresh_claims env userID role) = Some refresh"
      and "RefreshTokens_Rotate (ah_sha256 h) (ae_sess_ft env 1) (ae_now env) old
             (session_record userID refresh (ae_now env + refreshTokenTTL)) db = (Inr (), db')"
proof (cases z)
  case (Inl e)
  with assms have "rows db' = rows db \<and> seq db \<le> seq db'"
    using Rotate_seq [of db "ah_sha256 h" "ae_sess_ft env 1" "ae_now env" old]
    by (auto simp: rotateSession_def signTokens_def and_then_eq_Inl split: option.splits dest: Rotate_Inl_rows)
      (metis snd_conv)
  with Inl show ?thesis by (intro err) auto
next
  case (Inr tokens)
  with assms show ?thesis
    by (intro ok [of "fst tokens" "snd tokens"])
      (auto simp: rotateSession_def signTokens_def and_then_eq_Inr split: option.splits)
qed

text \<open>The two ways a login, a refresh can end.\<close>

lemma Login_cases:
  assumes "AuthHandler_Login h env r s = (reply, s')"
  obtains (err) c m e where "reply = Error c m e" and "as_users s' = as_users s"
      and "rows (as_sessions s') = rows (as_sessions s)" and "seq (as_sessions s) \<le> seq (as_sessions s')"
  | (ok) email password user access refresh where "bind_LoginRequest h (rq_body r) = Some (email, password)"
      and "AuthUsecase_Login (ah_bcrypt h) userRepository (ae_users_ft env) email password (as_users s) = Inr user"
      and "issueSession h env (us_ID user) (us_Role user) (as_sessions s) = (Inr (access, refresh), as_sessions s')"
      and "as_users s' = as_users s" and "reply = Success (D_tokens access refresh)"
proof (cases "bind_LoginRequest h (rq_body r)")
  case None
  with assms show ?thesis by (intro err) (auto simp: AuthHandler_Login_def)
next
  case (Some b)
  obtain email password where b: "b = (email, password)" by (cases b)
  show ?thesis
  proof (cases "AuthUsecase_Login (ah_bcrypt h) userRepository (ae_users_ft env) email password (as_users s)")
    case (Inl e)
    with assms Some b show ?thesis by (intro err) (auto simp: AuthHandler_Login_def)
  next
    case (Inr user)
    obtain z db where i: "issueSession h env (us_ID user) (us_Role user) (as_sessions s) = (z, db)"
      by (cases "issueSession h env (us_ID user) (us_Role user) (as_sessions s)")
    from i show ?thesis
    proof (cases rule: issueSession_cases)
      case (err e)
      with assms Some b Inr i show ?thesis by (intro that(1)) (auto simp: AuthHandler_Login_def)
    next
      case (ok access refresh)
      with assms Some b Inr i have "s' = s\<lparr>as_sessions := db\<rparr>" "reply = Success (D_tokens access refresh)"
        by (auto simp: AuthHandler_Login_def)
      with Some b Inr i ok(1) show ?thesis by (intro that(2)) auto
    qed
  qed
qed

lemma Refresh_cases:
  assumes "AuthHandler_Refresh h env r s = (reply, s')"
  obtains (err) c m e where "reply = Error c m e" and "as_users s' = as_users s"
      and "rows (as_sessions s') = rows (as_sessions s)" and "seq (as_sessions s) \<le> seq (as_sessions s')"
  | (ok) tok rt claims f access refresh where "bind_RefreshRequest (rq_body r) = Some tok"
      and "RefreshTokens_Find (ah_sha256 h) (ae_sess_ft env 0) tok (as_sessions s) = Inr rt"
      and "jwt_Parse (ah_jwt h) (ae_now env) (keyfunc (ah_jwtSecret h)) tok = Some \<lparr>tk_Valid = True, tk_Claims = Some claims\<rparr>"
      and "claim ''user_id'' claims = JNum f" and "rt_UserID rt = uint_of_f64 (ah_oob h) f"
      and "rotateSession h env tok (rt_UserID rt) (case claim ''role'' claims of JStr x \<Rightarrow> x | _ \<Rightarrow> []) (as_sessions s)
             = (Inr (access, refresh), as_sessions s')"
      and "as_users s' = as_users s" and "reply = Success (D_tokens access refresh)"
proof -
  let ?find = "\<lambda>tok. RefreshTokens_Find (ah_sha256 h) (ae_sess_ft env 0) tok (as_sessions s)"
  let ?parse = "\<lambda>tok. jwt_Parse (ah_jwt h) (ae_now env) (keyfunc (ah_jwtSecret h)) tok"
  let ?role = "\<lambda>claims. case claim ''role'' claims of JStr x \<Rightarrow> x | _ \<Rightarrow> []"
  note stop = that(1) and go = that(2) and def = assms [unfolded AuthHandler_Refresh_def]
  have late: ?thesis if "(\<exists>c m e. reply = Error c m e) \<and> as_users s' = as_users s \<and>
      rows (as_sessions s') = rows (as_sessions s) \<and> seq (as_sessions s) \<le> seq (as_sessions s')"
    using that stop by fastforce
  have early: ?thesis if "(\<exists>c m e. reply = Error c m e) \<and> s' = s"
    using that stop by fastforce
  show ?thesis
  proof (cases "bind_RefreshRequest (rq_body r)")
    case None
    with def show ?thesis by (intro early) auto
  next
    case tok: (Some tok)
    note def = def [unfolded tok, simplified]
    show ?thesis
    proof (cases "?find tok")
      case (Inl e)
      with def show ?thesis by (intro early) auto
    next
      case rt: (Inr rt)
      note def = def [unfolded rt, simplified]
      show ?thesis
      proof (cases "?parse tok")
        case None
        with def show ?thesis by (intro early) auto
      next
        case token: (Some token)
        note def = def [unfolded token, simplified]
        show ?thesis
        proof (cases "tk_Valid token \<and> (\<exists>claims f. tk_Claims token = Some claims \<and> claim ''user_id'' claims = JNum f
            \<and> rt_UserID rt = uint_of_f64 (ah_oob h) f)")
          case False
          with def show ?thesis
            by (intro early) (auto split: if_splits option.splits json.splits)
        next
          case True
          then obtain claims f where c: "token = \<lparr>tk_Valid = True, tk_Claims = Some claims\<rparr>"
            "claim ''user_id'' claims = JNum f" "rt_UserID rt = uint_of_f64 (ah_oob h) f"
            by (cases token) auto
          obtain z db where z: "rotateSession h env tok (rt_UserID rt) (?role claims) (as_sessions s) = (z, db)"
            by (cases "rotateSession h env tok (rt_UserID rt) (?role claims) (as_sessions s)")
          from z show ?thesis
          proof (cases rule: rotateSession_cases)
            case (err e)
            with def c z show ?thesis by (intro late) (auto simp: Let_def)
          next
            case (ok access refresh)
            with def c z have "s' = s\<lparr>as_sessions := db\<rparr>" "reply = Success (D_tokens access refresh)"
              by (simp_all add: Let_def)
            with tok rt token c z ok(1) show ?thesis by (intro go) auto
          qed
        qed
      qed
    qed
  qed
qed

lemma auth_ok_same:
  assumes "auth_ok h s" and "as_users s' = as_users s" and "rows (as_sessions s') = rows (as_sessions s)"
    and "seq (as_sessions s) \<le> seq (as_sessions s')"
  shows "auth_ok h s'"
  using assms sessions_ok_same_rows same_rows_count unfolding auth_ok_def by metis

lemma Login_ok:
  assumes ok: "auth_ok h s"
  shows "auth_ok h (snd (AuthHandler_Login h env r s))"
proof (cases "AuthHandler_Login h env r s")
  case (Pair reply s')
  from Pair have "auth_ok h s'"
  proof (cases rule: Login_cases)
    case err
    with ok auth_ok_same show ?thesis by blast
  next
    case (ok email password user access refresh)
    from ok(3) obtain rf where c: "RefreshTokens_Create (ah_sha256 h) (ae_sess_ft env 0) (ae_now env) (ae_dbnow env)
        (session_record (us_ID user) rf (ae_now env + refreshTokenTTL)) (sessionCap h) (as_sessions s) = (Inr (), as_sessions s')"
      by (cases rule: issueSession_cases) auto
    have *: "sessions_ok (as_sessions s)" using assms by (simp add: auth_ok_def)
    have "int (session_count v (as_sessions s')) \<le> sessionCap h" for v
      using Create_capped [OF * sessionCap_pos c] count_others [OF Create_others [OF c], of v] assms
      by (cases "v = us_ID user") (auto simp: session_record_def auth_ok_def)
    with Create_ok [OF * c] assms ok(4) show ?thesis by (simp add: auth_ok_def)
  qed
  with Pair show ?thesis by simp
qed

lemma Refresh_ok:
  assumes ok: "auth_ok h s"
  shows "auth_ok h (snd (AuthHandler_Refresh h env r s))"
proof (cases "AuthHandler_Refresh h env r s")
  case (Pair reply s')
  from Pair have "auth_ok h s'"
  proof (cases rule: Refresh_cases)
    case err
    with ok auth_ok_same show ?thesis by blast
  next
    case (ok tok rt claims f access refresh)
    from ok(6) obtain rf where c: "RefreshTokens_Rotate (ah_sha256 h) (ae_sess_ft env 1) (ae_now env) tok
        (session_record (rt_UserID rt) rf (ae_now env + refreshTokenTTL)) (as_sessions s) = (Inr (), as_sessions s')"
      by (cases rule: rotateSession_cases) auto
    have *: "sessions_ok (as_sessions s)" using assms by (simp add: auth_ok_def)
    have "session_count v (as_sessions s') = session_count v (as_sessions s)" for v
      using Rotate_count [OF * c, of rt v] Find_Inr [OF ok(2)] by (simp add: session_record_def)
    with Rotate_ok [OF * c] assms ok(7) show ?thesis by (simp add: auth_ok_def)
  qed
  with Pair show ?thesis by simp
qed

lemma auth_ok_deleted:
  assumes "auth_ok h s" and "users_ok db"
  shows "auth_ok h (s\<lparr>as_users := db, as_sessions := snd (RefreshTokens_DeleteByUser ft u (as_sessions s))\<rparr>)"
    and "auth_ok h (s\<lparr>as_sessions := snd (RefreshTokens_DeleteByUser ft u (as_sessions s))\<rparr>)"
    and "auth_ok h (s\<lparr>as_sessions := snd (RefreshTokens_DeleteSession sha ft u tok (as_sessions s))\<rparr>)"
  using assms Delete_ok Delete_count unfolding auth_ok_def by (auto, (meson of_nat_mono order_trans)+)

lemma auth_ok_users: "auth_ok h s \<Longrightarrow> users_ok db \<Longrightarrow> auth_ok h (s\<lparr>as_users := db\<rparr>)"
  by (simp add: auth_ok_def)

lemma Logout_ok: "auth_ok h s \<Longrightarrow> auth_ok h (snd (AuthHandler_Logout h env r s))"
  using auth_ok_deleted(2,3) [of h s "as_users s"]
  by (auto simp: AuthHandler_Logout_def Let_def auth_ok_def split: option.split)

text \<open>The accounts after each handler, in terms of the use cases.\<close>

lemma Register_users:
  "snd (AuthHandler_Register h env r s) = s \<or> (\<exists>name email password department. snd (AuthHandler_Register h env r s) =
     s\<lparr>as_users := snd (AuthUsecase_Register (ah_bcrypt h) userRepository (ae_salt env) (ae_users_ft env) name email password department ''user'' (as_users s))\<rparr>)"
  by (auto simp: AuthHandler_Register_def split: option.split prod.split sum.split) (metis snd_conv)+

lemma CreateStaff_users:
  "snd (AuthHandler_CreateStaff h env r s) = s \<or> (\<exists>name email password department role. role \<in> {''agent'', ''admin''} \<and>
     snd (AuthHandler_CreateStaff h env r s) =
     s\<lparr>as_users := snd (AuthUsecase_Register (ah_bcrypt h) userRepository (ae_salt env) (ae_users_ft env) name email password department role (as_users s))\<rparr>)"
  by (auto simp: AuthHandler_CreateStaff_def split: option.split prod.split sum.split) (metis snd_conv)+

lemma ChangePassword_users:
  "snd (AuthHandler_ChangePassword h env r s) = s \<or> (\<exists>i old new. caller_id r = Some i \<and>
     (let db = snd (AuthUsecase_ChangePassword (ah_bcrypt h) userRepository (ae_salt env) (ae_users_ft env) i old new (as_users s)) in
      snd (AuthHandler_ChangePassword h env r s) \<in> {s\<lparr>as_users := db\<rparr>,
        s\<lparr>as_users := db, as_sessions := snd (RefreshTokens_DeleteByUser (ae_sess_ft env 0) i (as_sessions s))\<rparr>}))"
  by (auto simp: AuthHandler_ChangePassword_def Let_def split: option.split prod.split sum.split) (metis snd_conv)+

lemma UpdateProfile_users:
  "snd (AuthHandler_UpdateProfile env r s) = s \<or> (\<exists>i name department. caller_id r = Some i \<and>
     snd (AuthHandler_UpdateProfile env r s) =
     s\<lparr>as_users := snd (AuthUsecase_UpdateProfile userRepository (ae_users_ft env) i name department (as_users s))\<rparr>)"
  by (auto simp: AuthHandler_UpdateProfile_def split: option.split prod.split sum.split) (metis snd_conv)+

lemma UpdateAvailability_users:
  "snd (AuthHandler_UpdateAvailability env r s) = s \<or> (\<exists>i a. caller_id r = Some i \<and>
     snd (AuthHandler_UpdateAvailability env r s) =
     s\<lparr>as_users := snd (AuthUsecase_UpdateAvailability userRepository (ae_users_ft env) i a (as_users s))\<rparr>)"
  by (auto simp: AuthHandler_UpdateAvailability_def split: option.split prod.split sum.split) (metis snd_conv)+

lemma auth_effect_ok: "auth_effect h env r s s' \<Longrightarrow> auth_ok h s \<Longrightarrow> auth_ok h s'"
proof (induction rule: auth_effect.induct)
  case 2
  then have "users_ok (as_users s)" by (simp add: auth_ok_def)
  with Register_users [of h env r s] 2 show ?case by (auto intro!: auth_ok_users users.register_ok)
next
  case 6
  then have "users_ok (as_users s)" by (simp add: auth_ok_def)
  with ChangePassword_users [of h env r s] 6 show ?case
    by (auto simp: Let_def intro!: auth_ok_users auth_ok_deleted users.usecases_ok)
next
  case 7
  then have "users_ok (as_users s)" by (simp add: auth_ok_def)
  with UpdateProfile_users [of env r s] 7 show ?case by (auto intro!: auth_ok_users users.usecases_ok)
next
  case 8
  then have "users_ok (as_users s)" by (simp add: auth_ok_def)
  with UpdateAvailability_users [of env r s] 8 show ?case by (auto intro!: auth_ok_users users.usecases_ok)
next
  case 9
  then have "users_ok (as_users s)" by (simp add: auth_ok_def)
  with CreateStaff_users [of h env r s] 9 show ?case by (auto intro!: auth_ok_users users.register_ok)
qed (simp_all add: Login_ok Refresh_ok Logout_ok)

lemma auth_users_unchanged [simp]:
  "as_users (snd (AuthHandler_Login h env r s)) = as_users s"
  "as_users (snd (AuthHandler_Refresh h env r s)) = as_users s"
  "as_users (snd (AuthHandler_Logout h env r s)) = as_users s"
proof -
  show "as_users (snd (AuthHandler_Login h env r s)) = as_users s"
    by (rule Login_cases [OF prod.collapse [symmetric]]) auto
  show "as_users (snd (AuthHandler_Refresh h env r s)) = as_users s"
    by (rule Refresh_cases [OF prod.collapse [symmetric]]) auto
qed (simp add: AuthHandler_Logout_def Let_def split: option.split)

text \<open>
  Every account stays, with its role, and a new one has one of the roles \<open>new\<close>.
\<close>

definition role_source :: "string set \<Rightarrow> users \<Rightarrow> users \<Rightarrow> bool" where
  "role_source new db db' \<longleftrightarrow> (\<forall>i.
     map_option us_Role (lookup_user db' i) = map_option us_Role (lookup_user db i) \<or>
     lookup_user db i = None \<and> (\<exists>u. lookup_user db' i = Some u \<and> us_Role u \<in> new))"

lemma role_source_same: "(\<And>i. map_option us_Role (lookup_user db' i) = map_option us_Role (lookup_user db i)) \<Longrightarrow> role_source new db db'"
  by (simp add: role_source_def)

lemma role_source_trans: "role_source new db db' \<Longrightarrow> role_source new db' db'' \<Longrightarrow> role_source new db db''"
proof (unfold role_source_def, intro allI, goal_cases)
  case (1 i)
  from 1(1) [rule_format, of i] 1(2) [rule_format, of i] show ?case
    by (cases "lookup_user db' i"; cases "lookup_user db'' i"; cases "lookup_user db i") auto
qed

lemma role_source_mono: "role_source new db db' \<Longrightarrow> new \<subseteq> new' \<Longrightarrow> role_source new' db db'"
  unfolding role_source_def by blast

lemma role_source_refl [simp]: "role_source new db db"
  by (simp add: role_source_same)

lemma role_source_register:
  assumes "users_ok db" and "role \<in> new"
  shows "role_source new db (snd (AuthUsecase_Register bc userRepository salt ft name email password department role db))"
proof (cases "AuthUsecase_Register bc userRepository salt ft name email password department role db")
  case (Pair z db')
  show ?thesis
  proof (cases z)
    case (Inl e)
    with Pair users.register_Inl show ?thesis by (auto intro!: role_source_same)
  next
    case (Inr x)
    with Pair have "AuthUsecase_Register bc userRepository salt ft name email password department role db = (Inr (), db')" by simp
    from users.register_Inr [OF assms(1) this] obtain i u where "lookup_user db i = None"
      "lookup_user db' = (lookup_user db)(i \<mapsto> u)" "us_Role u = role" by metis
    with Pair assms(2) show ?thesis by (auto simp: role_source_def)
  qed
qed

lemma auth_effect_roles:
  assumes "auth_effect h env r s s'" and ok: "users_ok (as_users s)"
  shows "role_source (if GetHeader ''X-User-ROLE'' r = ''admin'' \<and> rq_path r = ''/admin/staff'' then {''user'', ''agent'', ''admin''} else {''user''}) (as_users s) (as_users s')"
  using assms(1)
proof cases
  case 2
  with Register_users [of h env r s] ok show ?thesis
    by (auto intro!: role_source_register)
next
  case 6
  with ChangePassword_users [of h env r s] users.roles_kept(1) [OF ok] show ?thesis
    by (auto simp: Let_def intro!: role_source_same)
next
  case 7
  with UpdateProfile_users [of env r s] users.roles_kept(2) [OF ok] show ?thesis by (auto intro!: role_source_same)
next
  case 8
  with UpdateAvailability_users [of env r s] users.roles_kept(3) [OF ok] show ?thesis by (auto intro!: role_source_same)
next
  case 9
  with CreateStaff_users [of h env r s] ok show ?thesis
    by (auto intro!: role_source_register)
qed (auto intro!: role_source_same)

subsection \<open>Properties\<close>

type_synonym auth_request = "bool \<times> AuthEnv \<times> request"

definition auth_step :: "AuthHandler \<Rightarrow> string \<Rightarrow> auth_request \<Rightarrow> AuthServer \<Rightarrow> auth_data response \<times> AuthServer" where
  "auth_step h secret rq srv = (case rq of (rd, env, r) \<Rightarrow> auth_handle h secret rd env r srv)"

lemma auth_handle_effects:
  "auth_effect h env r (av_state srv) (av_state (snd (auth_handle h secret rd env r srv)))"
  "InternalOnlyMiddleware secret r \<noteq> (None :: auth_data response option) \<Longrightarrow>
    av_state (snd (auth_handle h secret rd env r srv)) = av_state srv"
  using auth_handle_effect [of h env r secret rd] by (auto simp: effect_of_def)

lemma auth_step_ok: "auth_ok h (av_state srv) \<Longrightarrow> auth_ok h (av_state (snd (auth_step h secret rq srv)))"
  by (simp add: auth_step_def auth_effect_ok [OF auth_handle_effects(1)] split: prod.split)

text \<open>A small service for the witnesses.\<close>

definition demo_tokens :: "(string \<times> token_claims) list" where
  "demo_tokens =
     [(''A1'', \<lparr>tc_user_id = 1, tc_role = ''agent'', tc_exp = 7200, tc_jti = None\<rparr>),
      (''R1'', \<lparr>tc_user_id = 1, tc_role = ''agent'', tc_exp = 604800, tc_jti = Some ''j1''\<rparr>),
      (''R2'', \<lparr>tc_user_id = 1, tc_role = ''agent'', tc_exp = 604800, tc_jti = Some ''j2''\<rparr>)]"

definition demo_auth :: AuthHandler where
  "demo_auth = \<lparr>ah_bcrypt = demo_bcrypt, ah_jwt = demo_jwt ''k'' demo_tokens, ah_sha256 = id, ah_is_email = (\<lambda>_. True),
     ah_oob = (\<lambda>_. 0), ah_jwtSecret = ''k'', ah_maxSessions = 2\<rparr>"

definition demo_env :: AuthEnv where
  "demo_env = \<lparr>ae_now = 0, ae_dbnow = 0, ae_salt = 0, ae_jti = ''j2'', ae_users_ft = (\<lambda>_ _. False),
     ae_sess_ft = (\<lambda>_ _. False), ae_db_up = True\<rparr>"

definition demo_state :: AuthState where
  "demo_state = \<lparr>as_users = demo_users, as_sessions = \<lparr>rows = [\<lparr>rt_ID = 1, rt_UserID = 1, rt_Token = hashToken id ''R1'',
     rt_CreatedAt = 0, rt_ExpiresAt = None\<rparr>], seq = 2\<rparr>\<rparr>"

definition demo_request :: "string \<Rightarrow> string \<Rightarrow> (string \<times> raw) list \<Rightarrow> request" where
  "demo_request meth path body = \<lparr>rq_method = meth, rq_path = path,
     rq_headers = (\<lambda>k. if k = ''X-Internal-Secret'' then ''s'' else if k = ''X-User-ID'' then ''1'' else []),
     rq_query = (\<lambda>_. []), rq_ip = ''10.0.0.1'', rq_body = Some (Raw_obj body)\<rparr>"

definition demo_server :: AuthServer where
  "demo_server = \<lparr>av_state = demo_state, av_limiter = InMemory (NewRateLimiter 1 5)\<rparr>"

lemma demo_state_ok: "auth_ok demo_auth demo_state"
  by (auto simp: auth_ok_def demo_state_def demo_users_ok sessions_ok_def keys_ok_def session_count_def sessionCap_def demo_auth_def)

lemma demo_auth_jwt: "jwt_ok (ah_jwt demo_auth)"
  unfolding demo_auth_def AuthHandler.simps by (rule demo_jwt_ok) (simp add: demo_tokens_def)

lemma step_pair: "fst p = y \<Longrightarrow> p = (y, snd p)"
  by (metis prod.collapse)

text \<open>
  C8. Whatever requests arrive, in any order and with any failures of the database, keys,
  addresses and token hashes stay unique, and no user ever holds more sessions than the cap.
\<close>
theorem auth_service_invariant:
  assumes "auth_ok h (av_state srv)"
  shows "auth_ok h (av_state (run_steps (auth_step h secret) rqs srv)) \<and>
    int (session_count u (as_sessions (av_state (run_steps (auth_step h secret) rqs srv)))) \<le> sessionCap h"
proof -
  have "auth_ok h (av_state (run_steps (auth_step h secret) rqs srv))"
    using assms auth_step_ok by (intro run_steps_invariant [where I = "\<lambda>srv. auth_ok h (av_state srv)"])
  then show ?thesis by (simp add: auth_ok_def)
qed

theorem auth_service_invariant_witness:
  "int (session_count 1 (as_sessions (av_state (run_steps (auth_step demo_auth ''s'')
     [(False, demo_env, demo_request ''POST'' ''/refresh'' [(''refresh_token'', Raw_str ''R1'')]),
      (False, demo_env, demo_request ''POST'' ''/logout'' [])] demo_server)))) \<le> sessionCap demo_auth"
proof -
  have "auth_ok demo_auth (av_state demo_server)" using demo_state_ok by (simp add: demo_server_def)
  from auth_service_invariant [OF this] show ?thesis by blast
qed

lemma auth_handle_roles:
  assumes "users_ok (as_users (av_state srv))" and "auth_handle h secret rd env r srv = (reply, srv')"
  shows "(GetHeader ''X-User-ROLE'' r \<noteq> ''admin'' \<or> rq_path r \<noteq> ''/admin/staff'' \<longrightarrow> role_source {''user''} (as_users (av_state srv)) (as_users (av_state srv'))) \<and>
    role_source {''user'', ''agent'', ''admin''} (as_users (av_state srv)) (as_users (av_state srv')) \<and>
    (GetHeader ''X-Internal-Secret'' r \<noteq> secret \<or> secret = [] \<longrightarrow> av_state srv' = av_state srv)"
proof -
  have e: "auth_effect h env r (av_state srv) (av_state srv')"
    and i: "InternalOnlyMiddleware secret r \<noteq> (None :: auth_data response option) \<longrightarrow> av_state srv' = av_state srv"
    using auth_handle_effects [where h = h and env = env and r = r and srv = srv and secret = secret and rd = rd] assms(2) by auto
  show ?thesis
    using auth_effect_roles [OF e assms(1)] i by (auto simp: InternalOnly_pass split: if_splits elim: role_source_mono)
qed

text \<open>
  C9. No privilege escalation: a request that is not for \<open>/admin/staff\<close> or is without the
  header \<open>X-User-ROLE: admin\<close> never changes the role of an account and creates accounts with
  the role "user" only; a request without the internal secret changes
  neither accounts nor sessions.
\<close>
theorem auth_no_escalation:
  assumes "users_ok (as_users (av_state srv))" and "auth_handle h secret rd env r srv = (reply, srv')"
  shows "(GetHeader ''X-User-ROLE'' r \<noteq> ''admin'' \<or> rq_path r \<noteq> ''/admin/staff'' \<longrightarrow> role_source {''user''} (as_users (av_state srv)) (as_users (av_state srv'))) \<and>
    role_source {''user'', ''agent'', ''admin''} (as_users (av_state srv)) (as_users (av_state srv')) \<and>
    (GetHeader ''X-Internal-Secret'' r \<noteq> secret \<or> secret = [] \<longrightarrow> av_state srv' = av_state srv)"
  by (rule auth_handle_roles [OF assms])

theorem auth_no_escalation_witness:
  "role_source {''user''} demo_users (as_users (av_state (snd (auth_handle demo_auth ''s'' False demo_env
     (demo_request ''POST'' ''/admin/staff'' [(''email'', Raw_str ''e''), (''password'', Raw_str ''12345678''), (''role'', Raw_str ''admin'')])
     demo_server))))"
proof -
  let ?r = "demo_request ''POST'' ''/admin/staff'' [(''email'', Raw_str ''e''), (''password'', Raw_str ''12345678''), (''role'', Raw_str ''admin'')]"
  have "users_ok (as_users (av_state demo_server))" "as_users (av_state demo_server) = demo_users"
    "GetHeader ''X-User-ROLE'' ?r \<noteq> ''admin''"
    using demo_users_ok by (simp_all add: demo_server_def demo_state_def GetHeader_def demo_request_def)
  with auth_no_escalation [where h = demo_auth and secret = "''s''" and rd = False and env = demo_env and r = ?r and srv = demo_server,
      OF _ prod.collapse [symmetric]] show ?thesis by simp
qed

lemma no_session_no_refresh:
  assumes "bind_RefreshRequest (rq_body r) = Some tok" and "hashToken (ah_sha256 h) tok \<notin> live_keys (as_sessions s)"
  shows "fst (AuthHandler_Refresh h env r s) = Error 401 ''invalid refresh token'' ''unauthorized''"
proof -
  have "\<exists>e. RefreshTokens_Find (ah_sha256 h) (ae_sess_ft env 0) tok (as_sessions s) = Inl e"
    using assms(2) by (auto simp: RefreshTokens_Find_def live_keys_def split: option.split dest!: find_SomeD intro: rev_image_eqI)
  with assms(1) show ?thesis by (auto simp: AuthHandler_Refresh_def)
qed

text \<open>
  Rotation: a refresh that succeeds presented a live session's token; the session now has
  the new token, for the same user, with nobody's number of sessions changed and no account
  touched; the new access token says that user and the role the old token carried; and the
  old token, presented again at any time, is answered 401.
\<close>
theorem refresh_rotates:
  assumes "jwt_ok (ah_jwt h)" and "auth_ok h s"
    and "AuthHandler_Refresh h env r s = (Success (D_tokens access refresh), s')"
    and "bind_RefreshRequest (rq_body r) = Some tok"
    and "hashToken (ah_sha256 h) refresh \<noteq> hashToken (ah_sha256 h) tok"
    and "\<forall>rt\<in>set (rows (as_sessions s)). rt_UserID rt \<le> 2 ^ 53"
  shows "\<exists>rt old. rt \<in> set (rows (as_sessions s)) \<and> rt_Token rt = hashToken (ah_sha256 h) tok \<and>
      jwt_Parse (ah_jwt h) (ae_now env) (keyfunc (ah_jwtSecret h)) tok = Some \<lparr>tk_Valid = True, tk_Claims = Some old\<rparr> \<and>
      live_keys (as_sessions s') = insert (hashToken (ah_sha256 h) refresh) (live_keys (as_sessions s) - {rt_Token rt}) \<and>
      (\<exists>new\<in>set (rows (as_sessions s')). rt_Token new = hashToken (ah_sha256 h) refresh \<and> rt_UserID new = rt_UserID rt) \<and>
      (\<forall>u. session_count u (as_sessions s') = session_count u (as_sessions s)) \<and> as_users s' = as_users s \<and>
      (\<forall>now < (ae_now env + accessTokenTTL) div second * second. \<exists>claims.
         jwt_Parse (ah_jwt h) now (keyfunc (ah_jwtSecret h)) access = Some \<lparr>tk_Valid = True, tk_Claims = Some claims\<rparr> \<and>
         claim ''user_id'' claims = JNum (f64_of_nat (rt_UserID rt)) \<and> claim ''role'' claims = JStr (case claim ''role'' old of JStr x \<Rightarrow> x | _ \<Rightarrow> [])) \<and>
      (\<forall>env'. fst (AuthHandler_Refresh h env' r s') = Error 401 ''invalid refresh token'' ''unauthorized'')"
  using assms(3)
proof (cases rule: Refresh_cases)
  case (ok tok' rt claims f access' refresh')
  then have same: "tok' = tok" "access' = access" "refresh' = refresh" using assms(4) by auto
  let ?role = "case claim ''role'' claims of JStr x \<Rightarrow> x | _ \<Rightarrow> []"
  from ok(6) same obtain
    sign: "jwt_Sign (ah_jwt h) (ah_jwtSecret h) (access_claims env (rt_UserID rt) ?role) = Some access"
    and rot: "RefreshTokens_Rotate (ah_sha256 h) (ae_sess_ft env 1) (ae_now env) tok
             (session_record (rt_UserID rt) refresh (ae_now env + refreshTokenTTL)) (as_sessions s) = (Inr (), as_sessions s')"
    by (cases rule: rotateSession_cases) auto
  have rt: "rt \<in> set (rows (as_sessions s))" "rt_Token rt = hashToken (ah_sha256 h) tok"
    using Find_Inr ok(2) same by auto
  have live: "live_keys (as_sessions s') = insert (hashToken (ah_sha256 h) refresh) (live_keys (as_sessions s) - {rt_Token rt})"
    using live_Rotate_Inr [OF rot] rt by (simp add: session_record_def)
  have "hashToken (ah_sha256 h) tok \<notin> live_keys (as_sessions s')"
    using live rt assms(5) by auto
  note gone = no_session_no_refresh [OF assms(4) this]
  have "session_count u (as_sessions s') = session_count u (as_sessions s)" for u
    using assms(2) rt Rotate_count [OF _ rot rt] by (simp add: auth_ok_def session_record_def)
  moreover have "\<exists>new\<in>set (rows (as_sessions s')). rt_Token new = hashToken (ah_sha256 h) refresh \<and> rt_UserID new = rt_UserID rt"
    using insert_session_Inr(1) [OF Rotate_Inr(2) [OF rot]] by (simp add: session_record_def)
  moreover have "\<exists>c. jwt_Parse (ah_jwt h) now (keyfunc (ah_jwtSecret h)) access = Some \<lparr>tk_Valid = True, tk_Claims = Some c\<rparr> \<and>
      claim ''user_id'' c = JNum (f64_of_nat (rt_UserID rt)) \<and> claim ''role'' c = JStr ?role"
    if "now < (ae_now env + accessTokenTTL) div second * second" for now
    using jwt_okD [OF assms(1) sign, of now] assms(6) rt that
    by (intro exI [of _ "decoded (access_claims env (rt_UserID rt) ?role)"]) (simp add: access_claims_def)
  ultimately show ?thesis
    using rt live gone ok(3,7) same(1) by (intro exI [of _ rt] exI [of _ claims]) simp
qed simp

theorem refresh_rotates_witness:
  "fst (AuthHandler_Refresh demo_auth demo_env (demo_request ''POST'' ''/refresh'' [(''refresh_token'', Raw_str ''R1'')])
     (snd (AuthHandler_Refresh demo_auth demo_env (demo_request ''POST'' ''/refresh'' [(''refresh_token'', Raw_str ''R1'')]) demo_state)))
   = Error 401 ''invalid refresh token'' ''unauthorized''"
proof -
  let ?r = "demo_request ''POST'' ''/refresh'' [(''refresh_token'', Raw_str ''R1'')]"
  let ?c = "\<lparr>tc_user_id = 1, tc_role = ''agent'', tc_exp = 604800, tc_jti = Some ''j1''\<rparr>"
  let ?s = "as_sessions demo_state"
  have "jwt_Parse (ah_jwt demo_auth) (ae_now demo_env) (keyfunc (ah_jwtSecret demo_auth)) ''R1'' =
      Some \<lparr>tk_Valid = True, tk_Claims = Some (decoded ?c)\<rparr>"
    by (simp add: demo_auth_def demo_env_def demo_jwt_def demo_tokens_def keyfunc_def SigningMethodHMAC_def)
  moreover have "fst (rotateSession demo_auth demo_env ''R1'' 1 ''agent'' ?s) = Inr (''A1'', ''R2'')" by code_simp
  then obtain db where "rotateSession demo_auth demo_env ''R1'' 1 ''agent'' ?s = (Inr (''A1'', ''R2''), db)"
    by (metis prod.collapse)
  moreover have "RefreshTokens_Find (ah_sha256 demo_auth) (ae_sess_ft demo_env 0) ''R1'' ?s = Inr (hd (rows ?s))"
    and "rt_UserID (hd (rows ?s)) = 1" by code_simp+
  moreover have bind: "bind_RefreshRequest (rq_body ?r) = Some ''R1''" by code_simp
  ultimately have "fst (AuthHandler_Refresh demo_auth demo_env ?r demo_state) = Success (D_tokens ''A1'' ''R2'')"
    by (simp add: AuthHandler_Refresh_def)
  then have r: "AuthHandler_Refresh demo_auth demo_env ?r demo_state =
      (Success (D_tokens ''A1'' ''R2''), snd (AuthHandler_Refresh demo_auth demo_env ?r demo_state))" by (rule step_pair)
  have "hashToken (ah_sha256 demo_auth) ''R2'' \<noteq> hashToken (ah_sha256 demo_auth) ''R1''" by code_simp
  moreover have "\<forall>rt\<in>set (rows (as_sessions demo_state)). rt_UserID rt \<le> 2 ^ 53" by (simp add: demo_state_def)
  ultimately show ?thesis
    using refresh_rotates [OF demo_auth_jwt demo_state_ok r bind] by blast
qed

text \<open>
  C10. Changing the password signs every device out and touches nobody else: after a success,
  when the sessions could be deleted, the caller has no session, every other user's sessions
  and account are as before, and a refresh with any token the caller held is answered 401.
\<close>
theorem change_password_revokes:
  assumes "auth_ok h s" and "AuthHandler_ChangePassword h env r s = (Success d, s')" and "\<not> ae_sess_ft env 0 0"
  shows "\<exists>i. caller_id r = Some i \<and> rows (as_sessions s') = filter (\<lambda>rt. rt_UserID rt \<noteq> i) (rows (as_sessions s)) \<and>
    session_count i (as_sessions s') = 0 \<and> (\<forall>j. j \<noteq> i \<longrightarrow> lookup_user (as_users s') j = lookup_user (as_users s) j) \<and>
    (\<forall>env' r' tok rt. bind_RefreshRequest (rq_body r') = Some tok \<and> rt \<in> set (rows (as_sessions s)) \<and> rt_UserID rt = i \<and>
       rt_Token rt = hashToken (ah_sha256 h) tok \<longrightarrow>
       fst (AuthHandler_Refresh h env' r' s') = Error 401 ''invalid refresh token'' ''unauthorized'')"
proof -
  from assms(2) obtain i old new db where i: "caller_id r = Some i"
    and db: "AuthUsecase_ChangePassword (ah_bcrypt h) userRepository (ae_salt env) (ae_users_ft env) i old new (as_users s) = (Inr (), db)"
    and s': "s' = s\<lparr>as_users := db, as_sessions := snd (RefreshTokens_DeleteByUser (ae_sess_ft env 0) i (as_sessions s))\<rparr>"
    by (auto simp: AuthHandler_ChangePassword_def split: option.splits prod.splits sum.splits if_splits)
  have u: "users_ok (as_users s)" and tok: "distinct (map rt_Token (rows (as_sessions s)))"
    using assms(1) by (simp_all add: auth_ok_def sessions_ok_def)
  have rows: "rows (as_sessions s') = filter (\<lambda>rt. rt_UserID rt \<noteq> i) (rows (as_sessions s))"
    using s' assms(3) by (simp add: RefreshTokens_DeleteByUser_def exec_stmt_def)
  have "hashToken (ah_sha256 h) t \<notin> live_keys (as_sessions s')"
    if "rt \<in> set (rows (as_sessions s))" "rt_UserID rt = i" "rt_Token rt = hashToken (ah_sha256 h) t" for rt t
    using that tok by (auto simp: live_keys_def rows distinct_map dest: inj_onD)
  with no_session_no_refresh have "\<forall>env' r' tok rt. bind_RefreshRequest (rq_body r') = Some tok \<and> rt \<in> set (rows (as_sessions s)) \<and> rt_UserID rt = i \<and>
       rt_Token rt = hashToken (ah_sha256 h) tok \<longrightarrow>
       fst (AuthHandler_Refresh h env' r' s') = Error 401 ''invalid refresh token'' ''unauthorized''"
    by blast
  moreover have "\<forall>j. j \<noteq> i \<longrightarrow> lookup_user (as_users s') j = lookup_user (as_users s) j"
    using users.others_kept(1) [OF u, of _ i "ah_bcrypt h" "ae_salt env" "ae_users_ft env" old new] by (simp add: s' db)
  ultimately show ?thesis
    using i rows by (simp add: session_count_def filter_filter filter_empty_conv)
qed

theorem change_password_revokes_witness:
  "session_count 1 (as_sessions (snd (AuthHandler_ChangePassword demo_auth demo_env
     (demo_request ''POST'' ''/change-password'' [(''old_password'', Raw_str ''secret12''), (''new_password'', Raw_str ''topsecret'')]) demo_state))) = 0"
proof -
  let ?r = "demo_request ''POST'' ''/change-password'' [(''old_password'', Raw_str ''secret12''), (''new_password'', Raw_str ''topsecret'')]"
  have "fst (AuthHandler_ChangePassword demo_auth demo_env ?r demo_state) = Success (D_text ''password changed'')" by code_simp
  from change_password_revokes [OF demo_state_ok step_pair [OF this]]
  have "\<exists>i. caller_id ?r = Some i \<and> session_count i (as_sessions (snd (AuthHandler_ChangePassword demo_auth demo_env ?r demo_state))) = 0"
    by (auto simp: demo_env_def)
  moreover have "caller_id ?r = Some 1" by code_simp
  ultimately show ?thesis by simp
qed

end
