(* ===== verification/Tickets.thy ===== *)
theory Tickets
  imports Db Http
begin

section \<open>Tickets: domain, repository and use cases (ticket-service)\<close>

text \<open>
  The tables of ticket-service, \<open>ticketRepository\<close> statement by statement, and \<open>TicketUsecase\<close>.
  A status change and its row in the audit trail are one transaction. The checks of a use case
  (\<open>AssignTicket_check\<close>, \<open>UpdateStatus_check\<close>) read the ticket before that transaction starts,
  as in the source, so that the interleavings of two requests can be stated.
\<close>

record Ticket =
  ti_ID :: uint
  ti_Title :: string
  ti_Description :: string
  ti_UserID :: uint
  ti_AssignedAgentID :: "uint option"
  ti_Status :: string
  ti_Priority :: string
  ti_Department :: string
  ti_AssignedAt :: "time option"
  ti_ResolvedAt :: "time option"
  ti_ClosedAt :: "time option"
  ti_DueAt :: "time option"
  ti_CreatedAt :: time
  ti_UpdatedAt :: time

record TicketStatusHistory =
  hi_ID :: uint
  hi_TicketID :: uint
  hi_FromStatus :: string
  hi_ToStatus :: string
  hi_ChangedBy :: uint
  hi_ChangedAt :: time

record TicketComment =
  co_ID :: uint
  co_TicketID :: uint
  co_AuthorID :: uint
  co_AuthorRole :: string
  co_Body :: string
  co_IsInternal :: bool
  co_CreatedAt :: time

record TicketAttachment =
  at_ID :: uint
  at_TicketID :: uint
  at_UploaderID :: uint
  at_Filename :: string
  at_ContentType :: string
  at_Size :: int
  at_Data :: string
  at_CreatedAt :: time

record TicketDb =
  db_tickets :: "Ticket table"
  db_history :: "TicketStatusHistory table"
  db_comments :: "TicketComment table"
  db_attachments :: "TicketAttachment table"

definition empty_ticket_db :: TicketDb where
  "empty_ticket_db = \<lparr>db_tickets = empty_table, db_history = empty_table, db_comments = empty_table, db_attachments = empty_table\<rparr>"

abbreviation StatusOpen :: string where "StatusOpen \<equiv> ''open''"
abbreviation StatusAssigned :: string where "StatusAssigned \<equiv> ''assigned''"
abbreviation StatusInProgress :: string where "StatusInProgress \<equiv> ''in_progress''"
abbreviation StatusPending :: string where "StatusPending \<equiv> ''pending''"
abbreviation StatusResolved :: string where "StatusResolved \<equiv> ''resolved''"
abbreviation StatusClosed :: string where "StatusClosed \<equiv> ''closed''"

subsection \<open>Queries\<close>

record TicketFilter =
  tf_Status :: string
  tf_Priority :: string
  tf_Department :: string
  tf_From :: "time option"
  tf_To :: "time option"
  tf_Search :: string
  tf_Overdue :: bool

text \<open>
  SQL's \<open>ILIKE\<close>: \<open>%\<close> matches any string, \<open>_\<close> one character, a backslash takes the next
  character literally; case is ignored (ASCII letters).
\<close>

fun ilike :: "string \<Rightarrow> string \<Rightarrow> bool" where
  "ilike [] s = (s = [])"
| "ilike (p # ps) s =
     (if p = CHR ''%'' then (case s of [] \<Rightarrow> ilike ps [] | c # cs \<Rightarrow> ilike ps s \<or> ilike (p # ps) cs)
      else if p = CHR 0x5C \<and> ps \<noteq> [] then (case s of [] \<Rightarrow> False | c # cs \<Rightarrow> fold_char (hd ps) = fold_char c \<and> ilike (tl ps) cs)
      else (case s of [] \<Rightarrow> False | c # cs \<Rightarrow> (p = CHR ''_'' \<or> fold_char p = fold_char c) \<and> ilike ps cs))"

definition applyFilter :: "time \<Rightarrow> TicketFilter \<Rightarrow> Ticket \<Rightarrow> bool" where
  "applyFilter now f t \<longleftrightarrow>
     (tf_Status f \<noteq> [] \<longrightarrow> ti_Status t = tf_Status f) \<and>
     (tf_Priority f \<noteq> [] \<longrightarrow> ti_Priority t = tf_Priority f) \<and>
     (tf_Department f \<noteq> [] \<longrightarrow> ti_Department t = tf_Department f) \<and>
     (case tf_From f of None \<Rightarrow> True | Some from \<Rightarrow> from \<le> ti_CreatedAt t) \<and>
     (case tf_To f of None \<Rightarrow> True | Some to \<Rightarrow> ti_CreatedAt t \<le> to) \<and>
     (tf_Search f \<noteq> [] \<longrightarrow>
        (let like = ''%'' @ tf_Search f @ ''%'' in ilike like (ti_Title t) \<or> ilike like (ti_Description t))) \<and>
     (tf_Overdue f \<longrightarrow>
        (case ti_DueAt t of None \<Rightarrow> False | Some due \<Rightarrow> due < now) \<and> ti_Status t \<notin> {StatusResolved, StatusClosed})"

text \<open>ORDER BY id DESC with LIMIT and OFFSET over the rows of a scope.\<close>

definition find_tickets ::
  "(Ticket \<Rightarrow> bool) \<Rightarrow> faults \<Rightarrow> time \<Rightarrow> TicketFilter \<Rightarrow> int \<Rightarrow> int \<Rightarrow> TicketDb \<Rightarrow> err + Ticket list" where
  "find_tickets scope ft now f limit offset d =
     (if ft 0 then Inl ErrDatabase
      else Inr (select_page (\<lambda>t. scope t \<and> applyFilter now f t) (\<lambda>t. - int (ti_ID t)) limit offset (db_tickets d)))"

definition Tickets_FindAll :: "faults \<Rightarrow> time \<Rightarrow> TicketFilter \<Rightarrow> int \<Rightarrow> int \<Rightarrow> TicketDb \<Rightarrow> err + Ticket list" where
  "Tickets_FindAll = find_tickets (\<lambda>_. True)"

definition Tickets_FindByUser :: "uint \<Rightarrow> faults \<Rightarrow> time \<Rightarrow> TicketFilter \<Rightarrow> int \<Rightarrow> int \<Rightarrow> TicketDb \<Rightarrow> err + Ticket list" where
  "Tickets_FindByUser userID = find_tickets (\<lambda>t. ti_UserID t = userID)"

definition Tickets_FindByAgent :: "uint \<Rightarrow> faults \<Rightarrow> time \<Rightarrow> TicketFilter \<Rightarrow> int \<Rightarrow> int \<Rightarrow> TicketDb \<Rightarrow> err + Ticket list" where
  "Tickets_FindByAgent agentID = find_tickets (\<lambda>t. ti_AssignedAgentID t = Some agentID)"

definition Tickets_FindUnassigned :: "faults \<Rightarrow> time \<Rightarrow> TicketFilter \<Rightarrow> int \<Rightarrow> int \<Rightarrow> TicketDb \<Rightarrow> err + Ticket list" where
  "Tickets_FindUnassigned = find_tickets (\<lambda>t. ti_AssignedAgentID t = None)"

definition get_ticket :: "uint \<Rightarrow> TicketDb \<Rightarrow> Ticket option" where
  "get_ticket ticketID d = List.find (\<lambda>t. ti_ID t = ticketID) (rows (db_tickets d))"

definition Tickets_FindByID :: "faults \<Rightarrow> uint \<Rightarrow> TicketDb \<Rightarrow> err + Ticket" where
  "Tickets_FindByID ft ticketID d =
     (if ft 0 then Inl ErrDatabase
      else case get_ticket ticketID d of None \<Rightarrow> Inl ErrRecordNotFound | Some t \<Rightarrow> Inr t)"

definition ticket_history :: "uint \<Rightarrow> TicketDb \<Rightarrow> TicketStatusHistory list" where
  "ticket_history ticketID d = filter (\<lambda>h. hi_TicketID h = ticketID) (rows (db_history d))"

definition Tickets_FindHistory :: "faults \<Rightarrow> uint \<Rightarrow> TicketDb \<Rightarrow> err + TicketStatusHistory list" where
  "Tickets_FindHistory ft ticketID d =
     (if ft 0 then Inl ErrDatabase else Inr (sort_key hi_ChangedAt (ticket_history ticketID d)))"

subsection \<open>Changes\<close>

text \<open>\<open>db.Create\<close>: key, column defaults and the automatic time stamps; the row is handed back.\<close>

definition stored_ticket :: "time \<Rightarrow> Ticket \<Rightarrow> uint \<Rightarrow> Ticket" where
  "stored_ticket now t ticketID = t\<lparr>ti_ID := ticketID,
     ti_Status := if ti_Status t = [] then StatusOpen else ti_Status t,
     ti_Priority := if ti_Priority t = [] then ''Medium'' else ti_Priority t,
     ti_CreatedAt := now, ti_UpdatedAt := now\<rparr>"

definition Tickets_Create :: "faults \<Rightarrow> time \<Rightarrow> Ticket \<Rightarrow> TicketDb \<Rightarrow> (TicketDb, Ticket) result" where
  "Tickets_Create ft now t =
     exec_stmt (ft 0) (\<lambda>d. (Inr (stored_ticket now t (seq (db_tickets d))),
       d\<lparr>db_tickets := insert_row (stored_ticket now t) (db_tickets d)\<rparr>))"

definition insert_history :: "uint \<Rightarrow> string \<Rightarrow> string \<Rightarrow> uint \<Rightarrow> time \<Rightarrow> TicketDb \<Rightarrow> TicketDb" where
  "insert_history ticketID fromStatus toStatus changedBy changedAt d =
     d\<lparr>db_history := insert_row (\<lambda>hid. \<lparr>hi_ID = hid, hi_TicketID = ticketID, hi_FromStatus = fromStatus,
         hi_ToStatus = toStatus, hi_ChangedBy = changedBy, hi_ChangedAt = changedAt\<rparr>) (db_history d)\<rparr>"

definition update_ticket :: "uint \<Rightarrow> (Ticket \<Rightarrow> Ticket) \<Rightarrow> TicketDb \<Rightarrow> TicketDb" where
  "update_ticket ticketID f d = d\<lparr>db_tickets := update_where (\<lambda>t. ti_ID t = ticketID) f (db_tickets d)\<rparr>"

definition rollback_db :: "TicketDb \<Rightarrow> TicketDb \<Rightarrow> TicketDb" where
  "rollback_db old new = old\<lparr>db_tickets := rollback_rows (db_tickets old) (db_tickets new),
     db_history := rollback_rows (db_history old) (db_history new)\<rparr>"

definition Tickets_AssignAndTransition ::
  "faults \<Rightarrow> uint \<Rightarrow> uint \<Rightarrow> uint \<Rightarrow> time \<Rightarrow> TicketDb \<Rightarrow> (TicketDb, unit) result" where
  "Tickets_AssignAndTransition ft ticketID agentID changedBy changedAt =
     in_transaction (ft 3) rollback_db (\<lambda>d.
       case Tickets_FindByID ft ticketID d of
         Inl e \<Rightarrow> (Inl e, d)
       | Inr ticket \<Rightarrow>
           let fromStatus = ti_Status ticket in
           and_then (exec_stmt (ft 1) (\<lambda>d. (Inr (), update_ticket ticketID (\<lambda>t. t\<lparr>ti_AssignedAgentID := Some agentID,
               ti_AssignedAt := Some changedAt, ti_Status := StatusAssigned, ti_UpdatedAt := changedAt\<rparr>) d)) d) (\<lambda>_ d.
           exec_stmt (ft 2) (\<lambda>d. (Inr (), insert_history ticketID fromStatus StatusAssigned changedBy changedAt d)) d))"

definition Tickets_TransitionStatus ::
  "faults \<Rightarrow> uint \<Rightarrow> string \<Rightarrow> string \<Rightarrow> uint \<Rightarrow> time \<Rightarrow> TicketDb \<Rightarrow> (TicketDb, unit) result" where
  "Tickets_TransitionStatus ft ticketID fromStatus toStatus changedBy changedAt =
     in_transaction (ft 2) rollback_db (\<lambda>d.
       let updates = (\<lambda>t. t\<lparr>ti_Status := toStatus,
             ti_ResolvedAt := if toStatus = StatusResolved then Some changedAt else ti_ResolvedAt t,
             ti_ClosedAt := if toStatus = StatusClosed then Some changedAt else ti_ClosedAt t,
             ti_UpdatedAt := changedAt\<rparr>) in
       and_then (exec_stmt (ft 0) (\<lambda>d. (Inr (), update_ticket ticketID updates d)) d) (\<lambda>_ d.
       exec_stmt (ft 1) (\<lambda>d. (Inr (), insert_history ticketID fromStatus toStatus changedBy changedAt d)) d))"

subsection \<open>The use cases\<close>

definition allowedTransitions :: "string \<Rightarrow> string list" where
  "allowedTransitions s =
     (if s = StatusAssigned then [StatusInProgress]
      else if s = StatusInProgress then [StatusPending, StatusResolved]
      else if s = StatusPending then [StatusInProgress, StatusResolved]
      else if s = StatusResolved then [StatusClosed, StatusInProgress]
      else [])"

definition slaDurations :: "(string \<times> duration) list" where
  "slaDurations = [(''High'', 4 * hour), (''Medium'', 24 * hour), (''Low'', 72 * hour)]"

definition slaDuration :: "string \<Rightarrow> duration" where
  "slaDuration priority =
     (case map_of slaDurations priority of Some d \<Rightarrow> d | None \<Rightarrow> the (map_of slaDurations ''Medium''))"

definition TicketUsecase_Create :: "faults \<Rightarrow> time \<Rightarrow> Ticket \<Rightarrow> TicketDb \<Rightarrow> (TicketDb, Ticket) result" where
  "TicketUsecase_Create ft now ticket =
     Tickets_Create ft now (ticket\<lparr>ti_DueAt := Some (now + slaDuration (ti_Priority ticket))\<rparr>)"

definition TicketUsecase_GetTickets ::
  "faults \<Rightarrow> time \<Rightarrow> uint \<Rightarrow> string \<Rightarrow> string \<Rightarrow> TicketFilter \<Rightarrow> int \<Rightarrow> int \<Rightarrow> TicketDb \<Rightarrow> err + Ticket list" where
  "TicketUsecase_GetTickets ft now userID role scope f limit offset =
     (if role = ''admin'' then Tickets_FindAll ft now f limit offset
      else if role = ''agent'' then
        (if scope = ''queue'' then Tickets_FindUnassigned ft now f limit offset
         else Tickets_FindByAgent userID ft now f limit offset)
      else Tickets_FindByUser userID ft now f limit offset)"

definition TicketUsecase_GetTicketByID :: "faults \<Rightarrow> uint \<Rightarrow> uint \<Rightarrow> string \<Rightarrow> TicketDb \<Rightarrow> err + Ticket" where
  "TicketUsecase_GetTicketByID ft ticketID userID role d =
     (case Tickets_FindByID ft ticketID d of
        Inl e \<Rightarrow> Inl e
      | Inr ticket \<Rightarrow>
          if role = ''admin'' then Inr ticket
          else if role = ''agent'' then
            (if ti_AssignedAgentID ticket = Some userID then Inr ticket else Inl ErrForbidden)
          else if ti_UserID ticket = userID then Inr ticket else Inl ErrForbidden)"

definition TicketUsecase_GetTicketHistory ::
  "(nat \<Rightarrow> faults) \<Rightarrow> uint \<Rightarrow> uint \<Rightarrow> string \<Rightarrow> TicketDb \<Rightarrow> err + TicketStatusHistory list" where
  "TicketUsecase_GetTicketHistory ft ticketID userID role d =
     (case TicketUsecase_GetTicketByID (ft 0) ticketID userID role d of
        Inl e \<Rightarrow> Inl e
      | Inr _ \<Rightarrow> Tickets_FindHistory (ft 1) ticketID d)"

text \<open>\<open>AssignTicket\<close>: the check returns the agent to assign, then the transaction runs.\<close>

definition AssignTicket_check :: "faults \<Rightarrow> uint \<Rightarrow> uint \<Rightarrow> string \<Rightarrow> uint \<Rightarrow> TicketDb \<Rightarrow> err + uint" where
  "AssignTicket_check ft ticketID requesterID requesterRole targetAgentID d =
     (case Tickets_FindByID ft ticketID d of
        Inl e \<Rightarrow> Inl e
      | Inr ticket \<Rightarrow>
          if requesterRole = ''admin'' then Inr targetAgentID
          else if requesterRole = ''agent'' then
            (if targetAgentID \<noteq> 0 \<and> targetAgentID \<noteq> requesterID then Inl ErrForbidden
             else if ti_AssignedAgentID ticket \<noteq> None then Inl ErrAlreadyAssigned
             else Inr requesterID)
          else Inl ErrForbidden)"

definition TicketUsecase_AssignTicket ::
  "(nat \<Rightarrow> faults) \<Rightarrow> time \<Rightarrow> uint \<Rightarrow> uint \<Rightarrow> string \<Rightarrow> uint \<Rightarrow> TicketDb \<Rightarrow> (TicketDb, uint) result" where
  "TicketUsecase_AssignTicket ft now ticketID requesterID requesterRole targetAgentID d =
     (case AssignTicket_check (ft 0) ticketID requesterID requesterRole targetAgentID d of
        Inl e \<Rightarrow> (Inl e, d)
      | Inr agentID \<Rightarrow>
          and_then (Tickets_AssignAndTransition (ft 1) ticketID agentID requesterID now d) (\<lambda>_ d. (Inr agentID, d)))"

definition UpdateStatus_check :: "faults \<Rightarrow> uint \<Rightarrow> uint \<Rightarrow> string \<Rightarrow> string \<Rightarrow> TicketDb \<Rightarrow> err + Ticket" where
  "UpdateStatus_check ft ticketID requesterID requesterRole newStatus d =
     (case Tickets_FindByID ft ticketID d of
        Inl e \<Rightarrow> Inl e
      | Inr ticket \<Rightarrow>
          if requesterRole \<noteq> ''admin'' \<and> (requesterRole \<noteq> ''agent'' \<or> ti_AssignedAgentID ticket \<noteq> Some requesterID)
          then Inl ErrForbidden
          else if newStatus \<notin> set (allowedTransitions (ti_Status ticket)) then Inl ErrInvalidTransition
          else Inr ticket)"

definition TicketUsecase_UpdateStatus ::
  "(nat \<Rightarrow> faults) \<Rightarrow> time \<Rightarrow> uint \<Rightarrow> uint \<Rightarrow> string \<Rightarrow> string \<Rightarrow> TicketDb \<Rightarrow> (TicketDb, Ticket) result" where
  "TicketUsecase_UpdateStatus ft now ticketID requesterID requesterRole newStatus d =
     (case UpdateStatus_check (ft 0) ticketID requesterID requesterRole newStatus d of
        Inl e \<Rightarrow> (Inl e, d)
      | Inr ticket \<Rightarrow>
          and_then (Tickets_TransitionStatus (ft 1) ticketID (ti_Status ticket) newStatus requesterID now d)
            (\<lambda>_ d. (Inr (ticket\<lparr>ti_Status := newStatus\<rparr>), d)))"

subsection \<open>What the transactions do\<close>

definition assigned_row :: "uint \<Rightarrow> time \<Rightarrow> Ticket \<Rightarrow> Ticket" where
  "assigned_row agentID now t = t\<lparr>ti_AssignedAgentID := Some agentID, ti_AssignedAt := Some now,
     ti_Status := StatusAssigned, ti_UpdatedAt := now\<rparr>"

definition moved_row :: "string \<Rightarrow> time \<Rightarrow> Ticket \<Rightarrow> Ticket" where
  "moved_row toStatus now t = t\<lparr>ti_Status := toStatus,
     ti_ResolvedAt := if toStatus = StatusResolved then Some now else ti_ResolvedAt t,
     ti_ClosedAt := if toStatus = StatusClosed then Some now else ti_ClosedAt t, ti_UpdatedAt := now\<rparr>"

lemma row_simps [simp]:
  "ti_ID (assigned_row a now t) = ti_ID t" "ti_Status (assigned_row a now t) = StatusAssigned"
  "ti_AssignedAgentID (assigned_row a now t) = Some a" "ti_UserID (assigned_row a now t) = ti_UserID t"
  "ti_ID (moved_row to now t) = ti_ID t" "ti_Status (moved_row to now t) = to"
  "ti_AssignedAgentID (moved_row to now t) = ti_AssignedAgentID t" "ti_UserID (moved_row to now t) = ti_UserID t"
  by (simp_all add: assigned_row_def moved_row_def)

lemma FindByID_Inr: "Tickets_FindByID ft i d = Inr t \<longleftrightarrow> \<not> ft 0 \<and> get_ticket i d = Some t"
  by (auto simp: Tickets_FindByID_def split: option.splits)

lemma Assign_Inr:
  "Tickets_AssignAndTransition ft i a who now d = (Inr (), d') \<longleftrightarrow>
    \<not> ft 0 \<and> \<not> ft 1 \<and> \<not> ft 2 \<and> \<not> ft 3 \<and> (\<exists>t. get_ticket i d = Some t \<and>
      d' = insert_history i (ti_Status t) StatusAssigned who now (update_ticket i (assigned_row a now) d))"
  by (auto simp: Tickets_AssignAndTransition_def in_transaction_Inr and_then_eq_Inr exec_stmt_Inr Let_def Tickets_FindByID_def
      assigned_row_def [abs_def] split: option.splits if_splits)

lemma Transition_Inr:
  "Tickets_TransitionStatus ft i from to who now d = (Inr (), d') \<longleftrightarrow>
    \<not> ft 0 \<and> \<not> ft 1 \<and> \<not> ft 2 \<and> d' = insert_history i from to who now (update_ticket i (moved_row to now) d)"
  by (auto simp: Tickets_TransitionStatus_def in_transaction_Inr and_then_eq_Inr exec_stmt_Inr Let_def
      moved_row_def [abs_def])

text \<open>Rows of the tables after an error: unchanged.\<close>

definition same_rows :: "TicketDb \<Rightarrow> TicketDb \<Rightarrow> bool" where
  "same_rows d d' \<longleftrightarrow> rows (db_tickets d') = rows (db_tickets d) \<and> rows (db_history d') = rows (db_history d) \<and>
     db_comments d' = db_comments d \<and> db_attachments d' = db_attachments d \<and>
     seq (db_tickets d) \<le> seq (db_tickets d') \<and> seq (db_history d) \<le> seq (db_history d')"

lemma same_rows_refl [simp]: "same_rows d d"
  by (simp add: same_rows_def)

lemma rollback_same:
  "seq (db_tickets d) \<le> seq (db_tickets d') \<Longrightarrow> seq (db_history d) \<le> seq (db_history d') \<Longrightarrow> same_rows d (rollback_db d d')"
  by (simp add: same_rows_def rollback_db_def)

lemma Assign_Inl [frame_rules]:
  "Tickets_AssignAndTransition ft i a who now d = (Inl e, d') \<Longrightarrow> same_rows d d'"
  by (auto simp: Tickets_AssignAndTransition_def in_transaction.simps exec_stmt_def Let_def update_ticket_def insert_history_def
      split: sum.splits if_splits intro!: rollback_same)

lemma Transition_Inl [frame_rules]:
  "Tickets_TransitionStatus ft i from to who now d = (Inl e, d') \<Longrightarrow> same_rows d d'"
  by (auto simp: Tickets_TransitionStatus_def in_transaction.simps exec_stmt_def Let_def update_ticket_def insert_history_def
      split: sum.splits if_splits intro!: rollback_same)

lemma AssignTicket_cases:
  assumes "TicketUsecase_AssignTicket ft now i u role target d = (z, d')"
  obtains (err) e where "z = Inl e" and "same_rows d d'"
  | (ok) t a where "z = Inr a" and "AssignTicket_check (ft 0) i u role target d = Inr a" and "get_ticket i d = Some t"
      and "d' = insert_history i (ti_Status t) StatusAssigned u now (update_ticket i (assigned_row a now) d)"
proof (cases "AssignTicket_check (ft 0) i u role target d")
  case (Inl e)
  with assms show ?thesis by (intro err [of e]) (auto simp: TicketUsecase_AssignTicket_def)
next
  case (Inr a)
  with assms have "and_then (Tickets_AssignAndTransition (ft 1) i a u now d) (\<lambda>_ d. (Inr a, d)) = (z, d')"
    by (simp add: TicketUsecase_AssignTicket_def)
  then show ?thesis
  proof (cases rule: and_then_cases)
    case (err e)
    then show ?thesis using that(1) Assign_Inl by blast
  next
    case (ok x s)
    then have "Tickets_AssignAndTransition (ft 1) i a u now d = (Inr (), d')" "z = Inr a" by auto
    with Inr show ?thesis using that(2) by (auto simp: Assign_Inr)
  qed
qed

lemma UpdateStatus_check_Inr:
  "UpdateStatus_check ft i u role to d = Inr t \<longleftrightarrow>
    \<not> ft 0 \<and> get_ticket i d = Some t \<and> (role = ''admin'' \<or> role = ''agent'' \<and> ti_AssignedAgentID t = Some u) \<and>
    to \<in> set (allowedTransitions (ti_Status t))"
  by (auto simp: UpdateStatus_check_def Tickets_FindByID_def split: option.splits if_splits)

lemma UpdateStatus_cases:
  assumes "TicketUsecase_UpdateStatus ft now i u role to d = (z, d')"
  obtains (err) e where "z = Inl e" and "same_rows d d'"
  | (ok) t where "z = Inr (t\<lparr>ti_Status := to\<rparr>)" and "UpdateStatus_check (ft 0) i u role to d = Inr t"
      and "d' = insert_history i (ti_Status t) to u now (update_ticket i (moved_row to now) d)"
proof (cases "UpdateStatus_check (ft 0) i u role to d")
  case (Inl e)
  with assms show ?thesis by (intro err [of e]) (auto simp: TicketUsecase_UpdateStatus_def)
next
  case (Inr t)
  with assms have "and_then (Tickets_TransitionStatus (ft 1) i (ti_Status t) to u now d) (\<lambda>_ d. (Inr (t\<lparr>ti_Status := to\<rparr>), d)) = (z, d')"
    by (simp add: TicketUsecase_UpdateStatus_def)
  then show ?thesis
  proof (cases rule: and_then_cases)
    case (err e)
    then show ?thesis using that(1) Transition_Inl by blast
  next
    case (ok x s)
    then have "Tickets_TransitionStatus (ft 1) i (ti_Status t) to u now d = (Inr (), d')" "z = Inr (t\<lparr>ti_Status := to\<rparr>)" by auto
    with Inr show ?thesis using that(2) by (auto simp: Transition_Inr)
  qed
qed

subsection \<open>The invariant of the tables\<close>

text \<open>
  Keys are unique, the audit trail speaks of existing tickets only, and every ticket is well
  formed: it is open exactly as long as nobody is assigned, a resolved or closed one has been
  resolved, a closed one has its closing time, and its deadline is the creation time plus the
  duration of its priority.
\<close>

definition ticket_wf :: "Ticket \<Rightarrow> bool" where
  "ticket_wf t \<longleftrightarrow>
     ti_Status t \<in> {StatusOpen, StatusAssigned, StatusInProgress, StatusPending, StatusResolved, StatusClosed} \<and>
     (ti_AssignedAgentID t = None \<longleftrightarrow> ti_Status t = StatusOpen) \<and>
     (ti_AssignedAt t = None \<longleftrightarrow> ti_AssignedAgentID t = None) \<and>
     (ti_Status t \<in> {StatusResolved, StatusClosed} \<longrightarrow> ti_ResolvedAt t \<noteq> None) \<and>
     (ti_Status t = StatusClosed \<longrightarrow> ti_ClosedAt t \<noteq> None) \<and>
     ti_DueAt t = Some (ti_CreatedAt t + slaDuration (ti_Priority t)) \<and> 0 < ti_ID t"

definition tickets_ok :: "TicketDb \<Rightarrow> bool" where
  "tickets_ok d \<longleftrightarrow> keys_ok ti_ID (db_tickets d) \<and> 0 < seq (db_tickets d) \<and> keys_ok hi_ID (db_history d) \<and>
     (\<forall>h\<in>set (rows (db_history d)). hi_TicketID h \<in> ti_ID ` set (rows (db_tickets d))) \<and>
     (\<forall>t\<in>set (rows (db_tickets d)). ticket_wf t)"

lemma tickets_ok_empty: "tickets_ok empty_ticket_db"
  by (simp add: tickets_ok_def empty_ticket_db_def keys_ok_empty)

lemma get_ticket_Some: "tickets_ok d \<Longrightarrow> get_ticket i d = Some t \<longleftrightarrow> t \<in> set (rows (db_tickets d)) \<and> ti_ID t = i"
  using find_by_key [of ti_ID "db_tickets d" t] by (auto simp: get_ticket_def tickets_ok_def dest: find_SomeD)

lemma get_ticket_eqI:
  assumes "tickets_ok d" and "\<And>t. m i = Some t \<longleftrightarrow> t \<in> set (rows (db_tickets d)) \<and> ti_ID t = i"
  shows "get_ticket i d = m i"
  using get_ticket_Some [OF assms(1), of i] assms(2) by (metis not_Some_eq)

lemma keys_ok_same: "keys_ok key t \<Longrightarrow> rows t' = rows t \<Longrightarrow> seq t \<le> seq t' \<Longrightarrow> keys_ok key t'"
  by (force simp: keys_ok_def)

lemma same_rows_ok: "same_rows d d' \<Longrightarrow> tickets_ok d \<Longrightarrow> tickets_ok d'"
  by (auto simp: tickets_ok_def same_rows_def intro: keys_ok_same)

lemma same_rows_get: "same_rows d d' \<Longrightarrow> get_ticket i d' = get_ticket i d"
  by (simp add: get_ticket_def same_rows_def)

lemma same_rows_history: "same_rows d d' \<Longrightarrow> ticket_history i d' = ticket_history i d"
  by (simp add: ticket_history_def same_rows_def)

text \<open>A status change: the row is replaced and the trail grows by one.\<close>

lemma change_ok:
  assumes "tickets_ok d" and "get_ticket i d = Some t" and "\<And>t. ti_ID (f t) = ti_ID t" and "ticket_wf (f t)"
  shows "tickets_ok (insert_history i from to who now (update_ticket i f d))"
proof -
  have ft: "keys_ok ti_ID (update_where (\<lambda>t. ti_ID t = i) f (db_tickets d))"
    using assms(1,3) by (auto simp: tickets_ok_def intro!: keys_ok_update)
  have t: "t \<in> set (rows (db_tickets d))" "ti_ID t = i" using assms(1,2) by (simp_all add: get_ticket_Some)
  have uniq: "t' = t" if "t' \<in> set (rows (db_tickets d))" "ti_ID t' = i" for t'
    using that t assms(1) by (auto simp: tickets_ok_def intro: keys_okD)
  have "(\<lambda>r. ti_ID (if ti_ID r = i then f r else r)) = ti_ID" using assms(3) by auto
  then have "ti_ID ` (\<lambda>r. if ti_ID r = i then f r else r) ` set (rows (db_tickets d)) = ti_ID ` set (rows (db_tickets d))"
    by (simp only: image_image)
  moreover have "ticket_wf r" if "r \<in> (\<lambda>r. if ti_ID r = i then f r else r) ` set (rows (db_tickets d))" for r
    using that assms(1,4) uniq by (auto simp: tickets_ok_def split: if_splits)
  moreover have "i \<in> ti_ID ` set (rows (db_tickets d))" using t by force
  moreover have "keys_ok hi_ID (insert_row (\<lambda>hid. \<lparr>hi_ID = hid, hi_TicketID = i, hi_FromStatus = from,
         hi_ToStatus = to, hi_ChangedBy = who, hi_ChangedAt = now\<rparr>) (db_history d))"
    using assms(1) by (intro keys_ok_insert) (simp_all add: tickets_ok_def)
  ultimately show ?thesis
    using assms(1) ft by (simp add: tickets_ok_def insert_history_def update_ticket_def)
qed

lemma change_get:
  assumes "tickets_ok d" and "get_ticket i d = Some t" and "\<And>t. ti_ID (f t) = ti_ID t" and "ticket_wf (f t)"
  shows "get_ticket j (insert_history i from to who now (update_ticket i f d)) = (if j = i then Some (f t) else get_ticket j d)"
proof -
  have t: "t \<in> set (rows (db_tickets d))" "ti_ID t = i" using assms(1,2) by (simp_all add: get_ticket_Some)
  show ?thesis
  proof (cases "j = i")
    case True
    have "f t \<in> set (rows (db_tickets (insert_history i from to who now (update_ticket i f d))))"
      using t by (force simp: insert_history_def update_ticket_def)
    with True t(2) assms(3) show ?thesis by (simp add: get_ticket_Some [OF change_ok [OF assms]])
  next
    case False
    then have "List.find (\<lambda>t. ti_ID t = j) (map (\<lambda>t. if ti_ID t = i then f t else t) ts) = List.find (\<lambda>t. ti_ID t = j) ts" for ts
      using assms(3) by (induction ts) auto
    with False show ?thesis by (simp add: get_ticket_def insert_history_def update_ticket_def)
  qed
qed

lemma change_history:
  "ticket_history j (insert_history i from to who now (update_ticket i f d)) =
    ticket_history j d @ (if j = i then [\<lparr>hi_ID = seq (db_history d), hi_TicketID = i, hi_FromStatus = from,
         hi_ToStatus = to, hi_ChangedBy = who, hi_ChangedAt = now\<rparr>] else [])"
  by (simp add: ticket_history_def insert_history_def update_ticket_def)

lemma assigned_wf: "ticket_wf t \<Longrightarrow> ticket_wf (assigned_row a now t)"
  by (auto simp: ticket_wf_def assigned_row_def)

lemma moved_wf: "ticket_wf t \<Longrightarrow> to \<in> set (allowedTransitions (ti_Status t)) \<Longrightarrow> ticket_wf (moved_row to now t)"
  by (auto simp: ticket_wf_def moved_row_def allowedTransitions_def split: if_splits)

lemma wf_get: "tickets_ok d \<Longrightarrow> get_ticket i d = Some t \<Longrightarrow> ticket_wf t"
  by (simp add: get_ticket_Some tickets_ok_def)

subsection \<open>An audited state machine\<close>

text \<open>
  What the tables implement: items with a status and a trail of the changes that led to it.
  A step keeps an item, creates one in the start status, or moves one along an edge and
  appends that edge to its trail. The contract gives that every trail is a complete path.
\<close>

fun path :: "'s \<Rightarrow> ('s \<times> 's) list \<Rightarrow> 's \<Rightarrow> bool" where
  "path s [] t \<longleftrightarrow> s = t"
| "path s ((a, b) # es) t \<longleftrightarrow> a = s \<and> path b es t"

lemma path_append: "path s (es @ [(a, b)]) t \<longleftrightarrow> path s es a \<and> b = t"
  by (induction es arbitrary: s) auto

locale audited_machine =
  fixes step :: "'op \<Rightarrow> 'd \<Rightarrow> 'r \<times> 'd"
    and status :: "'d \<Rightarrow> 'i \<Rightarrow> 's option"
    and trail :: "'d \<Rightarrow> 'i \<Rightarrow> ('s \<times> 's) list"
    and start :: 's
    and edge :: "'s \<Rightarrow> 's \<Rightarrow> bool"
    and ok :: "'d \<Rightarrow> bool"
  assumes step_ok: "ok d \<Longrightarrow> ok (snd (step op d))"
    and step_item: "ok d \<Longrightarrow>
      status (snd (step op d)) i = status d i \<and> trail (snd (step op d)) i = trail d i \<or>
      status d i = None \<and> status (snd (step op d)) i = Some start \<and> trail (snd (step op d)) i = trail d i \<or>
      (\<exists>s s'. status d i = Some s \<and> edge s s' \<and> status (snd (step op d)) i = Some s' \<and>
         trail (snd (step op d)) i = trail d i @ [(s, s')])"
begin

definition audited :: "'d \<Rightarrow> 'i \<Rightarrow> bool" where
  "audited d i \<longleftrightarrow> (case status d i of
     None \<Rightarrow> trail d i = []
   | Some s \<Rightarrow> path start (trail d i) s \<and> (\<forall>(a, b)\<in>set (trail d i). edge a b))"

lemma step_audited: "ok d \<Longrightarrow> audited d i \<Longrightarrow> audited (snd (step op d)) i"
  using step_item [of d op i] by (auto simp: audited_def path_append split: option.splits)

lemma run_audited: "ok d \<Longrightarrow> audited d i \<Longrightarrow> ok (run_steps step ops d) \<and> audited (run_steps step ops d) i"
  by (induction ops arbitrary: d) (simp_all add: step_ok step_audited)

text \<open>The trail only grows: an entry once written stays, in its place.\<close>

lemma trail_prefix: "ok d \<Longrightarrow> \<exists>es. trail (run_steps step ops d) i = trail d i @ es"
proof (induction ops arbitrary: d)
  case (Cons op ops)
  obtain es where "trail (run_steps step ops (snd (step op d))) i = trail (snd (step op d)) i @ es"
    using Cons.IH [OF step_ok [OF Cons.prems]] by blast
  moreover have "\<exists>es'. trail (snd (step op d)) i = trail d i @ es'"
    using step_item [OF Cons.prems, of op i] by auto
  ultimately show ?case by auto
qed simp

end

subsection \<open>The tickets are one\<close>

text \<open>The struct literal and the defaults of the handler \<open>Create\<close>.\<close>

definition new_ticket :: "string \<Rightarrow> string \<Rightarrow> uint \<Rightarrow> string \<Rightarrow> string \<Rightarrow> Ticket" where
  "new_ticket title description userID priority department =
     \<lparr>ti_ID = 0, ti_Title = title, ti_Description = description, ti_UserID = userID, ti_AssignedAgentID = None,
      ti_Status = [], ti_Priority = (if priority = [] then ''Medium'' else priority),
      ti_Department = (if department = [] then ''Helpdesk'' else department),
      ti_AssignedAt = None, ti_ResolvedAt = None, ti_ClosedAt = None, ti_DueAt = None, ti_CreatedAt = 0, ti_UpdatedAt = 0\<rparr>"

datatype ticket_op =
    OpCreateTicket faults time string string uint string string
  | OpAssign "nat \<Rightarrow> faults" time uint uint string uint
  | OpUpdate "nat \<Rightarrow> faults" time uint uint string string

definition no_value :: "('s, 'a) result \<Rightarrow> ('s, unit) result" where
  "no_value r = (map_sum id (\<lambda>_. ()) (fst r), snd r)"

fun ticket_step :: "ticket_op \<Rightarrow> TicketDb \<Rightarrow> (TicketDb, unit) result" where
  "ticket_step (OpCreateTicket ft now title descr u prio dept) d =
     no_value (TicketUsecase_Create ft now (new_ticket title descr u prio dept) d)"
| "ticket_step (OpAssign ft now i u role target) d = no_value (TicketUsecase_AssignTicket ft now i u role target d)"
| "ticket_step (OpUpdate ft now i u role to) d = no_value (TicketUsecase_UpdateStatus ft now i u role to d)"

definition ticket_status :: "TicketDb \<Rightarrow> uint \<Rightarrow> string option" where
  "ticket_status d i = map_option ti_Status (get_ticket i d)"

definition ticket_trail :: "TicketDb \<Rightarrow> uint \<Rightarrow> (string \<times> string) list" where
  "ticket_trail d i = map (\<lambda>h. (hi_FromStatus h, hi_ToStatus h)) (ticket_history i d)"

definition ticket_edge :: "string \<Rightarrow> string \<Rightarrow> bool" where
  "ticket_edge s s' \<longleftrightarrow> s' = StatusAssigned \<or> s' \<in> set (allowedTransitions s)"

lemma create_get:
  assumes "tickets_ok d" and "TicketUsecase_Create ft now (new_ticket title descr u prio dept) d = (Inr t, d')"
  shows "tickets_ok d'" and "get_ticket (ti_ID t) d = None" and "ti_Status t = StatusOpen"
    and "get_ticket i d' = (if i = ti_ID t then Some t else get_ticket i d)" and "ticket_history i d' = ticket_history i d"
    and "ti_ID t = seq (db_tickets d)" and "db_history d' = db_history d" and "rows (db_tickets d') = rows (db_tickets d) @ [t]"
proof -
  let ?t = "new_ticket title descr u prio dept"
  have t: "t = stored_ticket now (?t\<lparr>ti_DueAt := Some (now + slaDuration (ti_Priority ?t))\<rparr>) (seq (db_tickets d))"
    and d': "d' = d\<lparr>db_tickets := insert_row (stored_ticket now (?t\<lparr>ti_DueAt := Some (now + slaDuration (ti_Priority ?t))\<rparr>)) (db_tickets d)\<rparr>"
    using assms(2) by (auto simp: TicketUsecase_Create_def Tickets_Create_def exec_stmt_Inr)
  show rows: "rows (db_tickets d') = rows (db_tickets d) @ [t]" and hist: "db_history d' = db_history d"
    and id: "ti_ID t = seq (db_tickets d)" and "ti_Status t = StatusOpen"
    by (simp_all add: t d' stored_ticket_def new_ticket_def)
  have wf: "ticket_wf t"
    using assms(1) by (simp add: t ticket_wf_def stored_ticket_def new_ticket_def tickets_ok_def)
  have new: "\<forall>t\<in>set (rows (db_tickets d)). ti_ID t < seq (db_tickets d)"
    using assms(1) by (simp add: tickets_ok_def keys_ok_def)
  show ok: "tickets_ok d'"
    using assms(1) wf rows hist unfolding tickets_ok_def
    by (auto simp: d' stored_ticket_def intro!: keys_ok_insert)
  show none: "get_ticket (ti_ID t) d = None"
    using new id by (force simp: get_ticket_def find_None_iff)
  show "get_ticket i d' = (if i = ti_ID t then Some t else get_ticket i d)"
    using get_ticket_Some [OF assms(1)] none rows new id
    by (intro get_ticket_eqI [OF ok, where m = "\<lambda>i. if i = ti_ID t then Some t else get_ticket i d"]) (auto split: if_splits)
  show "ticket_history i d' = ticket_history i d"
    by (simp add: ticket_history_def hist)
qed

lemma create_Inl: "TicketUsecase_Create ft now t d = (Inl e, d') \<Longrightarrow> d' = d"
  by (auto simp: TicketUsecase_Create_def Tickets_Create_def exec_stmt_def split: if_splits)

text \<open>What a successful assignment and a successful status change do to every ticket.\<close>

lemma assign_effect:
  assumes "tickets_ok d" and "TicketUsecase_AssignTicket ft now i u role target d = (Inr a, d')"
  obtains t where "get_ticket i d = Some t" and "AssignTicket_check (ft 0) i u role target d = Inr a" and "tickets_ok d'"
    and "\<And>j. get_ticket j d' = (if j = i then Some (assigned_row a now t) else get_ticket j d)"
    and "\<And>j. ticket_history j d' = ticket_history j d @ (if j = i then [\<lparr>hi_ID = seq (db_history d), hi_TicketID = i,
           hi_FromStatus = ti_Status t, hi_ToStatus = StatusAssigned, hi_ChangedBy = u, hi_ChangedAt = now\<rparr>] else [])"
  using assms(2)
proof (cases rule: AssignTicket_cases)
  case (ok t a')
  then have "a' = a" by simp
  with ok assms(1) show ?thesis
    using that [of t] change_ok [OF assms(1) ok(3)] change_get [OF assms(1) ok(3)] assigned_wf wf_get [OF assms(1) ok(3)]
    by (simp add: change_history)
qed simp

lemma update_effect:
  assumes "tickets_ok d" and "TicketUsecase_UpdateStatus ft now i u role to d = (Inr t', d')"
  obtains t where "get_ticket i d = Some t" and "role = ''admin'' \<or> role = ''agent'' \<and> ti_AssignedAgentID t = Some u"
    and "to \<in> set (allowedTransitions (ti_Status t))" and "tickets_ok d'" and "t' = t\<lparr>ti_Status := to\<rparr>"
    and "\<And>j. get_ticket j d' = (if j = i then Some (moved_row to now t) else get_ticket j d)"
    and "\<And>j. ticket_history j d' = ticket_history j d @ (if j = i then [\<lparr>hi_ID = seq (db_history d), hi_TicketID = i,
           hi_FromStatus = ti_Status t, hi_ToStatus = to, hi_ChangedBy = u, hi_ChangedAt = now\<rparr>] else [])"
  using assms(2)
proof (cases rule: UpdateStatus_cases)
  case (ok t)
  then have c: "get_ticket i d = Some t" "role = ''admin'' \<or> role = ''agent'' \<and> ti_AssignedAgentID t = Some u"
    "to \<in> set (allowedTransitions (ti_Status t))" by (simp_all add: UpdateStatus_check_Inr)
  show ?thesis
    using that [of t] c ok(1,3) change_ok [OF assms(1) c(1)] change_get [OF assms(1) c(1)] moved_wf [OF wf_get [OF assms(1) c(1)] c(3)]
    by (simp add: change_history)
qed simp

lemma ticket_step_cases:
  assumes "tickets_ok d" and "ticket_step op d = (z, d')"
  obtains (same) "same_rows d d'"
  | (create) t where "tickets_ok d'" and "get_ticket (ti_ID t) d = None" and "ti_Status t = StatusOpen"
      and "\<And>i. get_ticket i d' = (if i = ti_ID t then Some t else get_ticket i d)" and "\<And>i. ticket_history i d' = ticket_history i d"
  | (change) i t f h where "tickets_ok d'" and "get_ticket i d = Some t" and "ticket_edge (ti_Status t) (ti_Status (f t))"
      and "\<And>j. get_ticket j d' = (if j = i then Some (f t) else get_ticket j d)"
      and "\<And>j. ticket_history j d' = ticket_history j d @ (if j = i then [h] else [])"
      and "hi_FromStatus h = ti_Status t" and "hi_ToStatus h = ti_Status (f t)"
proof (cases op)
  case (OpCreateTicket ft now title descr u prio dept)
  obtain z1 d1 where r: "TicketUsecase_Create ft now (new_ticket title descr u prio dept) d = (z1, d1)" by fastforce
  with assms(2) OpCreateTicket have "d' = d1" by (simp add: no_value_def)
  show ?thesis
  proof (cases z1)
    case (Inl e)
    with r have "d1 = d" by (intro create_Inl) simp
    with \<open>d' = d1\<close> same show ?thesis by simp
  next
    case (Inr t)
    with r have r: "TicketUsecase_Create ft now (new_ticket title descr u prio dept) d = (Inr t, d')" using \<open>d' = d1\<close> by simp
    show ?thesis by (rule create [of t]) (fact create_get [OF assms(1) r])+
  qed
next
  case (OpAssign ft now i u role target)
  obtain z1 d1 where r: "TicketUsecase_AssignTicket ft now i u role target d = (z1, d1)" by fastforce
  with assms(2) OpAssign have d1: "d' = d1" by (simp add: no_value_def)
  from r show ?thesis
  proof (cases rule: AssignTicket_cases)
    case err with d1 same show ?thesis by simp
  next
    case (ok t a)
    with r d1 have r: "TicketUsecase_AssignTicket ft now i u role target d = (Inr a, d')" by simp
    show ?thesis
    proof (rule assign_effect [OF assms(1) r])
      fix t
      assume "get_ticket i d = Some t" "tickets_ok d'" "\<And>j. get_ticket j d' = (if j = i then Some (assigned_row a now t) else get_ticket j d)"
        and h: "\<And>j. ticket_history j d' = ticket_history j d @ (if j = i then [\<lparr>hi_ID = seq (db_history d), hi_TicketID = i,
           hi_FromStatus = ti_Status t, hi_ToStatus = StatusAssigned, hi_ChangedBy = u, hi_ChangedAt = now\<rparr>] else [])"
      then show ?thesis by (intro change [of i t "assigned_row a now", OF _ _ _ _ h]) (simp_all add: ticket_edge_def)
    qed
  qed
next
  case (OpUpdate ft now i u role to)
  obtain z1 d1 where r: "TicketUsecase_UpdateStatus ft now i u role to d = (z1, d1)" by fastforce
  with assms(2) OpUpdate have d1: "d' = d1" by (simp add: no_value_def)
  from r show ?thesis
  proof (cases rule: UpdateStatus_cases)
    case err with d1 same show ?thesis by simp
  next
    case (ok t)
    with r d1 have r: "TicketUsecase_UpdateStatus ft now i u role to d = (Inr (t\<lparr>ti_Status := to\<rparr>), d')" by simp
    show ?thesis
    proof (rule update_effect [OF assms(1) r])
      fix t
      assume "get_ticket i d = Some t" "to \<in> set (allowedTransitions (ti_Status t))" "tickets_ok d'"
        "\<And>j. get_ticket j d' = (if j = i then Some (moved_row to now t) else get_ticket j d)"
        and h: "\<And>j. ticket_history j d' = ticket_history j d @ (if j = i then [\<lparr>hi_ID = seq (db_history d), hi_TicketID = i,
           hi_FromStatus = ti_Status t, hi_ToStatus = to, hi_ChangedBy = u, hi_ChangedAt = now\<rparr>] else [])"
      then show ?thesis by (intro change [of i t "moved_row to now", OF _ _ _ _ h]) (simp_all add: ticket_edge_def)
    qed
  qed
qed

interpretation tickets: audited_machine ticket_step ticket_status ticket_trail StatusOpen ticket_edge tickets_ok
proof (unfold_locales, goal_cases)
  case (1 d op)
  show ?case
    by (rule ticket_step_cases [OF 1 prod.collapse [symmetric], of op]) (auto intro: same_rows_ok [OF _ 1])
next
  case (2 d op i)
  show ?case
  proof (rule ticket_step_cases [OF 2 prod.collapse [symmetric], of op], goal_cases)
    case 1
    then show ?case by (simp add: ticket_status_def ticket_trail_def same_rows_get same_rows_history)
  next
    case (2 t)
    then show ?case by (auto simp: ticket_status_def ticket_trail_def)
  next
    case (3 j t f h)
    then show ?case by (auto simp: ticket_status_def ticket_trail_def)
  qed
qed

lemma audited_empty: "tickets.audited empty_ticket_db i"
  by (simp add: tickets.audited_def ticket_status_def ticket_trail_def get_ticket_def ticket_history_def empty_ticket_db_def)

text \<open>The rows of the audit trail are only ever extended.\<close>

lemma history_extended:
  "tickets_ok d \<Longrightarrow> \<exists>hs. ticket_history i (run_steps ticket_step ops d) = ticket_history i d @ hs"
proof (induction ops arbitrary: d)
  case (Cons op ops)
  let ?d' = "snd (ticket_step op d)"
  have "tickets_ok ?d' \<and> (\<exists>hs. ticket_history i ?d' = ticket_history i d @ hs)"
    using prod.collapse [symmetric]
    by (rule ticket_step_cases [OF Cons.prems]) (auto simp: same_rows_history intro: same_rows_ok [OF _ Cons.prems])
  with Cons.IH [of ?d'] show ?case by auto
qed simp

subsection \<open>Properties\<close>

text \<open>
  C13. The life of a ticket: start with no tickets and serve any requests to create, assign
  and change tickets, in any order, from anyone, with any failures of the database. Then every
  ticket is well formed (open exactly as long as nobody is assigned, resolution and closing
  times in place), and its audit trail is complete: the recorded changes form a path from
  "open" to its current status, each a legal transition or an assignment. The trail is only ever
  extended: whatever requests follow, its rows stay as they are (who changed what and when, in their
  order), with new ones behind them.
\<close>
theorem ticket_lifecycle:
  assumes "get_ticket i (run_steps ticket_step ops empty_ticket_db) = Some t"
  shows "tickets_ok (run_steps ticket_step ops empty_ticket_db) \<and> ticket_wf t \<and>
    path StatusOpen (ticket_trail (run_steps ticket_step ops empty_ticket_db) i) (ti_Status t) \<and>
    (\<forall>(a, b)\<in>set (ticket_trail (run_steps ticket_step ops empty_ticket_db) i). b = StatusAssigned \<or> b \<in> set (allowedTransitions a)) \<and>
    (\<exists>hs. ticket_history i (run_steps ticket_step (ops @ later) empty_ticket_db) =
      ticket_history i (run_steps ticket_step ops empty_ticket_db) @ hs)"
proof -
  let ?d = "run_steps ticket_step ops empty_ticket_db"
  have r: "tickets_ok ?d" "tickets.audited ?d i"
    using tickets.run_audited [OF tickets_ok_empty audited_empty] by blast+
  then show ?thesis
    using assms wf_get [OF r(1) assms] history_extended [OF r(1), of i later]
    by (simp add: tickets.audited_def ticket_status_def run_steps_append flip: ticket_edge_def)
qed

definition demo_ops :: "ticket_op list" where
  "demo_ops = [OpCreateTicket (\<lambda>_. False) 10 ''VPN'' ''down'' 5 ''High'' ''IT'', OpAssign (\<lambda>_ _. False) 20 1 9 ''agent'' 0,
     OpUpdate (\<lambda>_ _. False) 30 1 9 ''agent'' ''in_progress'', OpUpdate (\<lambda>_ _. False) 40 1 9 ''agent'' ''resolved'']"

lemma demo_ops_status: "ticket_status (run_steps ticket_step demo_ops empty_ticket_db) 1 = Some ''resolved''"
  by code_simp

lemma demo_ops_ticket:
  obtains t where "get_ticket 1 (run_steps ticket_step demo_ops empty_ticket_db) = Some t" and "ti_Status t = ''resolved''"
  using demo_ops_status by (auto simp: ticket_status_def)

theorem ticket_lifecycle_witness:
  "path StatusOpen (ticket_trail (run_steps ticket_step demo_ops empty_ticket_db) 1) ''resolved'' \<and>
   (\<exists>hs. ticket_history 1 (run_steps ticket_step (demo_ops @ [OpUpdate (\<lambda>_ _. False) 50 1 9 ''agent'' ''closed'']) empty_ticket_db) =
     ticket_history 1 (run_steps ticket_step demo_ops empty_ticket_db) @ hs)"
proof -
  obtain t where t: "get_ticket 1 (run_steps ticket_step demo_ops empty_ticket_db) = Some t" "ti_Status t = ''resolved''"
    by (rule demo_ops_ticket)
  from ticket_lifecycle [OF t(1), of "[OpUpdate (\<lambda>_ _. False) 50 1 9 ''agent'' ''closed'']"] t(2) show ?thesis by simp
qed

text \<open>
  C14. Changing a status, outcome by outcome: a missing ticket is not found; anyone but an
  administrator or the assigned agent is refused; so is a change the state machine does not
  allow; otherwise the status becomes the new one, the resolution or closing time is set, the
  trail grows by exactly one row, which names this change, who made it and when, and no other ticket
  changes.
\<close>
theorem update_status_outcome:
  assumes "tickets_ok d" and "\<forall>k j. \<not> ft k j"
  shows "case TicketUsecase_UpdateStatus ft now i u role to d of
    (Inl e, d') \<Rightarrow> d' = d \<and>
      (case get_ticket i d of
         None \<Rightarrow> e = ErrRecordNotFound
       | Some t \<Rightarrow> e = (if role = ''admin'' \<or> role = ''agent'' \<and> ti_AssignedAgentID t = Some u then ErrInvalidTransition else ErrForbidden) \<and>
           (role = ''admin'' \<or> role = ''agent'' \<and> ti_AssignedAgentID t = Some u \<longrightarrow> to \<notin> set (allowedTransitions (ti_Status t))))
  | (Inr t', d') \<Rightarrow> (\<exists>t. get_ticket i d = Some t \<and> (role = ''admin'' \<or> role = ''agent'' \<and> ti_AssignedAgentID t = Some u) \<and>
      to \<in> set (allowedTransitions (ti_Status t)) \<and> t' = t\<lparr>ti_Status := to\<rparr> \<and>
      get_ticket i d' = Some (t\<lparr>ti_Status := to, ti_ResolvedAt := if to = StatusResolved then Some now else ti_ResolvedAt t,
        ti_ClosedAt := if to = StatusClosed then Some now else ti_ClosedAt t, ti_UpdatedAt := now\<rparr>) \<and>
      ticket_trail d' i = ticket_trail d i @ [(ti_Status t, to)] \<and>
      ticket_history i d' = ticket_history i d @ [\<lparr>hi_ID = seq (db_history d), hi_TicketID = i, hi_FromStatus = ti_Status t,
        hi_ToStatus = to, hi_ChangedBy = u, hi_ChangedAt = now\<rparr>] \<and>
      (\<forall>j. j \<noteq> i \<longrightarrow> get_ticket j d' = get_ticket j d \<and> ticket_history j d' = ticket_history j d))"
proof (cases "TicketUsecase_UpdateStatus ft now i u role to d")
  case (Pair z d')
  show ?thesis
  proof (cases z)
    case (Inr t')
    with Pair have r: "TicketUsecase_UpdateStatus ft now i u role to d = (Inr t', d')" by simp
    show ?thesis
      by (rule update_effect [OF assms(1) r]) (auto simp: r ticket_trail_def moved_row_def)
  next
    case (Inl e)
    have "\<nexists>t. UpdateStatus_check (ft 0) i u role to d = Inr t"
      using Pair Inl assms(2)
      by (auto simp: TicketUsecase_UpdateStatus_def Tickets_TransitionStatus_def in_transaction.simps exec_stmt_def Let_def)
    then have "d' = d" "UpdateStatus_check (ft 0) i u role to d = Inl e"
      using Pair Inl by (auto simp: TicketUsecase_UpdateStatus_def split: sum.splits)
    with Pair Inl assms(2) show ?thesis
      by (auto simp: UpdateStatus_check_def Tickets_FindByID_def split: option.splits if_splits)
  qed
qed

definition demo_db :: TicketDb where
  "demo_db = run_steps ticket_step (take 3 demo_ops) empty_ticket_db"

lemma demo_db_ok: "tickets_ok demo_db"
  unfolding demo_db_def using tickets.run_audited [OF tickets_ok_empty audited_empty] by blast

theorem update_status_outcome_witness:
  "fst (TicketUsecase_UpdateStatus (\<lambda>_ _. False) 50 1 9 ''agent'' ''closed'' demo_db) = Inl ErrInvalidTransition \<and>
   snd (TicketUsecase_UpdateStatus (\<lambda>_ _. False) 50 1 9 ''agent'' ''closed'' demo_db) = demo_db"
proof -
  have f: "fst (TicketUsecase_UpdateStatus (\<lambda>_ _. False) 50 1 9 ''agent'' ''closed'' demo_db) = Inl ErrInvalidTransition" by code_simp
  with update_status_outcome [OF demo_db_ok, where ft = "\<lambda>_ _. False" and now = 50 and i = 1 and u = 9 and role = "''agent''" and to = "''closed''"] show ?thesis
    by (simp split: prod.splits sum.splits)
qed

text \<open>
  C15. Assigning, outcome by outcome: a user never assigns; an agent only claims for himself
  and only a ticket nobody has; an administrator assigns any ticket to any identifier, whatever
  its status, a closed one included. On success the ticket has the new agent and the status
  "assigned", the trail grows by exactly one row, which names this change, who made it and when, and
  no other ticket changes.
\<close>
theorem assign_ticket_outcome:
  assumes "tickets_ok d" and "\<forall>k j. \<not> ft k j"
  shows "case TicketUsecase_AssignTicket ft now i u role target d of
    (Inl e, d') \<Rightarrow> d' = d \<and>
      (case get_ticket i d of
         None \<Rightarrow> e = ErrRecordNotFound
       | Some t \<Rightarrow> role \<noteq> ''admin'' \<and>
           e = (if role = ''agent'' \<and> target \<in> {0, u} then ErrAlreadyAssigned else ErrForbidden) \<and>
           (e = ErrAlreadyAssigned \<longrightarrow> ti_AssignedAgentID t \<noteq> None))
  | (Inr a, d') \<Rightarrow> (\<exists>t. get_ticket i d = Some t \<and>
      (role = ''admin'' \<and> a = target \<or> role = ''agent'' \<and> a = u \<and> target \<in> {0, u} \<and> ti_AssignedAgentID t = None) \<and>
      get_ticket i d' = Some (t\<lparr>ti_AssignedAgentID := Some a, ti_AssignedAt := Some now, ti_Status := StatusAssigned, ti_UpdatedAt := now\<rparr>) \<and>
      ticket_trail d' i = ticket_trail d i @ [(ti_Status t, StatusAssigned)] \<and>
      ticket_history i d' = ticket_history i d @ [\<lparr>hi_ID = seq (db_history d), hi_TicketID = i, hi_FromStatus = ti_Status t,
        hi_ToStatus = StatusAssigned, hi_ChangedBy = u, hi_ChangedAt = now\<rparr>] \<and>
      (\<forall>j. j \<noteq> i \<longrightarrow> get_ticket j d' = get_ticket j d \<and> ticket_history j d' = ticket_history j d))"
proof (cases "TicketUsecase_AssignTicket ft now i u role target d")
  case (Pair z d')
  show ?thesis
  proof (cases z)
    case (Inr a)
    with Pair have r: "TicketUsecase_AssignTicket ft now i u role target d = (Inr a, d')" by simp
    show ?thesis
    proof (rule assign_effect [OF assms(1) r])
      fix t
      assume t: "get_ticket i d = Some t" "AssignTicket_check (ft 0) i u role target d = Inr a"
        "\<And>j. get_ticket j d' = (if j = i then Some (assigned_row a now t) else get_ticket j d)"
        and h: "\<And>j. ticket_history j d' = ticket_history j d @ (if j = i then [\<lparr>hi_ID = seq (db_history d), hi_TicketID = i,
           hi_FromStatus = ti_Status t, hi_ToStatus = StatusAssigned, hi_ChangedBy = u, hi_ChangedAt = now\<rparr>] else [])"
      have "role = ''admin'' \<and> a = target \<or> role = ''agent'' \<and> a = u \<and> target \<in> {0, u} \<and> ti_AssignedAgentID t = None"
        using t(1,2) by (auto simp: AssignTicket_check_def Tickets_FindByID_def split: if_splits)
      with t h show ?thesis by (simp add: r ticket_trail_def assigned_row_def)
    qed
  next
    case (Inl e)
    have "\<nexists>a. AssignTicket_check (ft 0) i u role target d = Inr a"
    proof
      assume "\<exists>a. AssignTicket_check (ft 0) i u role target d = Inr a"
      then obtain a where a: "AssignTicket_check (ft 0) i u role target d = Inr a" ..
      then obtain t where t: "get_ticket i d = Some t"
        by (auto simp: AssignTicket_check_def Tickets_FindByID_def split: option.splits if_splits)
      have "\<exists>d1. Tickets_AssignAndTransition (ft 1) i a u now d = (Inr (), d1)"
        using assms(2) t by (simp add: Assign_Inr)
      then obtain d1 where "Tickets_AssignAndTransition (ft 1) i a u now d = (Inr (), d1)" ..
      with a Pair Inl show False by (simp add: TicketUsecase_AssignTicket_def)
    qed
    then have "d' = d" "AssignTicket_check (ft 0) i u role target d = Inl e"
      using Pair Inl by (auto simp: TicketUsecase_AssignTicket_def split: sum.splits)
    with Pair Inl assms(2) show ?thesis
      by (auto simp: AssignTicket_check_def Tickets_FindByID_def split: option.splits if_splits)
  qed
qed

definition demo_closed :: TicketDb where
  "demo_closed = run_steps ticket_step (demo_ops @ [OpUpdate (\<lambda>_ _. False) 50 1 9 ''agent'' ''closed'']) empty_ticket_db"

lemma demo_closed_ok: "tickets_ok demo_closed"
  unfolding demo_closed_def using tickets.run_audited [OF tickets_ok_empty audited_empty] by blast

theorem assign_ticket_outcome_witness:
  "ticket_status demo_closed 1 = Some ''closed'' \<and>
   ticket_status (snd (TicketUsecase_AssignTicket (\<lambda>_ _. False) 60 1 2 ''admin'' 0 demo_closed)) 1 = Some ''assigned'' \<and>
   fst (TicketUsecase_AssignTicket (\<lambda>_ _. False) 60 1 2 ''admin'' 0 demo_closed) = Inr 0"
proof -
  have f: "fst (TicketUsecase_AssignTicket (\<lambda>_ _. False) 60 1 2 ''admin'' 0 demo_closed) = Inr 0"
    and s: "ticket_status demo_closed 1 = Some ''closed''" by code_simp+
  with assign_ticket_outcome [OF demo_closed_ok, where ft = "\<lambda>_ _. False" and now = 60 and i = 1 and u = 2 and role = "''admin''" and target = 0]
  show ?thesis by (auto simp: ticket_status_def split: prod.splits sum.splits)
qed

text \<open>
  C16. Who sees what: a ticket is returned to an administrator, to the agent it is assigned to
  and to its owner, and to nobody else; a list contains exactly tickets of the caller's scope
  that pass the filter, at most \<open>limit\<close> of them, newest first.
\<close>
theorem ticket_visibility:
  assumes "tickets_ok d" and "role \<in> {''user'', ''agent'', ''admin''}"
  shows "(\<not> ft 0 \<longrightarrow> TicketUsecase_GetTicketByID ft i u role d =
      (case get_ticket i d of
         None \<Rightarrow> Inl ErrRecordNotFound
       | Some t \<Rightarrow> if role = ''admin'' \<or> role = ''agent'' \<and> ti_AssignedAgentID t = Some u \<or> role = ''user'' \<and> ti_UserID t = u
                  then Inr t else Inl ErrForbidden)) \<and>
    (\<forall>ts. TicketUsecase_GetTickets ft now u role scope f limit offset d = Inr ts \<longrightarrow>
       length ts \<le> nat limit \<and> sorted_wrt (\<lambda>s t. ti_ID t < ti_ID s) ts \<and>
       (\<forall>t\<in>set ts. t \<in> set (rows (db_tickets d)) \<and> applyFilter now f t \<and>
          (role = ''user'' \<longrightarrow> ti_UserID t = u) \<and>
          (role = ''agent'' \<longrightarrow> (if scope = ''queue'' then ti_Status t = StatusOpen else ti_AssignedAgentID t = Some u))))"
proof (intro conjI allI impI)
  assume "\<not> ft 0"
  then show "TicketUsecase_GetTicketByID ft i u role d =
      (case get_ticket i d of
         None \<Rightarrow> Inl ErrRecordNotFound
       | Some t \<Rightarrow> if role = ''admin'' \<or> role = ''agent'' \<and> ti_AssignedAgentID t = Some u \<or> role = ''user'' \<and> ti_UserID t = u
                  then Inr t else Inl ErrForbidden)"
    using assms(2) by (auto simp: TicketUsecase_GetTicketByID_def Tickets_FindByID_def split: option.splits)
next
  fix ts
  assume g: "TicketUsecase_GetTickets ft now u role scope f limit offset d = Inr ts"
  define P where "P t \<longleftrightarrow> (if role = ''admin'' then True else if role = ''agent'' then
      (if scope = ''queue'' then ti_AssignedAgentID t = None else ti_AssignedAgentID t = Some u) else ti_UserID t = u)" for t :: Ticket
  from g have ts: "ts = select_page (\<lambda>t. P t \<and> applyFilter now f t) (\<lambda>t. - int (ti_ID t)) limit offset (db_tickets d)"
    by (auto simp: P_def TicketUsecase_GetTickets_def Tickets_FindAll_def Tickets_FindByUser_def Tickets_FindByAgent_def
        Tickets_FindUnassigned_def find_tickets_def split: if_splits)
  have P: "(role = ''user'' \<longrightarrow> ti_UserID t = u) \<and>
      (role = ''agent'' \<longrightarrow> (if scope = ''queue'' then ti_AssignedAgentID t = None else ti_AssignedAgentID t = Some u))" if "P t" for t
    using that by (auto simp: P_def split: if_splits)
  show "length ts \<le> nat limit" using ts by (simp add: length_select_page)
  show "sorted_wrt (\<lambda>s t. ti_ID t < ti_ID s) ts"
    unfolding ts using assms(1) by (intro select_page_desc) (simp add: tickets_ok_def)
  show "\<forall>t\<in>set ts. t \<in> set (rows (db_tickets d)) \<and> applyFilter now f t \<and>
          (role = ''user'' \<longrightarrow> ti_UserID t = u) \<and>
          (role = ''agent'' \<longrightarrow> (if scope = ''queue'' then ti_Status t = StatusOpen else ti_AssignedAgentID t = Some u))"
    using P assms(1) unfolding ts by (auto simp: tickets_ok_def ticket_wf_def dest!: set_select_page split: if_splits)
qed

theorem ticket_visibility_witness:
  "TicketUsecase_GetTicketByID (\<lambda>_. False) 1 6 ''user'' demo_db = Inl ErrForbidden"
proof -
  have "map_option ti_UserID (get_ticket 1 demo_db) = Some 5" by code_simp
  then obtain t where "get_ticket 1 demo_db = Some t" "ti_UserID t = 5" by auto
  with ticket_visibility [OF demo_db_ok, of "''user''" "\<lambda>_. False" 1 6] show ?thesis by simp
qed

text \<open>
  The check of a claim and its transaction are two steps, and another request may come in
  between: two agents who both find the ticket unassigned both succeed, the second takes the
  ticket from the first, and both get a success (\<open>ErrAlreadyAssigned\<close> is not reported). In the
  same way an agent whose "closed" was checked against a resolved ticket closes it after an
  assignment has come in between, and the trail then holds a change that does not start where
  the one before it ended.
\<close>
theorem check_then_act_race:
  assumes "tickets_ok d" and "get_ticket i d = Some t" and "\<forall>k. \<not> ft k" and "a \<noteq> b"
  shows "(ti_AssignedAgentID t = None \<longrightarrow>
      AssignTicket_check ft i a ''agent'' 0 d = Inr a \<and> AssignTicket_check ft i b ''agent'' 0 d = Inr b \<and>
      (\<exists>d1 d2. Tickets_AssignAndTransition ft i a a now d = (Inr (), d1) \<and>
         Tickets_AssignAndTransition ft i b b now' d1 = (Inr (), d2) \<and>
         map_option ti_AssignedAgentID (get_ticket i d2) = Some (Some b))) \<and>
    (ti_Status t = StatusResolved \<and> ti_AssignedAgentID t = Some a \<longrightarrow>
      UpdateStatus_check ft i a ''agent'' StatusClosed d = Inr t \<and>
      (\<exists>d1 d2. Tickets_AssignAndTransition ft i b c now d = (Inr (), d1) \<and>
         Tickets_TransitionStatus ft i (ti_Status t) StatusClosed a now' d1 = (Inr (), d2) \<and>
         ticket_trail d2 i = ticket_trail d i @ [(StatusResolved, StatusAssigned), (StatusResolved, StatusClosed)] \<and>
         \<not> path StatusOpen (ticket_trail d2 i) StatusClosed))"
proof -
  note wf = wf_get [OF assms(1,2)]
  have step: "Tickets_AssignAndTransition ft i x w now d = (Inr (), insert_history i (ti_Status t) StatusAssigned w now (update_ticket i (assigned_row x now) d))"
    for x w using assms(2,3) by (simp add: Assign_Inr)
  let ?d = "\<lambda>x w. insert_history i (ti_Status t) StatusAssigned w now (update_ticket i (assigned_row x now) d)"
  have ok: "tickets_ok (?d x w)" and get: "get_ticket i (?d x w) = Some (assigned_row x now t)"
    and trail: "ticket_trail (?d x w) i = ticket_trail d i @ [(ti_Status t, StatusAssigned)]" for x w
    using change_ok [OF assms(1,2)] change_get [OF assms(1,2)] assigned_wf [OF wf] by (simp_all add: change_history ticket_trail_def)
  have second: "Tickets_AssignAndTransition ft i b b now' (?d a a) =
      (Inr (), insert_history i StatusAssigned StatusAssigned b now' (update_ticket i (assigned_row b now') (?d a a)))"
    using get assms(3) by (simp add: Assign_Inr)
  have after: "get_ticket i (insert_history i StatusAssigned StatusAssigned b now' (update_ticket i (assigned_row b now') (?d a a))) =
      Some (assigned_row b now' (assigned_row a now t))"
    using change_get [OF ok get] assigned_wf [OF assigned_wf [OF wf]] by simp
  have closing: "Tickets_TransitionStatus ft i (ti_Status t) StatusClosed a now' (?d b c) =
      (Inr (), insert_history i (ti_Status t) StatusClosed a now' (update_ticket i (moved_row StatusClosed now') (?d b c)))"
    using assms(3) by (simp add: Transition_Inr)
  have "path s (es @ [(x, y), (v, w)]) z \<Longrightarrow> y = v" for s es and x y v w z :: string
    by (induction es arbitrary: s) auto
  then have "\<not> path StatusOpen (ticket_trail d i @ [(StatusResolved, StatusAssigned), (StatusResolved, StatusClosed)]) StatusClosed"
    by fastforce
  then show ?thesis
    using assms(2,3) step second after closing trail
    by (auto simp: AssignTicket_check_def Tickets_FindByID_def UpdateStatus_check_Inr allowedTransitions_def change_history ticket_trail_def)
qed

definition demo_unassigned :: TicketDb where
  "demo_unassigned = run_steps ticket_step (take 1 demo_ops) empty_ticket_db"

theorem check_then_act_race_witness:
  "\<exists>d1 d2. Tickets_AssignAndTransition (\<lambda>_. False) 1 8 8 20 demo_unassigned = (Inr (), d1) \<and>
     Tickets_AssignAndTransition (\<lambda>_. False) 1 9 9 21 d1 = (Inr (), d2) \<and> map_option ti_AssignedAgentID (get_ticket 1 d2) = Some (Some 9)"
proof -
  have ok: "tickets_ok demo_unassigned"
    unfolding demo_unassigned_def using tickets.run_audited [OF tickets_ok_empty audited_empty] by blast
  have "map_option ti_AssignedAgentID (get_ticket 1 demo_unassigned) = Some None" by code_simp
  then obtain t where t: "get_ticket 1 demo_unassigned = Some t" "ti_AssignedAgentID t = None" by auto
  have "\<forall>k. \<not> (\<lambda>_. False) (k::nat)" "(8::uint) \<noteq> 9" by simp_all
  from check_then_act_race [OF ok t(1) this, of 20 21] t(2) show ?thesis by blast
qed

end
