(* ===== verification/Comments.thy ===== *)
theory Comments
  imports Tickets
begin

section \<open>Comments and attachments of a ticket (ticket-service)\<close>

text \<open>
  \<open>commentRepository\<close>, \<open>CommentUsecase\<close>, \<open>attachmentRepository\<close> and \<open>AttachmentUsecase\<close>.
  Both use cases ask \<open>TicketUsecase.GetTicketByID\<close> whether the caller may see the ticket. An
  internal note is a comment that only staff may see.
\<close>

subsection \<open>Comments\<close>

definition comment_row :: "time \<Rightarrow> TicketComment \<Rightarrow> uint \<Rightarrow> TicketComment" where
  "comment_row now c commentID = c\<lparr>co_ID := commentID, co_CreatedAt := now\<rparr>"

definition Comments_Create :: "faults \<Rightarrow> time \<Rightarrow> TicketComment \<Rightarrow> TicketDb \<Rightarrow> (TicketDb, TicketComment) result" where
  "Comments_Create ft now c =
     exec_stmt (ft 0) (\<lambda>d. (Inr (comment_row now c (seq (db_comments d))),
       d\<lparr>db_comments := insert_row (comment_row now c) (db_comments d)\<rparr>))"

definition ticket_comments :: "uint \<Rightarrow> TicketDb \<Rightarrow> TicketComment list" where
  "ticket_comments ticketID d = sort_key co_CreatedAt (filter (\<lambda>c. co_TicketID c = ticketID) (rows (db_comments d)))"

definition Comments_FindByTicket :: "faults \<Rightarrow> uint \<Rightarrow> TicketDb \<Rightarrow> err + TicketComment list" where
  "Comments_FindByTicket ft ticketID d = (if ft 0 then Inl ErrDatabase else Inr (ticket_comments ticketID d))"

definition CommentUsecase_Create ::
  "(nat \<Rightarrow> faults) \<Rightarrow> time \<Rightarrow> uint \<Rightarrow> uint \<Rightarrow> string \<Rightarrow> string \<Rightarrow> bool \<Rightarrow> TicketDb \<Rightarrow> (TicketDb, TicketComment \<times> Ticket) result" where
  "CommentUsecase_Create ft now ticketID authorID role body isInternal d =
     (case TicketUsecase_GetTicketByID (ft 0) ticketID authorID role d of
        Inl e \<Rightarrow> (Inl e, d)
      | Inr ticket \<Rightarrow>
          and_then (Comments_Create (ft 1) now \<lparr>co_ID = 0, co_TicketID = ticketID, co_AuthorID = authorID, co_AuthorRole = role,
              co_Body = body, co_IsInternal = isInternal \<and> role \<noteq> ''user'', co_CreatedAt = 0\<rparr> d)
            (\<lambda>comment d. (Inr (comment, ticket), d)))"

definition CommentUsecase_List :: "(nat \<Rightarrow> faults) \<Rightarrow> uint \<Rightarrow> uint \<Rightarrow> string \<Rightarrow> TicketDb \<Rightarrow> err + TicketComment list" where
  "CommentUsecase_List ft ticketID userID role d =
     (case TicketUsecase_GetTicketByID (ft 0) ticketID userID role d of
        Inl e \<Rightarrow> Inl e
      | Inr _ \<Rightarrow>
          (case Comments_FindByTicket (ft 1) ticketID d of
             Inl e \<Rightarrow> Inl e
           | Inr comments \<Rightarrow>
               if role \<noteq> ''user'' then Inr comments
               else Inr (filter (\<lambda>c. \<not> co_IsInternal c) comments)))"

subsection \<open>Attachments\<close>

definition MaxAttachmentSize :: int where
  "MaxAttachmentSize = 5 * 1024 * 1024"

definition attachment_row :: "time \<Rightarrow> TicketAttachment \<Rightarrow> uint \<Rightarrow> TicketAttachment" where
  "attachment_row now a attachmentID = a\<lparr>at_ID := attachmentID, at_CreatedAt := now\<rparr>"

definition Attachments_Create :: "faults \<Rightarrow> time \<Rightarrow> TicketAttachment \<Rightarrow> TicketDb \<Rightarrow> (TicketDb, TicketAttachment) result" where
  "Attachments_Create ft now a =
     exec_stmt (ft 0) (\<lambda>d. (Inr (attachment_row now a (seq (db_attachments d))),
       d\<lparr>db_attachments := insert_row (attachment_row now a) (db_attachments d)\<rparr>))"

text \<open>The list selects every column but the data.\<close>

definition Attachments_FindByTicket :: "faults \<Rightarrow> uint \<Rightarrow> TicketDb \<Rightarrow> err + TicketAttachment list" where
  "Attachments_FindByTicket ft ticketID d =
     (if ft 0 then Inl ErrDatabase
      else Inr (sort_key at_CreatedAt
        (map (\<lambda>a. a\<lparr>at_Data := []\<rparr>) (filter (\<lambda>a. at_TicketID a = ticketID) (rows (db_attachments d))))))"

definition get_attachment :: "uint \<Rightarrow> TicketDb \<Rightarrow> TicketAttachment option" where
  "get_attachment attachmentID d = List.find (\<lambda>a. at_ID a = attachmentID) (rows (db_attachments d))"

definition Attachments_FindByID :: "faults \<Rightarrow> uint \<Rightarrow> TicketDb \<Rightarrow> err + TicketAttachment" where
  "Attachments_FindByID ft attachmentID d =
     (if ft 0 then Inl ErrDatabase
      else case get_attachment attachmentID d of None \<Rightarrow> Inl ErrRecordNotFound | Some a \<Rightarrow> Inr a)"

definition AttachmentUsecase_Create ::
  "(nat \<Rightarrow> faults) \<Rightarrow> time \<Rightarrow> uint \<Rightarrow> uint \<Rightarrow> string \<Rightarrow> string \<Rightarrow> string \<Rightarrow> string \<Rightarrow> TicketDb \<Rightarrow>
    (TicketDb, TicketAttachment \<times> Ticket) result" where
  "AttachmentUsecase_Create ft now ticketID uploaderID role filename contentType data d =
     (if int (length data) > MaxAttachmentSize then (Inl ErrAttachmentTooLarge, d)
      else case TicketUsecase_GetTicketByID (ft 0) ticketID uploaderID role d of
             Inl e \<Rightarrow> (Inl e, d)
           | Inr ticket \<Rightarrow>
               and_then (Attachments_Create (ft 1) now \<lparr>at_ID = 0, at_TicketID = ticketID, at_UploaderID = uploaderID,
                   at_Filename = filename, at_ContentType = contentType, at_Size = int (length data), at_Data = data,
                   at_CreatedAt = 0\<rparr> d)
                 (\<lambda>attachment d. (Inr (attachment, ticket), d)))"

definition AttachmentUsecase_List ::
  "(nat \<Rightarrow> faults) \<Rightarrow> uint \<Rightarrow> uint \<Rightarrow> string \<Rightarrow> TicketDb \<Rightarrow> err + TicketAttachment list" where
  "AttachmentUsecase_List ft ticketID userID role d =
     (case TicketUsecase_GetTicketByID (ft 0) ticketID userID role d of
        Inl e \<Rightarrow> Inl e
      | Inr _ \<Rightarrow> Attachments_FindByTicket (ft 1) ticketID d)"

definition AttachmentUsecase_Get ::
  "(nat \<Rightarrow> faults) \<Rightarrow> uint \<Rightarrow> uint \<Rightarrow> uint \<Rightarrow> string \<Rightarrow> TicketDb \<Rightarrow> err + TicketAttachment" where
  "AttachmentUsecase_Get ft ticketID attachmentID userID role d =
     (case TicketUsecase_GetTicketByID (ft 0) ticketID userID role d of
        Inl e \<Rightarrow> Inl e
      | Inr _ \<Rightarrow>
          (case Attachments_FindByID (ft 1) attachmentID d of
             Inl e \<Rightarrow> Inl e
           | Inr attachment \<Rightarrow>
               if at_TicketID attachment \<noteq> ticketID then Inl ErrForbidden else Inr attachment))"

subsection \<open>The tables stay consistent\<close>

text \<open>
  What the two tables keep: keys are unique, notes by users are never internal, no attachment is
  larger than the limit, and its recorded size is that of its data.
\<close>

definition extras_ok :: "TicketDb \<Rightarrow> bool" where
  "extras_ok d \<longleftrightarrow> keys_ok co_ID (db_comments d) \<and> keys_ok at_ID (db_attachments d) \<and>
     (\<forall>c\<in>set (rows (db_comments d)). co_AuthorRole c = ''user'' \<longrightarrow> \<not> co_IsInternal c) \<and>
     (\<forall>a\<in>set (rows (db_attachments d)). at_Size a = int (length (at_Data a)) \<and> at_Size a \<le> MaxAttachmentSize)"

lemma comment_create_effect:
  assumes "CommentUsecase_Create ft now i u role body internal d = (Inr (c, t), d')"
  shows "TicketUsecase_GetTicketByID (ft 0) i u role d = Inr t \<and>
    c = \<lparr>co_ID = seq (db_comments d), co_TicketID = i, co_AuthorID = u, co_AuthorRole = role, co_Body = body,
         co_IsInternal = (internal \<and> role \<noteq> ''user''), co_CreatedAt = now\<rparr> \<and>
    d' = d\<lparr>db_comments := insert_row (\<lambda>k. c\<lparr>co_ID := k\<rparr>) (db_comments d)\<rparr>"
  using assms by (auto simp: CommentUsecase_Create_def Comments_Create_def and_then_eq_Inr exec_stmt_Inr comment_row_def[abs_def]
      split: sum.splits)

lemma comment_create_Inl: "CommentUsecase_Create ft now i u role body internal d = (Inl e, d') \<Longrightarrow> d' = d"
  by (auto simp: CommentUsecase_Create_def Comments_Create_def and_then_eq_Inl exec_stmt_def split: sum.splits if_splits)

lemma attachment_create_effect:
  assumes "AttachmentUsecase_Create ft now i u role name ct data d = (Inr (a, t), d')"
  shows "TicketUsecase_GetTicketByID (ft 0) i u role d = Inr t \<and> int (length data) \<le> MaxAttachmentSize \<and>
    a = \<lparr>at_ID = seq (db_attachments d), at_TicketID = i, at_UploaderID = u, at_Filename = name, at_ContentType = ct,
         at_Size = int (length data), at_Data = data, at_CreatedAt = now\<rparr> \<and>
    d' = d\<lparr>db_attachments := insert_row (\<lambda>k. a\<lparr>at_ID := k\<rparr>) (db_attachments d)\<rparr>"
  using assms by (auto simp: AttachmentUsecase_Create_def Attachments_Create_def and_then_eq_Inr exec_stmt_Inr
      attachment_row_def[abs_def] split: sum.splits if_splits)

lemma attachment_create_Inl: "AttachmentUsecase_Create ft now i u role name ct data d = (Inl e, d') \<Longrightarrow> d' = d"
  by (auto simp: AttachmentUsecase_Create_def Attachments_Create_def and_then_eq_Inl exec_stmt_def split: sum.splits if_splits)

lemma comment_create_ok: "extras_ok d \<Longrightarrow> extras_ok (snd (CommentUsecase_Create ft now i u role body internal d))"
  by (cases "CommentUsecase_Create ft now i u role body internal d"; cases "fst (CommentUsecase_Create ft now i u role body internal d)")
    (auto simp: extras_ok_def dest!: comment_create_effect comment_create_Inl intro!: keys_ok_insert)

lemma attachment_create_ok: "extras_ok d \<Longrightarrow> extras_ok (snd (AttachmentUsecase_Create ft now i u role name ct data d))"
  by (cases "AttachmentUsecase_Create ft now i u role name ct data d"; cases "fst (AttachmentUsecase_Create ft now i u role name ct data d)")
    (auto simp: extras_ok_def dest!: attachment_create_effect attachment_create_Inl intro!: keys_ok_insert)

end
