(* ===== verification/Reports.thy ===== *)
theory Reports
  imports Tickets Complex_Main
begin

section \<open>Reports over the tickets (ticket-service)\<close>

text \<open>
  \<open>reportRepository\<close>, \<open>ReportUsecase\<close> and the request parameters of \<open>ReportHandler\<close>. The
  SQL aggregates become functions of the rows; the averages are exact rationals. How
  PostgreSQL names the period a time stamp falls into (\<open>to_char(date_trunc(unit, t))\<close>) is the
  parameter \<open>period\<close>.
\<close>

record PeriodCount =
  pc_Period :: string
  pc_Status :: string
  pc_Count :: nat

record AgentStat =
  st_AgentID :: uint
  st_TotalAssigned :: nat
  st_TotalResolved :: nat
  st_AvgResolutionSeconds :: rat

record CriticalTicketRow =
  cr_ID :: uint
  cr_Title :: string
  cr_CreatedAt :: time

record CriticalTrend =
  ct_Count :: nat
  ct_Tickets :: "CriticalTicketRow list"

definition validGroupBy :: "string list" where
  "validGroupBy = [''day'', ''week'', ''month'', ''year'']"

definition report_unit :: "string \<Rightarrow> string" where
  "report_unit groupBy = (if groupBy \<notin> set validGroupBy then ''day'' else groupBy)"

definition between :: "time \<Rightarrow> time \<Rightarrow> time \<Rightarrow> bool" where
  "between from to t \<longleftrightarrow> from \<le> t \<and> t \<le> to"

definition Reports_SummaryByPeriod ::
  "(string \<Rightarrow> time \<Rightarrow> string) \<Rightarrow> faults \<Rightarrow> time \<Rightarrow> time \<Rightarrow> string \<Rightarrow> TicketDb \<Rightarrow> err + PeriodCount list" where
  "Reports_SummaryByPeriod period ft from to groupBy d =
     (let groups = map (\<lambda>t. (period (report_unit groupBy) (ti_CreatedAt t), ti_Status t))
            (filter (\<lambda>t. between from to (ti_CreatedAt t)) (rows (db_tickets d)))
      in if ft 0 then Inl ErrDatabase
         else Inr (map (\<lambda>g. \<lparr>pc_Period = fst g, pc_Status = snd g, pc_Count = count_list groups g\<rparr>)
           (sort_key fst (remdups groups))))"

text \<open>\<open>AVG(resolved_at - assigned_at)\<close> in seconds over the rows that have both, 0 without any.\<close>

definition resolution_times :: "Ticket list \<Rightarrow> duration list" where
  "resolution_times ts = List.map_filter (\<lambda>t. case (ti_ResolvedAt t, ti_AssignedAt t) of
     (Some r, Some a) \<Rightarrow> Some (r - a) | _ \<Rightarrow> None) ts"

definition avg_seconds :: "duration list \<Rightarrow> rat" where
  "avg_seconds ds = (if ds = [] then 0 else of_int (sum_list ds) / (of_nat (length ds) * of_int second))"

definition agent_stat :: "Ticket list \<Rightarrow> uint \<Rightarrow> AgentStat" where
  "agent_stat assigned agentID =
     (let mine = filter (\<lambda>t. ti_AssignedAgentID t = Some agentID) assigned
      in \<lparr>st_AgentID = agentID, st_TotalAssigned = length mine,
          st_TotalResolved = length (filter (\<lambda>t. ti_Status t \<in> {StatusResolved, StatusClosed}) mine),
          st_AvgResolutionSeconds = avg_seconds (resolution_times mine)\<rparr>)"

definition assigned_between :: "time \<Rightarrow> time \<Rightarrow> Ticket \<Rightarrow> bool" where
  "assigned_between from to t \<longleftrightarrow> ti_AssignedAgentID t \<noteq> None \<and>
     (case ti_AssignedAt t of None \<Rightarrow> False | Some a \<Rightarrow> between from to a)"

definition Reports_AgentPerformance :: "faults \<Rightarrow> time \<Rightarrow> time \<Rightarrow> TicketDb \<Rightarrow> err + AgentStat list" where
  "Reports_AgentPerformance ft from to d =
     (let assigned = filter (assigned_between from to) (rows (db_tickets d));
          agents = remdups (List.map_filter ti_AssignedAgentID assigned)
      in if ft 0 then Inl ErrDatabase
         else Inr (sort_key (\<lambda>s. - int (st_TotalAssigned s)) (map (agent_stat assigned) agents)))"

definition high_since :: "time \<Rightarrow> Ticket \<Rightarrow> bool" where
  "high_since since t \<longleftrightarrow> ti_Priority t = ''High'' \<and> since \<le> ti_CreatedAt t"

definition Reports_HighPriorityTrend :: "faults \<Rightarrow> time \<Rightarrow> TicketDb \<Rightarrow> err + CriticalTrend" where
  "Reports_HighPriorityTrend ft since d =
     (if ft 0 then Inl ErrDatabase
      else if ft 1 then Inl ErrDatabase
      else Inr \<lparr>ct_Count = affected (high_since since) (db_tickets d),
                ct_Tickets = map (\<lambda>t. \<lparr>cr_ID = ti_ID t, cr_Title = ti_Title t, cr_CreatedAt = ti_CreatedAt t\<rparr>)
                  (select_page (high_since since) (\<lambda>t. - ti_CreatedAt t) 10 0 (db_tickets d))\<rparr>)"

definition Reports_QueueSize :: "faults \<Rightarrow> TicketDb \<Rightarrow> err + nat" where
  "Reports_QueueSize ft d =
     (if ft 0 then Inl ErrDatabase else Inr (affected (\<lambda>t. ti_AssignedAgentID t = None) (db_tickets d)))"

subsection \<open>Use case and request parameters\<close>

text \<open>\<open>-time.Duration(windowHours) * time.Hour\<close>, at 64 bits.\<close>

definition window_start :: "time \<Rightarrow> int \<Rightarrow> time" where
  "window_start now windowHours = now + wrap64 (wrap64 (- windowHours) * hour)"

definition ReportUsecase_CriticalTrend :: "faults \<Rightarrow> time \<Rightarrow> int \<Rightarrow> TicketDb \<Rightarrow> err + CriticalTrend" where
  "ReportUsecase_CriticalTrend ft now windowHours d = Reports_HighPriorityTrend ft (window_start now windowHours) d"

text \<open>\<open>?hours=\<close>: a positive number, 24 otherwise.\<close>

definition report_hours :: "request \<Rightarrow> int" where
  "report_hours r = (case Atoi (rq_query r ''hours'') of Some h \<Rightarrow> if 0 < h then h else 24 | None \<Rightarrow> 24)"

text \<open>\<open>?from=\<close> and \<open>?to=\<close>: whole days, the last 30 days by default (\<open>AddDate\<close> in UTC).\<close>

definition parseReportRange :: "time \<Rightarrow> request \<Rightarrow> time \<times> time" where
  "parseReportRange now r =
     (let from = (case ParseDate (rq_query r ''from'') of Some t \<Rightarrow> t | None \<Rightarrow> now - 30 * day);
          to = (case ParseDate (rq_query r ''to'') of Some t \<Rightarrow> t + (day - second) | None \<Rightarrow> now)
      in (from, to))"

subsection \<open>What the reports count\<close>

lemma sum_list_remdups: "sum_list (map (count_list xs) (sort_key f (remdups xs))) = length xs"
proof -
  have "sum_list (map (count_list xs) (sort_key f (remdups xs))) = sum (count_list xs) (set xs)"
    by (simp add: sum_list_distinct_conv_sum_set)
  then show ?thesis by (simp add: sum_count_set)
qed

lemma count_list_map: "count_list (map f xs) y = length (filter (\<lambda>x. f x = y) xs)"
  by (induction xs) auto

text \<open>
  The summary: one row for each period and status that occurs among the tickets created in
  the range, ordered by period; each row counts exactly its tickets, and together the rows count
  every ticket of the range once. An unknown grouping is a grouping by day.
\<close>
theorem summary_counts:
  assumes "\<not> ft 0"
  shows "\<exists>ps. Reports_SummaryByPeriod period ft from to g d = Inr ps \<and> sorted (map pc_Period ps) \<and>
    distinct (map (\<lambda>p. (pc_Period p, pc_Status p)) ps) \<and>
    (\<forall>p\<in>set ps. 0 < pc_Count p \<and> pc_Count p = length (filter (\<lambda>t. between from to (ti_CreatedAt t) \<and>
       period (report_unit g) (ti_CreatedAt t) = pc_Period p \<and> ti_Status t = pc_Status p) (rows (db_tickets d)))) \<and>
    sum_list (map pc_Count ps) = length (filter (\<lambda>t. between from to (ti_CreatedAt t)) (rows (db_tickets d)))"
proof -
  define ts where "ts = filter (\<lambda>t. between from to (ti_CreatedAt t)) (rows (db_tickets d))"
  define key where "key t = (period (report_unit g) (ti_CreatedAt t), ti_Status t)" for t :: Ticket
  define groups where "groups = map key ts"
  define row where "row k = \<lparr>pc_Period = fst k, pc_Status = snd k, pc_Count = count_list groups k\<rparr>" for k
  define ps where "ps = map row (sort_key fst (remdups groups))"
  have r: "Reports_SummaryByPeriod period ft from to g d = Inr ps"
    using assms by (simp add: Reports_SummaryByPeriod_def ps_def row_def[abs_def] groups_def ts_def key_def[abs_def] Let_def)
  have "map pc_Period ps = map fst (sort_key fst (remdups groups))"
    by (simp add: ps_def row_def o_def)
  then have srt: "sorted (map pc_Period ps)" by simp
  have "map (\<lambda>p. (pc_Period p, pc_Status p)) ps = sort_key fst (remdups groups)"
    by (simp add: ps_def row_def o_def)
  then have dst: "distinct (map (\<lambda>p. (pc_Period p, pc_Status p)) ps)" by simp
  have cnt: "pc_Count (row k) = length (filter (\<lambda>t. between from to (ti_CreatedAt t) \<and>
       period (report_unit g) (ti_CreatedAt t) = fst k \<and> ti_Status t = snd k) (rows (db_tickets d)))" for k
    by (simp add: row_def groups_def count_list_map ts_def key_def prod_eq_iff conj_commute)
  have pos: "0 < pc_Count (row k)" if "k \<in> set groups" for k
    using that count_notin [of k groups] count_list_0_iff [of groups k] by (auto simp: row_def)
  have sm: "sum_list (map pc_Count ps) = length ts"
    using sum_list_remdups [of groups fst] by (simp add: ps_def row_def o_def groups_def)
  have "\<forall>p\<in>set ps. \<exists>k\<in>set groups. p = row k" by (auto simp: ps_def)
  with r srt dst cnt pos sm show ?thesis
    by (intro exI [of _ ps]) (auto simp: row_def ts_def)
qed

definition demo_summary :: TicketDb where
  "demo_summary = snd (TicketUsecase_Create (\<lambda>_. False) 20 (new_ticket ''b'' ''d'' 5 ''Low'' ''IT'')
     (snd (TicketUsecase_Create (\<lambda>_. False) 10 (new_ticket ''a'' ''d'' 5 ''High'' ''IT'') empty_ticket_db)))"

theorem summary_counts_witness:
  "\<exists>ps. Reports_SummaryByPeriod (\<lambda>u t. u) (\<lambda>_. False) 0 15 ''decade'' demo_summary = Inr ps \<and> sum_list (map pc_Count ps) = 1"
proof -
  have "length (filter (\<lambda>t. between 0 15 (ti_CreatedAt t)) (rows (db_tickets demo_summary))) = 1" by code_simp
  with summary_counts [of "\<lambda>_. False" "\<lambda>u t. u" 0 15 "''decade''" demo_summary] show ?thesis by auto
qed

text \<open>
  The critical trend counts exactly the High tickets of the last \<open>hours\<close> hours and previews
  the newest ten at most, for every window up to 2562047 hours. Above that the 64-bit product
  overflows: up to 5124095 hours the window starts in the future and an endpoint asked about the
  last 300 years and more reports that there are no critical tickets.
\<close>
theorem critical_window:
  assumes "\<forall>k. \<not> ft k" and "0 < h"
  shows "\<exists>ct. ReportUsecase_CriticalTrend ft now h d = Inr ct \<and> length (ct_Tickets ct) \<le> 10 \<and>
    (h \<le> 2562047 \<longrightarrow> ct_Count ct = length (filter (\<lambda>t. ti_Priority t = ''High'' \<and> now - h * hour \<le> ti_CreatedAt t) (rows (db_tickets d)))) \<and>
    (2562047 < h \<and> h \<le> 5124095 \<and> (\<forall>t\<in>set (rows (db_tickets d)). ti_CreatedAt t \<le> now) \<longrightarrow>
       ct_Count ct = 0 \<and> ct_Tickets ct = [])"
proof -
  have small: "window_start now h = now - h * hour" if "h \<le> 2562047"
    using that assms(2) by (simp add: window_start_def)
  have large: "now < window_start now h" if "2562047 < h" "h \<le> 5124095"
  proof -
    define x where "x = 2 ^ 63 - h * hour"
    have "x mod 2 ^ 64 = (x + 2 ^ 64) mod 2 ^ 64" by simp
    also have "\<dots> = x + 2 ^ 64" using that by (intro mod_pos_pos_trivial) (simp_all add: x_def)
    finally have "(2 ^ 63 - h * hour) mod 2 ^ 64 = 2 ^ 63 - h * hour + 2 ^ 64" by (simp add: x_def)
    with that assms(2) show ?thesis by (simp add: window_start_def wrap64_def)
  qed
  have none: "filter (high_since (window_start now h)) (rows (db_tickets d)) = []"
    if "2562047 < h" "h \<le> 5124095" "\<forall>t\<in>set (rows (db_tickets d)). ti_CreatedAt t \<le> now"
    using large [OF that(1,2)] that(3) by (auto simp: filter_empty_conv high_since_def)
  show ?thesis
    using assms(1) small none
    by (auto simp: ReportUsecase_CriticalTrend_def Reports_HighPriorityTrend_def affected_def high_since_def length_select_page
        select_page_def cong: filter_cong)
qed

theorem critical_window_witness:
  "map_sum id ct_Count (ReportUsecase_CriticalTrend (\<lambda>_. False) 20 48 demo_summary) = Inr 1 \<and>
   map_sum id ct_Count (ReportUsecase_CriticalTrend (\<lambda>_. False) 20 3000000 demo_summary) = Inr 0"
proof -
  have f: "length (filter (\<lambda>t. ti_Priority t = ''High'' \<and> 20 - 48 * hour \<le> ti_CreatedAt t) (rows (db_tickets demo_summary))) = 1"
    and p: "\<forall>t\<in>set (rows (db_tickets demo_summary)). ti_CreatedAt t \<le> 20" by code_simp+
  have n: "\<forall>k. \<not> (\<lambda>_. False) (k::nat)" by simp
  show ?thesis
    using critical_window [OF n, of 48 20 demo_summary] critical_window [OF n, of 3000000 20 demo_summary] f p by auto
qed

subsection \<open>Agent performance\<close>

lemma agents_of: "a \<in> set (List.map_filter ti_AssignedAgentID ts) \<longleftrightarrow> (\<exists>t\<in>set ts. ti_AssignedAgentID t = Some a)"
  by (force simp: List.map_filter_def)

lemma agent_performance_row:
  assumes "\<not> ft 0" and "Reports_AgentPerformance ft from to d = Inr rows'"
  shows "set rows' = agent_stat (filter (assigned_between from to) (rows (db_tickets d))) `
    {a. \<exists>t\<in>set (rows (db_tickets d)). assigned_between from to t \<and> ti_AssignedAgentID t = Some a}"
proof -
  let ?ts = "filter (assigned_between from to) (rows (db_tickets d))"
  have "rows' = sort_key (\<lambda>s. - int (st_TotalAssigned s)) (map (agent_stat ?ts) (remdups (List.map_filter ti_AssignedAgentID ?ts)))"
    using assms by (simp add: Reports_AgentPerformance_def Let_def)
  then have "set rows' = agent_stat ?ts ` set (List.map_filter ti_AssignedAgentID ?ts)" by simp
  also have "set (List.map_filter ti_AssignedAgentID ?ts) = {a. \<exists>t\<in>set (rows (db_tickets d)). assigned_between from to t \<and> ti_AssignedAgentID t = Some a}"
    by (auto simp: agents_of)
  finally show ?thesis .
qed

lemma filter_eq_single:
  assumes "distinct xs" and "x \<in> set xs" and "\<And>y. y \<in> set xs \<Longrightarrow> P y \<longleftrightarrow> y = x"
  shows "filter P xs = [x]"
proof -
  have "filter P xs = filter (\<lambda>y. y = x) xs" using assms(3) by (intro filter_cong) auto
  also have "\<dots> = [x]" using assms(1,2) by (induction xs) (auto simp: filter_empty_conv)
  finally show ?thesis .
qed

text \<open>
  Agent performance after a reassignment: resolving a ticket sets \<open>resolved_at\<close> and
  assigning it again moves \<open>assigned_at\<close> on but keeps \<open>resolved_at\<close>. A ticket that was resolved
  and is then handed to an agent with no other work gives this agent a row with one assigned and
  no resolved ticket, and a negative average resolution time.
\<close>
theorem reassigned_negative_resolution:
  assumes "tickets_ok d" and "get_ticket i d = Some t" and "ti_ResolvedAt t = Some r" and "r < now"
    and "\<forall>t'\<in>set (rows (db_tickets d)). ti_AssignedAgentID t' = Some a \<longrightarrow> ti_ID t' = i"
    and "TicketUsecase_AssignTicket ft now i u ''admin'' a d = (Inr a, d')"
    and "between from to now" and "\<not> ft' 0"
  shows "\<exists>rs. Reports_AgentPerformance ft' from to d' = Inr rs \<and>
    \<lparr>st_AgentID = a, st_TotalAssigned = 1, st_TotalResolved = 0, st_AvgResolutionSeconds = of_int (r - now) / of_int second\<rparr> \<in> set rs \<and>
    of_int (r - now) / of_int second < (0 :: rat)"
proof (rule assign_effect [OF assms(1,6)])
  fix t0
  assume t0: "get_ticket i d = Some t0" and get: "\<And>j. get_ticket j d' = (if j = i then Some (assigned_row a now t0) else get_ticket j d)"
    and ok: "tickets_ok d'"
  have [simp]: "t0 = t" using t0 assms(2) by simp
  have mine: "t' \<in> set (rows (db_tickets d')) \<Longrightarrow> ti_AssignedAgentID t' = Some a \<longleftrightarrow> t' = assigned_row a now t" for t'
    using get [of "ti_ID t'"] assms(1,5) ok get_ticket_Some [OF ok, of "ti_ID t'" t'] get_ticket_Some [OF assms(1), of "ti_ID t'" t']
    by (auto split: if_splits)
  have mem: "assigned_row a now t \<in> set (rows (db_tickets d'))"
    using get [of i] get_ticket_Some [OF ok, of i] by simp
  have btw: "assigned_between from to (assigned_row a now t)"
    using assms(7) by (simp add: assigned_between_def assigned_row_def)
  have "distinct (rows (db_tickets d'))"
    using ok by (auto simp: tickets_ok_def keys_ok_def distinct_map)
  then have "filter (\<lambda>t. ti_AssignedAgentID t = Some a) (filter (assigned_between from to) (rows (db_tickets d'))) = [assigned_row a now t]"
    using mem mine btw by (intro filter_eq_single) (auto simp: distinct_filter)
  then have stat: "agent_stat (filter (assigned_between from to) (rows (db_tickets d'))) a =
      \<lparr>st_AgentID = a, st_TotalAssigned = 1, st_TotalResolved = 0, st_AvgResolutionSeconds = of_int (r - now) / of_int second\<rparr>"
    using assms(3) by (simp add: agent_stat_def resolution_times_def List.map_filter_def avg_seconds_def assigned_row_def)
  obtain rs where rs: "Reports_AgentPerformance ft' from to d' = Inr rs"
    using assms(8) by (simp add: Reports_AgentPerformance_def Let_def)
  have "agent_stat (filter (assigned_between from to) (rows (db_tickets d'))) a \<in> set rs"
    using mem btw unfolding agent_performance_row [OF assms(8) rs]
    by (intro imageI CollectI bexI [of _ "assigned_row a now t"]) simp_all
  moreover have "of_int (r - now) / of_int second < (0 :: rat)" using assms(4) by (simp add: divide_neg_pos)
  ultimately show ?thesis using rs stat by (intro exI [of _ rs]) simp
qed

theorem reassigned_negative_resolution_witness:
  "\<exists>rs. Reports_AgentPerformance (\<lambda>_. False) 0 100 (snd (TicketUsecase_AssignTicket (\<lambda>_ _. False) 60 1 2 ''admin'' 4 demo_closed)) = Inr rs \<and>
     (\<exists>s\<in>set rs. st_AgentID s = 4 \<and> st_AvgResolutionSeconds s < 0)"
proof -
  have "map_option ti_ResolvedAt (get_ticket 1 demo_closed) = Some (Some 40)"
    and mine: "\<forall>t'\<in>set (rows (db_tickets demo_closed)). ti_AssignedAgentID t' = Some 4 \<longrightarrow> ti_ID t' = 1"
    and f: "fst (TicketUsecase_AssignTicket (\<lambda>_ _. False) 60 1 2 ''admin'' 4 demo_closed) = Inr 4" by code_simp+
  then obtain t where t: "get_ticket 1 demo_closed = Some t" "ti_ResolvedAt t = Some 40" by auto
  from f have r: "TicketUsecase_AssignTicket (\<lambda>_ _. False) 60 1 2 ''admin'' 4 demo_closed =
      (Inr 4, snd (TicketUsecase_AssignTicket (\<lambda>_ _. False) 60 1 2 ''admin'' 4 demo_closed))"
    by (metis prod.collapse)
  have b: "between 0 100 60" by (simp add: between_def)
  have "\<exists>rs. Reports_AgentPerformance (\<lambda>_. False) 0 100 (snd (TicketUsecase_AssignTicket (\<lambda>_ _. False) 60 1 2 ''admin'' 4 demo_closed)) = Inr rs \<and>
      \<lparr>st_AgentID = 4, st_TotalAssigned = 1, st_TotalResolved = 0, st_AvgResolutionSeconds = of_int (40 - 60) / of_int second\<rparr> \<in> set rs \<and>
      of_int (40 - 60) / of_int second < (0 :: rat)"
    by (rule reassigned_negative_resolution [OF demo_closed_ok t _ mine r b]) simp_all
  then show ?thesis
    by (elim exE conjE) (intro exI conjI bexI; (assumption | simp))
qed

end
