(* ===== verification/JsonText.thy ===== *)
theory JsonText
  imports Http
begin

section \<open>JSON as text: encoding/json\<close>

text \<open>
  \<open>json.Marshal\<close> and \<open>json.Unmarshal\<close> on the byte level, as far as the services use them: the
  printer of a value and the parser that the decoder of a struct works on (\<open>raw\<close>, a number
  still being its literal). Strings are quoted and unquoted as Go does it: the characters HTML
  cares about and the two line separators are escaped, and bytes that are not UTF-8 become the
  replacement character. The parser counts down the length of its input, so it always returns;
  Go's limit of 10000 nested values is left out.
\<close>

subsection \<open>UTF-8\<close>

definition cont :: "nat \<Rightarrow> bool" where
  "cont x \<longleftrightarrow> 128 \<le> x \<and> x \<le> 191"

text \<open>The k-th byte; 0, which is no continuation byte, past the end.\<close>

definition byte :: "string \<Rightarrow> nat \<Rightarrow> nat" where
  "byte s k = (if k < length s then of_char (s ! k) else 0)"

text \<open>A valid encoding of one rune in the first n bytes (the table of \<open>utf8.DecodeRune\<close>).\<close>

definition rune_of_len :: "nat \<Rightarrow> string \<Rightarrow> bool" where
  "rune_of_len n s \<longleftrightarrow>
     (let x = byte s 0; y = byte s 1 in
      if n = 1 then s \<noteq> [] \<and> x < 128
      else if n = 2 then 194 \<le> x \<and> x \<le> 223 \<and> cont y
      else if n = 3 then 224 \<le> x \<and> x \<le> 239 \<and> cont y \<and> (x = 224 \<longrightarrow> 160 \<le> y) \<and> (x = 237 \<longrightarrow> y \<le> 159) \<and> cont (byte s 2)
      else n = 4 \<and> 240 \<le> x \<and> x \<le> 244 \<and> cont y \<and> (x = 240 \<longrightarrow> 144 \<le> y) \<and> (x = 244 \<longrightarrow> y \<le> 143) \<and>
        cont (byte s 2) \<and> cont (byte s 3))"

text \<open>The length of the rune a string starts with, 0 when the string is empty or invalid there.\<close>

definition rune_len :: "string \<Rightarrow> nat" where
  "rune_len s =
     (if rune_of_len 1 s then 1 else if rune_of_len 2 s then 2 else if rune_of_len 3 s then 3
      else if rune_of_len 4 s then 4 else 0)"

lemma cont_byte: "cont (byte s k) \<Longrightarrow> k < length s"
  by (auto simp: cont_def byte_def split: if_splits)

lemma byte_take: "k < n \<Longrightarrow> n \<le> length s \<Longrightarrow> byte (take n s @ t) k = byte s k"
  by (simp add: byte_def nth_append)

lemma rune_of_len_range: "rune_of_len n s \<Longrightarrow> n \<in> {1, 2, 3, 4}"
  by (auto simp: rune_of_len_def Let_def split: if_splits)

lemma rune_of_len_lead:
  assumes "rune_of_len n s"
  shows "n = (let x = byte s 0 in if x < 128 then 1 else if x \<le> 223 then 2 else if x \<le> 239 then 3 else 4)"
  using rune_of_len_range [OF assms] assms by (elim insertE) (simp_all add: rune_of_len_def Let_def)

lemma rune_of_len_len: "rune_of_len n s \<longleftrightarrow> 0 < n \<and> rune_len s = n"
proof
  assume r: "rune_of_len n s"
  have "rune_of_len m s \<longleftrightarrow> m = n" for m
    using r trans [OF rune_of_len_lead rune_of_len_lead [OF r, symmetric]] by blast
  with rune_of_len_range [OF r] show "0 < n \<and> rune_len s = n"
    by (elim insertE) (simp_all add: rune_len_def)
next
  assume "0 < n \<and> rune_len s = n"
  then show "rune_of_len n s" by (auto simp: rune_len_def split: if_splits)
qed

lemma rune_of_len_le:
  assumes "rune_of_len n s"
  shows "n \<le> length s"
  using rune_of_len_range [OF assms] assms cont_byte [of s 1] cont_byte [of s 2] cont_byte [of s 3]
  by (elim insertE) (simp_all add: rune_of_len_def Let_def Suc_le_eq)

lemma rune_of_len_take:
  assumes "rune_of_len n s"
  shows "rune_of_len n (take n s @ t)"
proof -
  have b: "byte (take n s @ t) k = byte s k" if "k < n" for k
    using that rune_of_len_le [OF assms] by (rule byte_take)
  have "take n s @ t \<noteq> []" using rune_of_len_le [OF assms] rune_of_len_range [OF assms] by auto
  with assms rune_of_len_range [OF assms] b [of 0] b [of 1] b [of 2] b [of 3] show ?thesis
    unfolding rune_of_len_def Let_def by (elim insertE) simp_all
qed

lemma rune_len_pos: "0 < rune_len s \<longleftrightarrow> rune_of_len (rune_len s) s"
  by (simp add: rune_of_len_len)

lemma rune_len_le: "rune_len s \<le> length s"
  using rune_of_len_le [of "rune_len s" s] rune_len_pos [of s] by (cases "rune_len s = 0") auto

lemma rune_len_take: "0 < rune_len s \<Longrightarrow> rune_len (take (rune_len s) s @ t) = rune_len s"
  using rune_of_len_take [of "rune_len s" s t] by (simp add: rune_of_len_len)

lemma rune_len_ne: "0 < rune_len s \<Longrightarrow> s \<noteq> []"
  using rune_len_le [of s] by auto

lemma rune_len_ascii: "rune_len (c # s) = 1 \<longleftrightarrow> (of_char c :: nat) < 128"
  using rune_of_len_len [of 1 "c # s"] by (simp add: rune_of_len_def byte_def)

text \<open>\<open>utf8.EncodeRune\<close>.\<close>

definition EncodeRune :: "nat \<Rightarrow> string" where
  "EncodeRune r = map char_of
     (if r < 128 then [r]
      else if r < 2048 then [192 + r div 64, 128 + r mod 64]
      else if r < 65536 then [224 + r div 4096, 128 + r div 64 mod 64, 128 + r mod 64]
      else [240 + r div 262144, 128 + r div 4096 mod 64, 128 + r div 64 mod 64, 128 + r mod 64])"

text \<open>\<open>utf8.RuneError\<close>, and a string with every invalid byte replaced by it.\<close>

definition RuneError :: string where
  "RuneError = map char_of [239, 191, 189 :: nat]"

function to_valid :: "string \<Rightarrow> string" where
  "to_valid s =
     (if s = [] then []
      else if rune_len s = 0 then RuneError @ to_valid (tl s)
      else take (rune_len s) s @ to_valid (drop (rune_len s) s))"
  by pat_completeness auto
termination by (relation "measure length") (auto dest: rune_len_ne)

declare to_valid.simps [simp del]

subsection \<open>Strings\<close>

definition escape_rune :: "string \<Rightarrow> string" where
  "escape_rune r =
     (if r = [CHR 0x22] then [CHR 0x5C, CHR 0x22]
      else if r = [CHR 0x5C] then [CHR 0x5C, CHR 0x5C]
      else if r = [CHR 0x08] then [CHR 0x5C, CHR ''b'']
      else if r = [CHR 0x0C] then [CHR 0x5C, CHR ''f'']
      else if r = [CHR 0x0A] then [CHR 0x5C, CHR ''n'']
      else if r = [CHR 0x0D] then [CHR 0x5C, CHR ''r'']
      else if r = [CHR 0x09] then [CHR 0x5C, CHR ''t'']
      else if length r = 1 \<and> (byte r 0 < 32 \<or> r \<in> {''<'', ''>'', ''&''}) then CHR 0x5C # ''u00'' @ hex_encode r
      else if r = map char_of [226, 128, 168 :: nat] then CHR 0x5C # ''u2028''
      else if r = map char_of [226, 128, 169 :: nat] then CHR 0x5C # ''u2029''
      else r)"

function escape :: "string \<Rightarrow> string" where
  "escape s =
     (if s = [] then []
      else if rune_len s = 0 then CHR 0x5C # ''ufffd'' @ escape (tl s)
      else escape_rune (take (rune_len s) s) @ escape (drop (rune_len s) s))"
  by pat_completeness auto
termination by (relation "measure length") (auto dest: rune_len_ne)

declare escape.simps [simp del]

definition quote :: "string \<Rightarrow> string" where
  "quote s = CHR 0x22 # escape s @ [CHR 0x22]"

definition hex_val :: "char \<Rightarrow> nat option" where
  "hex_val c = (let n = of_char c in
     if 48 \<le> n \<and> n \<le> 57 then Some (n - 48) else if 97 \<le> n \<and> n \<le> 102 then Some (n - 87)
     else if 65 \<le> n \<and> n \<le> 70 then Some (n - 55) else None)"

fun getu4 :: "string \<Rightarrow> (nat \<times> string) option" where
  "getu4 (a # b # c # d # s) =
     (case (hex_val a, hex_val b, hex_val c, hex_val d) of
        (Some i, Some j, Some k, Some l) \<Rightarrow> Some (4096 * i + 256 * j + 16 * k + l, s)
      | _ \<Rightarrow> None)"
| "getu4 _ = None"

text \<open>What follows a backslash: the bytes it stands for and the rest; surrogates come in pairs.\<close>

definition escape_seq :: "string \<Rightarrow> (string \<times> string) option" where
  "escape_seq s = (case s of [] \<Rightarrow> None | c # cs \<Rightarrow>
     if c \<in> {CHR 0x22, CHR 0x5C, CHR ''/''} then Some ([c], cs)
     else if c = CHR ''b'' then Some ([CHR 0x08], cs)
     else if c = CHR ''f'' then Some ([CHR 0x0C], cs)
     else if c = CHR ''n'' then Some ([CHR 0x0A], cs)
     else if c = CHR ''r'' then Some ([CHR 0x0D], cs)
     else if c = CHR ''t'' then Some ([CHR 0x09], cs)
     else if c = CHR ''u'' then
       (case getu4 cs of
          None \<Rightarrow> None
        | Some (u, r) \<Rightarrow>
            if 0xD800 \<le> u \<and> u < 0xE000 then
              (case (if is_prefix [CHR 0x5C, CHR ''u''] r then getu4 (drop 2 r) else None) of
                 Some (v, r') \<Rightarrow>
                   if u < 0xDC00 \<and> 0xDC00 \<le> v \<and> v < 0xE000
                   then Some (EncodeRune (0x10000 + 0x400 * (u - 0xD800) + (v - 0xDC00)), r') else Some (RuneError, r)
               | None \<Rightarrow> Some (RuneError, r))
            else Some (EncodeRune u, r))
     else None)"

lemma getu4_length: "getu4 s = Some (u, r) \<Longrightarrow> length r < length s"
  by (cases s rule: getu4.cases) (auto split: option.splits)

lemma escape_seq_length: "escape_seq s = Some (x, r) \<Longrightarrow> length r < length s"
  by (auto simp: escape_seq_def dest!: getu4_length split: list.splits if_splits option.splits)

text \<open>The string after an opening quote: its content and what follows the closing quote.\<close>

function unquote :: "string \<Rightarrow> (string \<times> string) option" where
  "unquote s =
     (case s of [] \<Rightarrow> None | c # cs \<Rightarrow>
        if c = CHR 0x22 then Some ([], cs)
        else if c = CHR 0x5C then
          (case escape_seq cs of None \<Rightarrow> None | Some (x, r) \<Rightarrow> map_option (map_prod ((@) x) (\<lambda>t. t)) (unquote r))
        else if (of_char c :: nat) < 32 then None
        else if rune_len s = 0 then map_option (map_prod ((@) RuneError) (\<lambda>t. t)) (unquote cs)
        else map_option (map_prod ((@) (take (rune_len s) s)) (\<lambda>t. t)) (unquote (drop (rune_len s) s)))"
  by pat_completeness auto
termination by (relation "measure length") (auto dest: rune_len_ne escape_seq_length)

declare unquote.simps [simp del]

text \<open>Unquoting takes back quoting, up to the bytes that were no UTF-8.\<close>

lemma hex_val_digit: "d < 16 \<Longrightarrow> hex_val (hex_digit d) = Some d"
proof -
  have "\<forall>d\<in>set [0..<16]. hex_val (hex_digit d) = Some d" by code_simp
  then show "d < 16 \<Longrightarrow> hex_val (hex_digit d) = Some d" by simp
qed

lemma hex_val_0 [simp]: "hex_val (CHR ''0'') = Some 0"
  by (simp add: hex_val_def)

lemma escape_seq_u00:
  assumes "(of_char c :: nat) < 128"
  shows "escape_seq (''u00'' @ hex_encode [c] @ t) = Some ([c], t)"
proof -
  have d: "hex_val (hex_digit (of_char c div 16)) = Some (of_char c div 16)"
    "hex_val (hex_digit (of_char c mod 16)) = Some (of_char c mod 16)"
    using assms by (simp_all add: hex_val_digit)
  have "16 * (of_char c div 16) + of_char c mod 16 = (of_char c :: nat)" by simp
  with d assms show ?thesis by (simp add: escape_seq_def hex_encode_def EncodeRune_def)
qed

lemma unquote_escaped:
  "escape_seq s = Some (x, t) \<Longrightarrow> unquote (CHR 0x5C # s) = map_option (map_prod ((@) x) (\<lambda>t. t)) (unquote t)"
  by (subst unquote.simps) simp

lemma unquote_plain:
  assumes "0 < rune_len r" and "rune_len r = length r" and "hd r \<notin> {CHR 0x22, CHR 0x5C}" and "32 \<le> byte r 0"
  shows "unquote (r @ t) = map_option (map_prod ((@) r) (\<lambda>t. t)) (unquote t)"
proof -
  have n: "rune_len (r @ t) = length r" using rune_len_take [of r t] assms(1,2) by simp
  obtain c cs where r: "r = c # cs" using assms(1) rune_len_ne by (cases r) auto
  have "unquote (r @ t) = map_option (map_prod ((@) (take (rune_len (r @ t)) (r @ t))) (\<lambda>t. t)) (unquote (drop (rune_len (r @ t)) (r @ t)))"
    using assms(1,3,4) n r by (subst unquote.simps) (simp add: byte_def)
  with n show ?thesis by simp
qed

lemma escape_seq_simps [simp]:
  "escape_seq (CHR 0x22 # t) = Some ([CHR 0x22], t)" "escape_seq (CHR 0x5C # t) = Some ([CHR 0x5C], t)"
  "escape_seq (CHR ''b'' # t) = Some ([CHR 0x08], t)" "escape_seq (CHR ''f'' # t) = Some ([CHR 0x0C], t)"
  "escape_seq (CHR ''n'' # t) = Some ([CHR 0x0A], t)" "escape_seq (CHR ''r'' # t) = Some ([CHR 0x0D], t)"
  "escape_seq (CHR ''t'' # t) = Some ([CHR 0x09], t)"
  by (simp_all add: escape_seq_def)

lemma escape_seq_u:
  "escape_seq (''ufffd'' @ t) = Some (RuneError, t)"
  "escape_seq (''u2028'' @ t) = Some (map char_of [226, 128, 168 :: nat], t)"
  "escape_seq (''u2029'' @ t) = Some (map char_of [226, 128, 169 :: nat], t)"
  by (simp_all add: escape_seq_def hex_val_def EncodeRune_def RuneError_def)

lemma unquote_escape_rune:
  assumes "0 < rune_len r" and "rune_len r = length r"
  shows "unquote (escape_rune r @ t) = map_option (map_prod ((@) r) (\<lambda>t. t)) (unquote t)"
proof -
  let ?simple = "{[CHR 0x22], [CHR 0x5C], [CHR 0x08], [CHR 0x0C], [CHR 0x0A], [CHR 0x0D], [CHR 0x09]}"
  let ?u00 = "length r = 1 \<and> (byte r 0 < 32 \<or> r \<in> {''<'', ''>'', ''&''})"
  let ?sep = "{map char_of [226, 128, 168 :: nat], map char_of [226, 128, 169 :: nat]}"
  show ?thesis
  proof (cases "r \<in> ?simple")
    case True
    then show ?thesis by (auto simp: escape_rune_def unquote_escaped)
  next
    case ns: False
    show ?thesis
    proof (cases ?u00)
      case True
      then obtain c where c: "r = [c]" by (cases r) auto
      then have "(of_char c :: nat) < 128" using assms rune_len_ascii [of c "[]"] by simp
      moreover have "escape_rune r = CHR 0x5C # ''u00'' @ hex_encode r"
        using ns True by (simp only: escape_rune_def insert_iff empty_iff de_Morgan_disj if_True if_False simp_thms)
      ultimately show ?thesis using escape_seq_u00 [of c t] c by (simp add: unquote_escaped)
    next
      case nu: False
      show ?thesis
      proof (cases "r \<in> ?sep")
        case True
        then show ?thesis using escape_seq_u [of t]
          by (elim insertE emptyE) (simp_all add: escape_rune_def byte_def unquote_escaped)
      next
        case False
        have e: "escape_rune r = r"
          using ns nu False by (simp only: escape_rune_def insert_iff empty_iff de_Morgan_disj if_True if_False simp_thms)
        have "r \<noteq> []" using assms(1) rune_len_ne by blast
        have b: "length r \<noteq> 1 \<longrightarrow> 128 \<le> byte r 0"
          using rune_of_len_lead [of "length r" r] assms by (simp add: rune_of_len_len Let_def split: if_splits)
        have h: "byte r 0 = of_char (hd r)" using \<open>r \<noteq> []\<close> by (simp add: byte_def hd_conv_nth)
        have "hd r \<notin> {CHR 0x22, CHR 0x5C}" using ns b h \<open>r \<noteq> []\<close> by (cases r; cases "tl r") auto
        moreover have "32 \<le> byte r 0" using nu b by (cases "length r = 1") auto
        ultimately show ?thesis using unquote_plain [OF assms] e by simp
      qed
    qed
  qed
qed

lemma unquote_escape: "unquote (escape s @ CHR 0x22 # rest) = Some (to_valid s, rest)"
proof (induction s rule: escape.induct)
  case (1 s)
  consider "s = []" | (bad) "s \<noteq> []" "rune_len s = 0" | (rune) "s \<noteq> []" "0 < rune_len s" by fastforce
  then show ?case
  proof cases
    assume "s = []"
    then show ?thesis by (simp add: escape.simps to_valid.simps unquote.simps)
  next
    case bad
    with "1.IH"(1) show ?thesis
      using unquote_escaped [OF escape_seq_u(1)] by (subst escape.simps) (simp add: to_valid.simps [of s])
  next
    case rune
    let ?r = "take (rune_len s) s"
    have "rune_len ?r = rune_len s" using rune_len_take [of s "[]"] rune by simp
    then have "rune_len ?r = length ?r" "0 < rune_len ?r" using rune_len_le [of s] rune by simp_all
    from unquote_escape_rune [OF this(2,1)] "1.IH"(2) rune show ?thesis
      by (subst escape.simps) (simp add: to_valid.simps [of s])
  qed
qed

lemma unquote_quote: "unquote (tl (quote s) @ rest) = Some (to_valid s, rest)"
  by (simp add: quote_def unquote_escape)

subsection \<open>Values\<close>

definition join_with :: "string \<Rightarrow> string list \<Rightarrow> string" where
  "join_with sep xs = concat (case xs of [] \<Rightarrow> [] | y # ys \<Rightarrow> y # map ((@) sep) ys)"

fun print_raw :: "raw \<Rightarrow> string" where
  "print_raw Raw_null = ''null''"
| "print_raw (Raw_bool b) = (if b then ''true'' else ''false'')"
| "print_raw (Raw_num lit) = lit"
| "print_raw (Raw_str s) = quote s"
| "print_raw (Raw_arr xs) = ''['' @ join_with '','' (map print_raw xs) @ '']''"
| "print_raw (Raw_obj kvs) = ''{'' @ join_with '','' (map (\<lambda>(k, v). quote k @ '':'' @ print_raw v) kvs) @ ''}''"

definition skip_ws :: "string \<Rightarrow> string" where
  "skip_ws s = dropWhile (\<lambda>c. c \<in> {CHR 0x20, CHR 0x09, CHR 0x0A, CHR 0x0D}) s"

text \<open>A number: an optional minus, an integer without leading zeros, a fraction, an exponent.\<close>

definition take_digits :: "string \<Rightarrow> (string \<times> string) option" where
  "take_digits s = (let ds = takeWhile is_digit s in if ds = [] then None else Some (ds, dropWhile is_digit s))"

definition parse_number :: "string \<Rightarrow> (string \<times> string) option" where
  "parse_number s =
     (let sign = (if is_prefix ''-'' s then ''-'' else []); u = drop (length sign) s in
      case (if is_prefix ''0'' u then Some (''0'', tl u) else take_digits u) of
        None \<Rightarrow> None
      | Some (ip, u) \<Rightarrow>
          (case (if is_prefix ''.'' u then map_option (map_prod ((@) ''.'') (\<lambda>t. t)) (take_digits (tl u)) else Some ([], u)) of
             None \<Rightarrow> None
           | Some (fp, u) \<Rightarrow>
               (if u \<noteq> [] \<and> hd u \<in> {CHR ''e'', CHR ''E''} then
                  (let e = [hd u]; u = tl u;
                       es = (if is_prefix ''+'' u \<or> is_prefix ''-'' u then [hd u] else []) in
                   map_option (\<lambda>(ds, u). (sign @ ip @ fp @ e @ es @ ds, u)) (take_digits (drop (length es) u)))
                else Some (sign @ ip @ fp, u))))"

text \<open>The three parsers, each call with less fuel; the length of the text is enough.\<close>

fun parse_value :: "nat \<Rightarrow> string \<Rightarrow> (raw \<times> string) option"
  and parse_elems :: "nat \<Rightarrow> string \<Rightarrow> (raw list \<times> string) option"
  and parse_members :: "nat \<Rightarrow> string \<Rightarrow> ((string \<times> raw) list \<times> string) option" where
  "parse_value 0 s = None"
| "parse_value (Suc k) s =
     (let s = skip_ws s in
      if s = [] then None
      else if hd s = CHR 0x22 then map_option (map_prod Raw_str (\<lambda>t. t)) (unquote (tl s))
      else if hd s = CHR ''['' then
        (if is_prefix '']'' (skip_ws (tl s)) then Some (Raw_arr [], tl (skip_ws (tl s)))
         else map_option (map_prod Raw_arr (\<lambda>t. t)) (parse_elems k (tl s)))
      else if hd s = CHR ''{'' then
        (if is_prefix ''}'' (skip_ws (tl s)) then Some (Raw_obj [], tl (skip_ws (tl s)))
         else map_option (map_prod Raw_obj (\<lambda>t. t)) (parse_members k (tl s)))
      else if is_prefix ''null'' s then Some (Raw_null, drop 4 s)
      else if is_prefix ''true'' s then Some (Raw_bool True, drop 4 s)
      else if is_prefix ''false'' s then Some (Raw_bool False, drop 5 s)
      else map_option (map_prod Raw_num (\<lambda>t. t)) (parse_number s))"
| "parse_elems 0 s = None"
| "parse_elems (Suc k) s =
     (case parse_value k s of
        None \<Rightarrow> None
      | Some (v, r) \<Rightarrow>
          (let r = skip_ws r in
           if is_prefix '','' r then map_option (map_prod ((#) v) (\<lambda>t. t)) (parse_elems k (tl r))
           else if is_prefix '']'' r then Some ([v], tl r)
           else None))"
| "parse_members 0 s = None"
| "parse_members (Suc k) s =
     (let s = skip_ws s in
      if \<not> is_prefix [CHR 0x22] s then None
      else case unquote (tl s) of
             None \<Rightarrow> None
           | Some (key, r) \<Rightarrow>
               (let r = skip_ws r in
                if \<not> is_prefix '':'' r then None
                else case parse_value k (tl r) of
                       None \<Rightarrow> None
                     | Some (v, r) \<Rightarrow>
                         (let r = skip_ws r in
                          if is_prefix '','' r then map_option (map_prod ((#) (key, v)) (\<lambda>t. t)) (parse_members k (tl r))
                          else if is_prefix ''}'' r then Some ([(key, v)], tl r)
                          else None)))"

definition parse_json :: "string \<Rightarrow> raw option" where
  "parse_json s =
     (case parse_value (Suc (length s)) s of
        None \<Rightarrow> None
      | Some (v, r) \<Rightarrow> if skip_ws r = [] then Some v else None)"

subsection \<open>Parsing takes back printing\<close>

text \<open>
  The values the services print: their numbers are natural numbers. \<open>clean\<close> replaces the bytes
  of strings that are no UTF-8.
\<close>

fun printable :: "raw \<Rightarrow> bool" where
  "printable (Raw_num lit) \<longleftrightarrow> lit = show_nat (dec_val 0 lit)"
| "printable (Raw_arr xs) \<longleftrightarrow> list_all printable xs"
| "printable (Raw_obj kvs) \<longleftrightarrow> list_all (\<lambda>(k, v). printable v) kvs"
| "printable _ \<longleftrightarrow> True"

fun clean :: "raw \<Rightarrow> raw" where
  "clean (Raw_str s) = Raw_str (to_valid s)"
| "clean (Raw_arr xs) = Raw_arr (map clean xs)"
| "clean (Raw_obj kvs) = Raw_obj (map (\<lambda>(k, v). (to_valid k, clean v)) kvs)"
| "clean v = v"

definition ends_value :: "string \<Rightarrow> bool" where
  "ends_value rest \<longleftrightarrow> rest = [] \<or> hd rest \<in> {CHR '','', CHR '']'', CHR ''}''}"

lemma join_with_simps [simp]:
  "join_with sep [] = []" "join_with sep [x] = x"
  "join_with sep (x # y # ys) = x @ sep @ join_with sep (y # ys)"
  by (simp_all add: join_with_def)

lemma skip_ws_nonspace:
  "s \<noteq> [] \<Longrightarrow> hd s \<notin> {CHR 0x20, CHR 0x09, CHR 0x0A, CHR 0x0D} \<Longrightarrow> skip_ws s = s"
  by (cases s) (simp_all add: skip_ws_def)

lemma skip_ws_end: "ends_value rest \<Longrightarrow> skip_ws rest = rest"
  by (cases rest) (auto simp: ends_value_def skip_ws_def)

lemma quote_head [simp]: "quote s @ t = CHR 0x22 # tl (quote s) @ t" "is_prefix [CHR 0x22] (quote s)"
  by (simp_all add: quote_def)

lemma show_nat_head:
  "show_nat n = ''0'' \<or> (is_digit (hd (show_nat n)) \<and> hd (show_nat n) \<noteq> CHR ''0'')"
proof (cases "n = 0")
  case True
  then show ?thesis by (simp add: show_nat_def digits.simps digit_char_0)
next
  case False
  then have "0 < hd (digits n)" by (simp add: hd_digits_pos)
  moreover have d: "hd (digits n) < 10" by (rule digits_small [of _ n]) (simp add: digits_ne)
  ultimately have "digit_val (hd (show_nat n)) \<noteq> digit_val (CHR ''0'')"
    by (simp add: show_nat_def hd_map digits_ne) (simp add: digit_val_def)
  moreover have "is_digit (hd (show_nat n))" using d by (simp add: show_nat_def hd_map digits_ne)
  ultimately show ?thesis by auto
qed

lemma parse_number_show_nat:
  assumes "ends_value rest"
  shows "parse_number (show_nat n @ rest) = Some (show_nat n, rest)"
proof -
  have nd: "rest = [] \<or> \<not> is_digit (hd rest)" using assms by (auto simp: ends_value_def is_digit_def)
  obtain c cs where c: "show_nat n = c # cs" using show_nat_ne [of n] by (cases "show_nat n") auto
  have dc: "is_digit c" and all: "list_all is_digit (c # cs)"
    using show_nat_digits [of n] c by (simp_all add: list_all_iff)
  have tw: "takeWhile is_digit (show_nat n @ rest) = show_nat n" "dropWhile is_digit (show_nat n @ rest) = rest"
    using nd show_nat_digits [of n] by (cases rest; auto simp: list_all_iff takeWhile_append2 dropWhile_append2)+
  have nm: "c \<noteq> CHR ''-''" using dc by (auto simp: is_digit_def)
  have rest: "\<not> is_prefix ''.'' rest" "\<not> (rest \<noteq> [] \<and> hd rest \<in> {CHR ''e'', CHR ''E''})"
    using assms by (cases rest; auto simp: ends_value_def)+
  consider "show_nat n = ''0''" | "c \<noteq> CHR ''0''" using show_nat_head [of n] c by auto
  then show ?thesis
  proof cases
    case 1
    then show ?thesis using rest by (simp add: parse_number_def Let_def)
  next
    case 2
    then have "parse_number (show_nat n @ rest) =
        (case take_digits (show_nat n @ rest) of None \<Rightarrow> None | Some (ip, u) \<Rightarrow> Some (ip, u))"
      using rest tw nm c by (simp add: parse_number_def Let_def take_digits_def)
    then show ?thesis using tw by (simp add: take_digits_def Let_def)
  qed
qed

lemma print_raw_ne: "printable v \<Longrightarrow> print_raw v \<noteq> []"
  by (cases v) (auto simp: quote_def dest: arg_cong [of _ _ length])

definition parses :: "raw \<Rightarrow> bool" where
  "parses v \<longleftrightarrow> (\<forall>k rest. length (print_raw v) \<le> k \<longrightarrow> ends_value rest \<longrightarrow>
     parse_value k (print_raw v @ rest) = Some (clean v, rest))"

lemma parse_elems_print:
  "xs \<noteq> [] \<Longrightarrow> \<forall>x\<in>set xs. parses x \<Longrightarrow> length (join_with '','' (map print_raw xs)) < k \<Longrightarrow>
   parse_elems k (join_with '','' (map print_raw xs) @ CHR '']'' # rest) = Some (map clean xs, rest)"
proof (induction xs arbitrary: k)
  case (Cons x xs)
  from Cons.prems(3) obtain j where k: "k = Suc j" by (cases k) auto
  show ?case
  proof (cases xs)
    case Nil
    with Cons.prems k have "parse_value j (print_raw x @ CHR '']'' # rest) = Some (clean x, CHR '']'' # rest)"
      by (auto simp: parses_def ends_value_def)
    with Nil k show ?thesis by (simp add: skip_ws_nonspace)
  next
    case (Cons y ys)
    let ?t = "join_with '','' (map print_raw xs) @ CHR '']'' # rest"
    have "parse_value j (print_raw x @ CHR '','' # ?t) = Some (clean x, CHR '','' # ?t)"
      using Cons.prems k Cons by (auto simp: parses_def ends_value_def)
    moreover have "parse_elems j ?t = Some (map clean xs, rest)"
      using Cons.prems k Cons by (intro Cons.IH) auto
    ultimately show ?thesis using k Cons by (simp add: skip_ws_nonspace)
  qed
qed simp

abbreviation print_member :: "string \<times> raw \<Rightarrow> string" where
  "print_member \<equiv> (\<lambda>(k, v). quote k @ '':'' @ print_raw v)"

lemma parse_members_print:
  "kvs \<noteq> [] \<Longrightarrow> \<forall>(key, v)\<in>set kvs. parses v \<Longrightarrow> length (join_with '','' (map print_member kvs)) < k \<Longrightarrow>
   parse_members k (join_with '','' (map print_member kvs) @ CHR ''}'' # rest) =
     Some (map (\<lambda>(key, v). (to_valid key, clean v)) kvs, rest)"
proof (induction kvs arbitrary: k)
  case (Cons kv kvs)
  obtain key x where kv: "kv = (key, x)" by (cases kv)
  from Cons.prems(3) obtain j where k: "k = Suc j" by (cases k) auto
  show ?case
  proof (cases kvs)
    case Nil
    with Cons.prems k kv have "parse_value j (print_raw x @ CHR ''}'' # rest) = Some (clean x, CHR ''}'' # rest)"
      by (auto simp: parses_def ends_value_def)
    with Nil k kv show ?thesis by (simp add: skip_ws_nonspace unquote_quote)
  next
    case (Cons y ys)
    let ?t = "join_with '','' (map print_member kvs) @ CHR ''}'' # rest"
    have "parse_value j (print_raw x @ CHR '','' # ?t) = Some (clean x, CHR '','' # ?t)"
      using Cons.prems k kv Cons by (auto simp: parses_def ends_value_def)
    moreover have "parse_members j ?t = Some (map (\<lambda>(key, v). (to_valid key, clean v)) kvs, rest)"
      using Cons.prems k kv Cons by (intro Cons.IH) auto
    ultimately show ?thesis using k kv Cons by (simp add: skip_ws_nonspace unquote_quote)
  qed
qed simp

lemma elems_head:
  "printable x \<Longrightarrow> \<exists>c cs. print_raw x = c # cs \<and> c \<notin> {CHR 0x20, CHR 0x09, CHR 0x0A, CHR 0x0D, CHR '']'', CHR ''}''}"
proof (cases x)
  case (Raw_num lit)
  assume "printable x"
  with Raw_num obtain n where n: "lit = show_nat n" by auto
  obtain c cs where c: "show_nat n = c # cs" using show_nat_ne [of n] by (cases "show_nat n") auto
  then have "is_digit c" using show_nat_digits [of n] by simp
  with Raw_num n c show ?thesis by (auto simp: is_digit_def)
qed (auto simp: quote_def)

lemma join_head: "\<exists>cs. join_with sep ((c # w) # ws) = c # cs"
  by (cases ws) simp_all

lemma parses_printable: "printable v \<Longrightarrow> parses v"
proof (induction v rule: raw.induct)
  case (Raw_num lit)
  then obtain n where n: "lit = show_nat n" by auto
  obtain c cs where c: "show_nat n = c # cs" using show_nat_ne [of n] by (cases "show_nat n") auto
  have "is_digit c" using c show_nat_digits [of n] by simp
  then have d: "c \<noteq> CHR 0x22" "c \<noteq> CHR ''[''" "c \<noteq> CHR ''{''" "c \<noteq> CHR ''n''" "c \<noteq> CHR ''t''" "c \<noteq> CHR ''f''"
    "c \<notin> {CHR 0x20, CHR 0x09, CHR 0x0A, CHR 0x0D}"
    by (auto simp: is_digit_def)
  show ?case
    unfolding parses_def
  proof (intro allI impI)
    fix k rest assume "length (print_raw (Raw_num lit)) \<le> k" "ends_value rest"
    with n c d parse_number_show_nat [of rest n] show "parse_value k (print_raw (Raw_num lit) @ rest) = Some (clean (Raw_num lit), rest)"
      by (cases k) (simp_all add: skip_ws_nonspace)
  qed
next
  case (Raw_str s)
  show ?case
    unfolding parses_def
  proof (intro allI impI)
    fix k rest assume "length (print_raw (Raw_str s)) \<le> k"
    then show "parse_value k (print_raw (Raw_str s) @ rest) = Some (clean (Raw_str s), rest)"
      using unquote_quote [of s rest] by (cases k) (auto simp: skip_ws_nonspace quote_def)
  qed
next
  case (Raw_arr xs)
  then have ps: "\<forall>x\<in>set xs. parses x" by (auto simp: list_all_iff)
  show ?case
    unfolding parses_def
  proof (intro allI impI)
    fix k rest assume l: "length (print_raw (Raw_arr xs)) \<le> k"
    then obtain j where k: "k = Suc j" by (cases k) auto
    show "parse_value k (print_raw (Raw_arr xs) @ rest) = Some (clean (Raw_arr xs), rest)"
    proof (cases xs)
      case Nil
      then show ?thesis using k by (simp add: skip_ws_nonspace)
    next
      case (Cons y ys)
      with Raw_arr.prems elems_head [of y] obtain c cs where c: "print_raw y = c # cs"
        "c \<notin> {CHR 0x20, CHR 0x09, CHR 0x0A, CHR 0x0D, CHR '']'', CHR ''}''}" by auto
      obtain t where t: "join_with '','' (map print_raw xs) = c # t"
        using join_head [of "'',''" c cs "map print_raw ys"] c Cons by auto
      have "parse_elems j (join_with '','' (map print_raw xs) @ CHR '']'' # rest) = Some (map clean xs, rest)"
        using parse_elems_print [OF _ ps, of j rest] Cons l k by auto
      with k t c(2) show ?thesis by (auto simp: skip_ws_nonspace)
    qed
  qed
next
  case (Raw_obj kvs)
  have ps: "\<forall>(key, v)\<in>set kvs. parses v"
    using Raw_obj.IH Raw_obj.prems by (force simp: list_all_iff snds.simps)
  show ?case
    unfolding parses_def
  proof (intro allI impI)
    fix k rest assume l: "length (print_raw (Raw_obj kvs)) \<le> k"
    then obtain j where k: "k = Suc j" by (cases k) auto
    show "parse_value k (print_raw (Raw_obj kvs) @ rest) = Some (clean (Raw_obj kvs), rest)"
    proof (cases kvs)
      case Nil
      then show ?thesis using k by (simp add: skip_ws_nonspace)
    next
      case (Cons y ys)
      obtain t where t: "join_with '','' (map print_member kvs) = CHR 0x22 # t"
        using join_head [of "'',''" "CHR 0x22" _ "map print_member ys"] Cons
        by (cases y) (auto simp: quote_def)
      have "parse_members j (join_with '','' (map print_member kvs) @ CHR ''}'' # rest) =
          Some (map (\<lambda>(key, v). (to_valid key, clean v)) kvs, rest)"
        using parse_members_print [OF _ ps, of j rest] Cons l k by auto
      with k t show ?thesis by (auto simp: skip_ws_nonspace)
    qed
  qed
next
  case Raw_null
  have "parse_value k (''null'' @ rest) = Some (Raw_null, rest)" if "4 \<le> k" for k rest
    using that by (cases k) (simp_all add: skip_ws_nonspace)
  then show ?case by (simp add: parses_def)
next
  case (Raw_bool b)
  have "parse_value k (''true'' @ rest) = Some (Raw_bool True, rest)" if "4 \<le> k" for k rest
    using that by (cases k) (simp_all add: skip_ws_nonspace)
  moreover have "parse_value k (''false'' @ rest) = Some (Raw_bool False, rest)" if "5 \<le> k" for k rest
    using that by (cases k) (simp_all add: skip_ws_nonspace)
  ultimately show ?case by (simp add: parses_def)
qed

lemma parse_print: "printable v \<Longrightarrow> parse_json (print_raw v) = Some (clean v)"
  using parses_printable [of v] unfolding parses_def parse_json_def
  by (auto simp: ends_value_def skip_ws_def dest!: spec [of _ "Suc (length (print_raw v))"] spec [of _ "[]"])

end
