(* ===== verification/Events.thy ===== *)
theory Events
  imports JsonText
begin

section \<open>Notification events: the wire format between ticket-service and notification-service\<close>

text \<open>
  \<open>messaging.Event\<close> (ticket-service) and \<open>consumer.event\<close> (notification-service) are two
  copies of one struct with the same tags. The publisher writes an event with
  \<open>json.Marshal\<close>, the consumer reads it with \<open>json.Unmarshal\<close>.
\<close>

record Event =
  ev_Type :: string
  ev_TicketID :: uint
  ev_Title :: string
  ev_Status :: string
  ev_TargetUserID :: "uint option"
  ev_TargetRoles :: "string list"

definition zero_event :: Event where
  "zero_event = \<lparr>ev_Type = [], ev_TicketID = 0, ev_Title = [], ev_Status = [], ev_TargetUserID = None, ev_TargetRoles = []\<rparr>"

abbreviation EventTicketCreated :: string where "EventTicketCreated \<equiv> ''ticket_created''"
abbreviation EventTicketAssigned :: string where "EventTicketAssigned \<equiv> ''ticket_assigned''"
abbreviation EventTicketStatusChanged :: string where "EventTicketStatusChanged \<equiv> ''ticket_status_changed''"
abbreviation EventTicketCommented :: string where "EventTicketCommented \<equiv> ''ticket_commented''"
abbreviation EventTicketAttachmentAdded :: string where "EventTicketAttachmentAdded \<equiv> ''ticket_attachment_added''"

text \<open>The struct tags: every field in order, the ones marked \<open>omitempty\<close> only when they are not empty.\<close>

definition event_json :: "Event \<Rightarrow> raw" where
  "event_json e = Raw_obj (
     [(''type'', Raw_str (ev_Type e)), (''ticket_id'', Raw_num (show_nat (ev_TicketID e)))] @
     (if ev_Title e = [] then [] else [(''title'', Raw_str (ev_Title e))]) @
     (if ev_Status e = [] then [] else [(''status'', Raw_str (ev_Status e))]) @
     (case ev_TargetUserID e of None \<Rightarrow> [] | Some u \<Rightarrow> [(''target_user_id'', Raw_num (show_nat u))]) @
     (if ev_TargetRoles e = [] then [] else [(''target_roles'', Raw_arr (map Raw_str (ev_TargetRoles e)))]))"

definition Marshal_Event :: "Event \<Rightarrow> string" where
  "Marshal_Event e = print_raw (event_json e)"

definition event_of_raw :: "raw option \<Rightarrow> Event option" where
  "event_of_raw r =
     (case members r of None \<Rightarrow> None | Some kvs \<Rightarrow>
       (case (field dec_string ''type'' [] kvs, field dec_uint ''ticket_id'' 0 kvs, field dec_string ''title'' [] kvs,
              field dec_string ''status'' [] kvs, field dec_uint_ptr ''target_user_id'' None kvs,
              field dec_string_list ''target_roles'' [] kvs) of
          (Some t, Some i, Some title, Some st, Some user, Some roles) \<Rightarrow>
            Some \<lparr>ev_Type = t, ev_TicketID = i, ev_Title = title, ev_Status = st, ev_TargetUserID = user, ev_TargetRoles = roles\<rparr>
        | _ \<Rightarrow> None))"

definition Unmarshal_event :: "string \<Rightarrow> Event option" where
  "Unmarshal_event body = (case parse_json body of None \<Rightarrow> None | Some r \<Rightarrow> event_of_raw (Some r))"

text \<open>
  \<open>publishEvent\<close>: without a publisher nothing happens; otherwise the message is handed to
  \<open>Publish\<close>, whose failure is logged and otherwise ignored. Its value is the list of messages
  handed over.
\<close>

definition publishEvent :: "bool \<Rightarrow> Event \<Rightarrow> string list" where
  "publishEvent has_publisher event = (if \<not> has_publisher then [] else [Marshal_Event event])"

text \<open>What the consumer reads: the strings with invalid UTF-8 replaced.\<close>

definition clean_event :: "Event \<Rightarrow> Event" where
  "clean_event e = e\<lparr>ev_Type := to_valid (ev_Type e), ev_Title := to_valid (ev_Title e),
     ev_Status := to_valid (ev_Status e), ev_TargetRoles := map to_valid (ev_TargetRoles e)\<rparr>"

definition event_ok :: "Event \<Rightarrow> bool" where
  "event_ok e \<longleftrightarrow> ev_TicketID e < 2 ^ 64 \<and> (\<forall>u. ev_TargetUserID e = Some u \<longrightarrow> u < 2 ^ 64)"

lemma printable_event: "printable (event_json e)"
  by (cases "ev_TargetUserID e") (simp_all add: event_json_def list_all_iff)

lemma to_valid_Nil [simp]: "to_valid [] = []"
  by (simp add: to_valid.simps)

lemma to_valid_keys:
  "to_valid ''type'' = ''type''" "to_valid ''ticket_id'' = ''ticket_id''" "to_valid ''title'' = ''title''"
  "to_valid ''status'' = ''status''" "to_valid ''target_user_id'' = ''target_user_id''"
  "to_valid ''target_roles'' = ''target_roles''"
  by code_simp+

lemma keys_apart:
  "k \<in> set ks \<Longrightarrow> k' \<in> set ks \<Longrightarrow> ks = [''type'', ''ticket_id'', ''title'', ''status'', ''target_user_id'', ''target_roles''] \<Longrightarrow>
    same_name k k' \<longleftrightarrow> k = k'"
proof -
  have "\<forall>k\<in>set ks. \<forall>k'\<in>set ks. same_name k k' \<longleftrightarrow> k = k'"
    if "ks = [''type'', ''ticket_id'', ''title'', ''status'', ''target_user_id'', ''target_roles'']"
    unfolding that by code_simp
  then show "k \<in> set ks \<Longrightarrow> k' \<in> set ks \<Longrightarrow> ks = [''type'', ''ticket_id'', ''title'', ''status'', ''target_user_id'', ''target_roles''] \<Longrightarrow>
    same_name k k' \<longleftrightarrow> k = k'" by blast
qed

lemmas event_keys [simp] = keys_apart [OF _ _ refl]

lemma dec_strings_map: "dec_strings (map (\<lambda>x. Raw_str (f x)) xs) = Some (map f xs)"
  by (induction xs) simp_all

lemma event_of_clean:
  assumes "event_ok e"
  shows "event_of_raw (Some (clean (event_json e))) = Some (clean_event e)"
proof -
  have ids: "ParseUint (show_nat (ev_TicketID e)) = Some (ev_TicketID e)"
    "\<And>u. ev_TargetUserID e = Some u \<Longrightarrow> ParseUint (show_nat u) = Some u"
    using assms by (auto simp: event_ok_def)
  then show ?thesis
    by (cases e; cases "ev_TargetUserID e"; auto simp: event_of_raw_def event_json_def clean_event_def to_valid_keys dec_strings_map o_def)
qed

lemma Unmarshal_Marshal: "event_ok e \<Longrightarrow> Unmarshal_event (Marshal_Event e) = Some (clean_event e)"
  using parse_print [OF printable_event] event_of_clean by (simp add: Unmarshal_event_def Marshal_Event_def)

text \<open>
  C17. Round trip of the event contract between the two services, down to the bytes: what the
  consumer decodes is the event the publisher was given, for every event, whether its optional
  fields are set or left out. Only bytes that are not valid UTF-8 (a file name can hold them)
  come out as the replacement character.
\<close>
theorem event_roundtrip:
  assumes "event_ok e"
  shows "Unmarshal_event (Marshal_Event e) = Some (clean_event e)"
  using assms by (rule Unmarshal_Marshal)

definition demo_event :: Event where
  "demo_event = \<lparr>ev_Type = EventTicketCommented, ev_TicketID = 7, ev_Title = [CHR 0x22, CHR ''<'', CHR 0x0A, CHR 0xC3],
     ev_Status = [], ev_TargetUserID = Some 5, ev_TargetRoles = []\<rparr>"

theorem event_roundtrip_witness:
  "Unmarshal_event (Marshal_Event demo_event) =
     Some (demo_event\<lparr>ev_Title := [CHR 0x22, CHR ''<'', CHR 0x0A, CHR 0xEF, CHR 0xBF, CHR 0xBD]\<rparr>)"
proof -
  have ok: "event_ok demo_event" by (simp add: event_ok_def demo_event_def)
  have c: "clean_event demo_event = demo_event\<lparr>ev_Title := [CHR 0x22, CHR ''<'', CHR 0x0A, CHR 0xEF, CHR 0xBF, CHR 0xBD]\<rparr>"
    by code_simp
  show ?thesis unfolding event_roundtrip [OF ok] c ..
qed

end
