(* ===== verification/TicketService.thy ===== *)
theory TicketService
  imports Comments Reports Events RateLimit
begin

section \<open>The HTTP handlers of ticket-service (internal/delivery/http, cmd/main.go)\<close>

text \<open>
  Every handler and the routes with their middleware. A handler takes the configuration, the
  environment of one request (clock, which statements fail, the uploaded file), the request and
  the database; its result is the reply, the messages handed to the publisher and the new
  database. Writing to the log is left out.
\<close>

text \<open>\<open>c.FormFile("file")\<close>, and what opening and reading the part gives.\<close>

record FileHeader =
  fh_Filename :: string
  fh_ContentType :: string
  fh_Size :: int
  fh_opens :: bool
  fh_data :: "string option"

record TicketEnv =
  te_now :: time
  te_ft :: "nat \<Rightarrow> faults"
  te_file :: "FileHeader option"
  te_db_up :: bool

record TicketConfig =
  tg_internalSecret :: string
  tg_publisher :: bool  \<comment> \<open>\<open>publisher != nil\<close>\<close>
  tg_period :: "string \<Rightarrow> time \<Rightarrow> string"

datatype ticket_data =
    T_text string
  | T_tickets "Ticket list"
  | T_ticket Ticket
  | T_history "TicketStatusHistory list"
  | T_comment TicketComment
  | T_comments "TicketComment list"
  | T_attachment TicketAttachment
  | T_attachments "TicketAttachment list"
  | T_file string string string  \<comment> \<open>content type, Content-Disposition, data\<close>
  | T_summary "PeriodCount list"
  | T_agents "AgentStat list"
  | T_trend CriticalTrend
  | T_queue_size nat

type_synonym ticket_reply = "ticket_data response \<times> string list \<times> TicketDb"

definition reply_only :: "ticket_data response \<Rightarrow> TicketDb \<Rightarrow> ticket_reply" where
  "reply_only reply d = (reply, [], d)"

subsection \<open>Request parameters\<close>

definition defaultPageLimit :: int where "defaultPageLimit = 10"
definition maxPageLimit :: int where "maxPageLimit = 100"

definition requireUser :: "request \<Rightarrow> ticket_data response + uint \<times> string" where
  "requireUser r =
     (let userHeader = GetHeader ''X-User-ID'' r; role = GetHeader ''X-User-ROLE'' r in
      if userHeader = [] then Inl (Error 401 ''unauthorized'' ''UNAUTHORIZED'')
      else if role \<noteq> ''user'' \<and> role \<noteq> ''agent'' \<and> role \<noteq> ''admin'' then Inl (Error 403 ''forbidden'' ''FORBIDDEN'')
      else case Sscanf_uint userHeader of
             None \<Rightarrow> Inl (Error 400 ''invalid user id'' ''BAD_REQUEST'')
           | Some parsed \<Rightarrow> if parsed = 0 then Inl (Error 400 ''invalid user id'' ''BAD_REQUEST'') else Inr (parsed, role))"

text \<open>The identifier in a path, as every handler reads it.\<close>

definition id_param :: "string \<Rightarrow> uint option" where
  "id_param s = (case Sscanf_uint s of None \<Rightarrow> None | Some i \<Rightarrow> if i = 0 then None else Some i)"

text \<open>The steps the handlers of a ticket share: the caller, then the identifier of the ticket.\<close>

definition with_ticket :: "request \<Rightarrow> string \<Rightarrow> (uint \<Rightarrow> string \<Rightarrow> uint \<Rightarrow> TicketDb \<Rightarrow> ticket_reply) \<Rightarrow> TicketDb \<Rightarrow> ticket_reply" where
  "with_ticket r param k d =
     (case requireUser r of
        Inl reply \<Rightarrow> reply_only reply d
      | Inr (userID, role) \<Rightarrow>
          (case id_param param of
             None \<Rightarrow> reply_only (Error 400 ''invalid ticket id'' ''BAD_REQUEST'') d
           | Some ticketID \<Rightarrow> k userID role ticketID d))"

definition query_int :: "int \<Rightarrow> string \<Rightarrow> int" where
  "query_int dflt v = (if v = [] then dflt else case Sscanf_int v of None \<Rightarrow> dflt | Some n \<Rightarrow> n)"

text \<open>Page and limit, and the offset with its wrap-around.\<close>

definition page_limit :: "request \<Rightarrow> int \<times> int" where
  "page_limit r =
     (let page = query_int 1 (rq_query r ''page'');
          limit = query_int defaultPageLimit (rq_query r ''limit'');
          page = (if page < 1 then 1 else page);
          limit = (if limit < 1 then defaultPageLimit else limit);
          limit = (if limit > maxPageLimit then maxPageLimit else limit)
      in (page, limit))"

definition page_offset :: "int \<Rightarrow> int \<Rightarrow> int" where
  "page_offset page limit = wrap64 ((page - 1) * limit)"

definition filter_of :: "request \<Rightarrow> TicketFilter" where
  "filter_of r =
     \<lparr>tf_Status = rq_query r ''status'', tf_Priority = rq_query r ''priority'', tf_Department = rq_query r ''department'',
      tf_From = ParseDate (rq_query r ''from''),
      tf_To = map_option (\<lambda>t. t + (day - second)) (ParseDate (rq_query r ''to'')),
      tf_Search = rq_query r ''search'', tf_Overdue = (rq_query r ''overdue'' = ''true'')\<rparr>"

definition str_member :: "string \<Rightarrow> (string \<times> raw) list \<Rightarrow> string option" where
  "str_member n kvs = field dec_string n [] kvs"

definition bind_CreateTicketRequest :: "raw option \<Rightarrow> (string \<times> string \<times> string \<times> string) option" where
  "bind_CreateTicketRequest body =
     (case members body of None \<Rightarrow> None | Some kvs \<Rightarrow>
       (case (str_member ''title'' kvs, str_member ''description'' kvs, str_member ''priority'' kvs, str_member ''department'' kvs) of
          (Some title, Some description, Some priority, Some department) \<Rightarrow>
            if required title then Some (title, description, priority, department) else None
        | _ \<Rightarrow> None))"

text \<open>The body of \<open>Assign\<close> is optional and its errors are ignored: a bad value leaves 0.\<close>

definition lenient_uint :: "raw \<Rightarrow> uint \<Rightarrow> uint option" where
  "lenient_uint v acc = (case dec_uint v acc of None \<Rightarrow> Some acc | Some n \<Rightarrow> Some n)"

definition bind_AssignTicketRequest :: "raw option \<Rightarrow> uint" where
  "bind_AssignTicketRequest body =
     (case members body of None \<Rightarrow> 0 | Some kvs \<Rightarrow>
       (case field lenient_uint ''agent_id'' 0 kvs of None \<Rightarrow> 0 | Some agentID \<Rightarrow> agentID))"

definition bind_UpdateStatusRequest :: "raw option \<Rightarrow> string option" where
  "bind_UpdateStatusRequest body =
     (case members body of None \<Rightarrow> None | Some kvs \<Rightarrow>
       (case str_member ''status'' kvs of None \<Rightarrow> None | Some st \<Rightarrow> if required st then Some st else None))"

definition bind_CreateCommentRequest :: "raw option \<Rightarrow> (string \<times> bool) option" where
  "bind_CreateCommentRequest body =
     (case members body of None \<Rightarrow> None | Some kvs \<Rightarrow>
       (case (str_member ''body'' kvs, field dec_bool ''is_internal'' False kvs) of
          (Some text, Some internal) \<Rightarrow>
            if required text \<and> 1 \<le> RuneCount text \<and> int (RuneCount text) \<le> 4000 then Some (text, internal) else None
        | _ \<Rightarrow> None))"

subsection \<open>Tickets\<close>

definition TicketHandler_Create :: "TicketConfig \<Rightarrow> TicketEnv \<Rightarrow> request \<Rightarrow> TicketDb \<Rightarrow> ticket_reply" where
  "TicketHandler_Create cfg env r d =
     (case bind_CreateTicketRequest (rq_body r) of
        None \<Rightarrow> reply_only (Error 400 ''invalid input'' ''BAD_REQUEST'') d
      | Some (title, description, priority, department) \<Rightarrow>
          (case requireUser r of
             Inl reply \<Rightarrow> reply_only reply d
           | Inr (userID, _) \<Rightarrow>
               (case TicketUsecase_Create (te_ft env 0) (te_now env) (new_ticket title description userID priority department) d of
                  (Inl e, d') \<Rightarrow> reply_only (Error 500 ''failed create ticket'' ''INTERNAL_ERROR'') d'
                | (Inr ticket, d') \<Rightarrow>
                    (Success (T_text ''ticket created''),
                     publishEvent (tg_publisher cfg) (zero_event\<lparr>ev_Type := EventTicketCreated, ev_TicketID := ti_ID ticket,
                       ev_Title := ti_Title ticket, ev_TargetRoles := [''admin'', ''agent'']\<rparr>), d'))))"

definition TicketHandler_GetTickets :: "TicketEnv \<Rightarrow> request \<Rightarrow> TicketDb \<Rightarrow> ticket_reply" where
  "TicketHandler_GetTickets env r d =
     (case requireUser r of
        Inl reply \<Rightarrow> reply_only reply d
      | Inr (userID, role) \<Rightarrow>
          (let (page, limit) = page_limit r; offset = page_offset page limit; scope = rq_query r ''scope''
           in case TicketUsecase_GetTickets (te_ft env 0) (te_now env) userID role scope (filter_of r) limit offset d of
                Inl e \<Rightarrow> reply_only (Error 500 ''failed get tickets'' ''INTERNAL_ERROR'') d
              | Inr tickets \<Rightarrow> reply_only (Success (T_tickets tickets)) d))"

definition TicketHandler_Assign :: "TicketConfig \<Rightarrow> TicketEnv \<Rightarrow> request \<Rightarrow> string \<Rightarrow> TicketDb \<Rightarrow> ticket_reply" where
  "TicketHandler_Assign cfg env r param =
     with_ticket r param (\<lambda>userID role ticketID d.
       (case TicketUsecase_AssignTicket (te_ft env) (te_now env) ticketID userID role (bind_AssignTicketRequest (rq_body r)) d of
          (Inl e, d') \<Rightarrow>
            reply_only (if e = ErrForbidden then Error 403 ''forbidden'' ''FORBIDDEN''
              else if e = ErrAlreadyAssigned then Error 409 ''ticket already assigned'' ''CONFLICT''
              else Error 404 ''ticket not found'' ''NOT_FOUND'') d'
        | (Inr agentID, d') \<Rightarrow>
            (Success (T_text ''ticket assigned''),
             publishEvent (tg_publisher cfg) (zero_event\<lparr>ev_Type := EventTicketAssigned, ev_TicketID := ticketID,
               ev_Status := StatusAssigned, ev_TargetUserID := Some agentID\<rparr>), d')))"

definition TicketHandler_UpdateStatus :: "TicketConfig \<Rightarrow> TicketEnv \<Rightarrow> request \<Rightarrow> string \<Rightarrow> TicketDb \<Rightarrow> ticket_reply" where
  "TicketHandler_UpdateStatus cfg env r param =
     with_ticket r param (\<lambda>userID role ticketID d.
       (case bind_UpdateStatusRequest (rq_body r) of
          None \<Rightarrow> reply_only (Error 400 ''invalid input'' ''BAD_REQUEST'') d
        | Some st \<Rightarrow>
            (case TicketUsecase_UpdateStatus (te_ft env) (te_now env) ticketID userID role st d of
               (Inl e, d') \<Rightarrow>
                 reply_only (if e = ErrForbidden then Error 403 ''forbidden'' ''FORBIDDEN''
                   else if e = ErrInvalidTransition then Error 400 ''invalid status transition'' ''BAD_REQUEST''
                   else Error 404 ''ticket not found'' ''NOT_FOUND'') d'
             | (Inr ticket, d') \<Rightarrow>
                 (Success (T_text ''status updated''),
                  publishEvent (tg_publisher cfg) (zero_event\<lparr>ev_Type := EventTicketStatusChanged, ev_TicketID := ticketID,
                    ev_Status := st, ev_TargetUserID := Some (ti_UserID ticket)\<rparr>), d'))))"

definition TicketHandler_GetByID :: "TicketEnv \<Rightarrow> request \<Rightarrow> string \<Rightarrow> TicketDb \<Rightarrow> ticket_reply" where
  "TicketHandler_GetByID env r param =
     with_ticket r param (\<lambda>userID role ticketID d.
       (case TicketUsecase_GetTicketByID (te_ft env 0) ticketID userID role d of
          Inl e \<Rightarrow> reply_only (Error 404 ''ticket not found'' ''NOT_FOUND'') d
        | Inr ticket \<Rightarrow> reply_only (Success (T_ticket ticket)) d))"

definition TicketHandler_GetHistory :: "TicketEnv \<Rightarrow> request \<Rightarrow> string \<Rightarrow> TicketDb \<Rightarrow> ticket_reply" where
  "TicketHandler_GetHistory env r param =
     with_ticket r param (\<lambda>userID role ticketID d.
       (case TicketUsecase_GetTicketHistory (te_ft env) ticketID userID role d of
          Inl e \<Rightarrow> reply_only (Error 404 ''ticket not found'' ''NOT_FOUND'') d
        | Inr history \<Rightarrow> reply_only (Success (T_history history)) d))"

subsection \<open>Comments and attachments\<close>

text \<open>Who hears about an activity on a ticket: the owner if staff acted, otherwise its agent or the admins.\<close>

definition ticketActivityTarget :: "Ticket \<Rightarrow> string \<Rightarrow> uint option \<times> string list" where
  "ticketActivityTarget ticket actorRole =
     (if actorRole = ''user'' then
        (case ti_AssignedAgentID ticket of Some a \<Rightarrow> (Some a, []) | None \<Rightarrow> (None, [''admin'']))
      else (Some (ti_UserID ticket), []))"

definition activity_event :: "string \<Rightarrow> uint \<Rightarrow> string \<Rightarrow> Ticket \<Rightarrow> string \<Rightarrow> Event" where
  "activity_event typ ticketID title ticket role =
     (let (targetUserID, targetRoles) = ticketActivityTarget ticket role
      in zero_event\<lparr>ev_Type := typ, ev_TicketID := ticketID, ev_Title := title,
           ev_TargetUserID := targetUserID, ev_TargetRoles := targetRoles\<rparr>)"

definition CommentHandler_Create :: "TicketConfig \<Rightarrow> TicketEnv \<Rightarrow> request \<Rightarrow> string \<Rightarrow> TicketDb \<Rightarrow> ticket_reply" where
  "CommentHandler_Create cfg env r param =
     with_ticket r param (\<lambda>userID role ticketID d.
       (case bind_CreateCommentRequest (rq_body r) of
          None \<Rightarrow> reply_only (Error 400 ''invalid input'' ''BAD_REQUEST'') d
        | Some (text, internal) \<Rightarrow>
            (case CommentUsecase_Create (te_ft env) (te_now env) ticketID userID role text internal d of
               (Inl e, d') \<Rightarrow> reply_only (Error 404 ''ticket not found'' ''NOT_FOUND'') d'
             | (Inr (comment, ticket), d') \<Rightarrow>
                 (Success (T_comment comment),
                  if \<not> co_IsInternal comment
                  then publishEvent (tg_publisher cfg) (activity_event EventTicketCommented ticketID text ticket role) else [],
                  d'))))"

definition CommentHandler_List :: "TicketEnv \<Rightarrow> request \<Rightarrow> string \<Rightarrow> TicketDb \<Rightarrow> ticket_reply" where
  "CommentHandler_List env r param =
     with_ticket r param (\<lambda>userID role ticketID d.
       (case CommentUsecase_List (te_ft env) ticketID userID role d of
          Inl e \<Rightarrow> reply_only (Error 404 ''ticket not found'' ''NOT_FOUND'') d
        | Inr comments \<Rightarrow> reply_only (Success (T_comments comments)) d))"

text \<open>The JSON of an attachment leaves its data out.\<close>

definition attachment_json :: "TicketAttachment \<Rightarrow> TicketAttachment" where
  "attachment_json a = a\<lparr>at_Data := []\<rparr>"

definition AttachmentHandler_Create :: "TicketConfig \<Rightarrow> TicketEnv \<Rightarrow> request \<Rightarrow> string \<Rightarrow> TicketDb \<Rightarrow> ticket_reply" where
  "AttachmentHandler_Create cfg env r param =
     with_ticket r param (\<lambda>userID role ticketID d.
       (case te_file env of
          None \<Rightarrow> reply_only (Error 400 ''missing file'' ''BAD_REQUEST'') d
        | Some fileHeader \<Rightarrow>
            if fh_Size fileHeader > MaxAttachmentSize
            then reply_only (Error 413 ''attachment too large (max 5MB)'' ''PAYLOAD_TOO_LARGE'') d
            else if \<not> fh_opens fileHeader then reply_only (Error 500 ''failed to read upload'' ''INTERNAL_ERROR'') d
            else (case fh_data fileHeader of
                    None \<Rightarrow> reply_only (Error 500 ''failed to read upload'' ''INTERNAL_ERROR'') d
                  | Some data \<Rightarrow>
                      (let contentType = (if fh_ContentType fileHeader = [] then ''application/octet-stream'' else fh_ContentType fileHeader)
                       in case AttachmentUsecase_Create (te_ft env) (te_now env) ticketID userID role (fh_Filename fileHeader) contentType data d of
                            (Inl e, d') \<Rightarrow>
                              reply_only (if e = ErrAttachmentTooLarge then Error 413 ''attachment too large (max 5MB)'' ''PAYLOAD_TOO_LARGE''
                                else Error 404 ''ticket not found'' ''NOT_FOUND'') d'
                          | (Inr (attachment, ticket), d') \<Rightarrow>
                              (Success (T_attachment (attachment_json attachment)),
                               publishEvent (tg_publisher cfg)
                                 (activity_event EventTicketAttachmentAdded ticketID (at_Filename attachment) ticket role), d')))))"

definition AttachmentHandler_List :: "TicketEnv \<Rightarrow> request \<Rightarrow> string \<Rightarrow> TicketDb \<Rightarrow> ticket_reply" where
  "AttachmentHandler_List env r param =
     with_ticket r param (\<lambda>userID role ticketID d.
       (case AttachmentUsecase_List (te_ft env) ticketID userID role d of
          Inl e \<Rightarrow> reply_only (Error 404 ''ticket not found'' ''NOT_FOUND'') d
        | Inr attachments \<Rightarrow> reply_only (Success (T_attachments (map attachment_json attachments))) d))"

text \<open>The header of a download: the stored name between quotes, as it is.\<close>

definition content_disposition :: "string \<Rightarrow> string" where
  "content_disposition filename = ''attachment; filename='' @ [CHR 0x22] @ filename @ [CHR 0x22]"

definition AttachmentHandler_Download :: "TicketEnv \<Rightarrow> request \<Rightarrow> string \<Rightarrow> string \<Rightarrow> TicketDb \<Rightarrow> ticket_reply" where
  "AttachmentHandler_Download env r param param2 =
     with_ticket r param (\<lambda>userID role ticketID d.
       (case id_param param2 of
          None \<Rightarrow> reply_only (Error 400 ''invalid attachment id'' ''BAD_REQUEST'') d
        | Some attachmentID \<Rightarrow>
            (case AttachmentUsecase_Get (te_ft env) ticketID attachmentID userID role d of
               Inl e \<Rightarrow> reply_only (Error 404 ''attachment not found'' ''NOT_FOUND'') d
             | Inr a \<Rightarrow> reply_only (Success (T_file (at_ContentType a) (content_disposition (at_Filename a)) (at_Data a))) d)))"

subsection \<open>Reports\<close>

definition with_admin :: "request \<Rightarrow> (TicketDb \<Rightarrow> err + ticket_data) \<Rightarrow> TicketDb \<Rightarrow> ticket_reply" where
  "with_admin r report d =
     (if GetHeader ''X-User-ROLE'' r \<noteq> ''admin'' then reply_only (Error 403 ''forbidden'' ''FORBIDDEN'') d
      else case report d of
             Inl e \<Rightarrow> reply_only (Error 500 ''failed to build report'' ''INTERNAL_ERROR'') d
           | Inr x \<Rightarrow> reply_only (Success x) d)"

definition ReportHandler_Summary :: "TicketConfig \<Rightarrow> TicketEnv \<Rightarrow> request \<Rightarrow> TicketDb \<Rightarrow> ticket_reply" where
  "ReportHandler_Summary cfg env r =
     with_admin r (\<lambda>d. let (from, to) = parseReportRange (te_now env) r;
         groupBy = (if rq_query r ''group_by'' = [] then ''day'' else rq_query r ''group_by'')
       in map_sum (\<lambda>e. e) T_summary (Reports_SummaryByPeriod (tg_period cfg) (te_ft env 0) from to groupBy d))"

definition ReportHandler_AgentPerformance :: "TicketEnv \<Rightarrow> request \<Rightarrow> TicketDb \<Rightarrow> ticket_reply" where
  "ReportHandler_AgentPerformance env r =
     with_admin r (\<lambda>d. let (from, to) = parseReportRange (te_now env) r
       in map_sum (\<lambda>e. e) T_agents (Reports_AgentPerformance (te_ft env 0) from to d))"

definition ReportHandler_CriticalTrend :: "TicketEnv \<Rightarrow> request \<Rightarrow> TicketDb \<Rightarrow> ticket_reply" where
  "ReportHandler_CriticalTrend env r =
     with_admin r (\<lambda>d. map_sum (\<lambda>e. e) T_trend (ReportUsecase_CriticalTrend (te_ft env 0) (te_now env) (report_hours r) d))"

definition ReportHandler_QueueSize :: "TicketEnv \<Rightarrow> request \<Rightarrow> TicketDb \<Rightarrow> ticket_reply" where
  "ReportHandler_QueueSize env r =
     with_admin r (\<lambda>d. map_sum (\<lambda>e. e) T_queue_size (Reports_QueueSize (te_ft env 0) d))"

subsection \<open>Routes\<close>

text \<open>The table of \<open>main\<close>: method, pattern, whether the rate limit applies, and the handler.\<close>

definition ticket_routes ::
  "TicketConfig \<Rightarrow> TicketEnv \<Rightarrow> request \<Rightarrow> (string \<times> seg list \<times> bool \<times> (string list \<Rightarrow> TicketDb \<Rightarrow> ticket_reply)) list" where
  "ticket_routes cfg env r =
     (let t = Lit ''tickets''; rep = (\<lambda>x. [Lit ''reports'', Lit x]) in
     [(''POST'', [t], True, \<lambda>_. TicketHandler_Create cfg env r),
      (''POST'', [t, Par, Lit ''attachments''], True, \<lambda>ps. AttachmentHandler_Create cfg env r (ps ! 0)),
      (''GET'', [t], False, \<lambda>_. TicketHandler_GetTickets env r),
      (''GET'', [t, Par], False, \<lambda>ps. TicketHandler_GetByID env r (ps ! 0)),
      (''GET'', [t, Par, Lit ''history''], False, \<lambda>ps. TicketHandler_GetHistory env r (ps ! 0)),
      (''PATCH'', [t, Par, Lit ''assign''], False, \<lambda>ps. TicketHandler_Assign cfg env r (ps ! 0)),
      (''PATCH'', [t, Par, Lit ''status''], False, \<lambda>ps. TicketHandler_UpdateStatus cfg env r (ps ! 0)),
      (''POST'', [t, Par, Lit ''comments''], False, \<lambda>ps. CommentHandler_Create cfg env r (ps ! 0)),
      (''GET'', [t, Par, Lit ''comments''], False, \<lambda>ps. CommentHandler_List env r (ps ! 0)),
      (''GET'', [t, Par, Lit ''attachments''], False, \<lambda>ps. AttachmentHandler_List env r (ps ! 0)),
      (''GET'', [t, Par, Lit ''attachments'', Par], False, \<lambda>ps. AttachmentHandler_Download env r (ps ! 0) (ps ! 1)),
      (''GET'', rep ''summary'', False, \<lambda>_. ReportHandler_Summary cfg env r),
      (''GET'', rep ''agents'', False, \<lambda>_. ReportHandler_AgentPerformance env r),
      (''GET'', rep ''critical-trends'', False, \<lambda>_. ReportHandler_CriticalTrend env r),
      (''GET'', rep ''queue-size'', False, \<lambda>_. ReportHandler_QueueSize env r)])"

record TicketServer =
  tv_db :: TicketDb
  tv_limiter :: Limiter
  tv_published :: "string list"

text \<open>\<open>GET /health\<close> pings the database, \<open>GET /healthz\<close> does not.\<close>

definition ticket_health :: "TicketEnv \<Rightarrow> request \<Rightarrow> ticket_data response option" where
  "ticket_health env r =
     (if rq_method r \<noteq> ''GET'' then None
      else if rq_path r = ''/health'' then
        Some (if \<not> te_db_up env then Error 503 ''database disconnected'' ''unavailable'' else Success (T_text ''ok''))
      else if rq_path r = ''/healthz'' then Some (Success (T_text ''ok''))
      else None)"

definition run_handler :: "(TicketDb \<Rightarrow> ticket_reply) \<Rightarrow> TicketServer \<Rightarrow> ticket_data response \<times> TicketServer" where
  "run_handler h srv =
     (case h (tv_db srv) of
        (reply, msgs, d') \<Rightarrow> (reply, srv\<lparr>tv_db := d', tv_published := tv_published srv @ msgs\<rparr>))"

definition ticket_handle ::
  "TicketConfig \<Rightarrow> bool \<Rightarrow> TicketEnv \<Rightarrow> request \<Rightarrow> TicketServer \<Rightarrow> ticket_data response \<times> TicketServer" where
  "ticket_handle cfg redis_down env r srv =
     (case ticket_health env r of
        Some reply \<Rightarrow> (reply, srv)
      | None \<Rightarrow>
          (case find_route (rq_method r) (tl (Split (CHR ''/'') (rq_path r))) (ticket_routes cfg env r) of
             None \<Rightarrow> (Error 404 ''404 page not found'' [], srv)
           | Some (limited, h) \<Rightarrow>
               (case InternalOnlyMiddleware (tg_internalSecret cfg) r of
                  Some reply \<Rightarrow> (reply, srv)
                | None \<Rightarrow>
                    (if limited then
                       (case RateLimitMiddleware redis_down (te_now env) r (tv_limiter srv) of
                          (Some reply, rl') \<Rightarrow> (reply, srv\<lparr>tv_limiter := rl'\<rparr>)
                        | (None, rl') \<Rightarrow> run_handler h (srv\<lparr>tv_limiter := rl'\<rparr>))
                     else run_handler h srv))))"

text \<open>A sequence of requests, each with its environment; a list is one interleaving of the clients.\<close>

type_synonym ticket_request = "bool \<times> TicketEnv \<times> request"

fun ticket_serve :: "TicketConfig \<Rightarrow> ticket_request \<Rightarrow> TicketServer \<Rightarrow> ticket_data response \<times> TicketServer" where
  "ticket_serve cfg (redis_down, env, r) srv = ticket_handle cfg redis_down env r srv"

subsection \<open>Which handler a request runs\<close>

text \<open>
  A property of every handler is a property of the service: a request leaves database and
  messages alone, or it carries the internal secret and has the effect of one handler.
\<close>

inductive ticket_chain :: "TicketConfig \<Rightarrow> TicketEnv \<Rightarrow> request \<Rightarrow> (TicketDb \<Rightarrow> ticket_reply) \<Rightarrow> bool" for cfg env r where
  chain_create: "ticket_chain cfg env r (TicketHandler_Create cfg env r)"
| chain_upload: "ticket_chain cfg env r (AttachmentHandler_Create cfg env r p)"
| chain_list: "ticket_chain cfg env r (TicketHandler_GetTickets env r)"
| chain_get: "ticket_chain cfg env r (TicketHandler_GetByID env r p)"
| chain_history: "ticket_chain cfg env r (TicketHandler_GetHistory env r p)"
| chain_assign: "ticket_chain cfg env r (TicketHandler_Assign cfg env r p)"
| chain_update: "ticket_chain cfg env r (TicketHandler_UpdateStatus cfg env r p)"
| chain_comment: "ticket_chain cfg env r (CommentHandler_Create cfg env r p)"
| chain_comments: "ticket_chain cfg env r (CommentHandler_List env r p)"
| chain_attachments: "ticket_chain cfg env r (AttachmentHandler_List env r p)"
| chain_download: "ticket_chain cfg env r (AttachmentHandler_Download env r p q)"
| chain_summary: "ticket_chain cfg env r (ReportHandler_Summary cfg env r)"
| chain_agents: "ticket_chain cfg env r (ReportHandler_AgentPerformance env r)"
| chain_trend: "ticket_chain cfg env r (ReportHandler_CriticalTrend env r)"
| chain_queue: "ticket_chain cfg env r (ReportHandler_QueueSize env r)"

lemmas report_handlers = ReportHandler_Summary_def ReportHandler_AgentPerformance_def ReportHandler_CriticalTrend_def
  ReportHandler_QueueSize_def with_admin_def

lemma route_chain:
  assumes "find_route meth segs (ticket_routes cfg env r) = Some (l, h)"
  shows "ticket_chain cfg env r h"
proof -
  obtain me pat hh ps where "(me, pat, l, hh) \<in> set (ticket_routes cfg env r)" "h = hh ps"
    using find_route_in [OF assms] by blast
  then show ?thesis
    unfolding ticket_routes_def Let_def
    by (auto intro: ticket_chain.intros)
qed

lemma ticket_handle_cases:
  assumes "ticket_handle cfg rd env r srv = (reply, srv')"
  obtains (idle) "tv_db srv' = tv_db srv" "tv_published srv' = tv_published srv"
      "reply \<in> {Error 404 ''404 page not found'' [], Error 429 ''too many requests'' ''RATE_LIMITED'', Error 403 ''forbidden'' ''forbidden''} \<or>
       ticket_health env r = Some reply"
    | (handler) h msgs where "ticket_chain cfg env r h" "h (tv_db srv) = (reply, msgs, tv_db srv')"
      "tv_published srv' = tv_published srv @ msgs" "InternalOnlyMiddleware (tg_internalSecret cfg) r = (None :: ticket_data response option)"
  using assms
  by (auto simp: ticket_handle_def run_handler_def RateLimitMiddleware_def InternalOnlyMiddleware_def Let_def
      split: option.splits if_splits prod.splits dest!: route_chain)

end
