(* ===== verification/TicketSafety.thy ===== *)
theory TicketSafety
  imports TicketService
begin

section \<open>What the service ticket-service guarantees\<close>

text \<open>
  The properties of theory TicketService, over single requests and over sequences of requests of
  any clients: the invariant of the tables, who is notified of what, the confidentiality of
  internal notes, the isolation and immutability of attachments, and paging.
\<close>

subsection \<open>The effect of a handler\<close>

text \<open>Either nothing changes and nothing is published, or one use case succeeded.\<close>

inductive ticket_effect :: "TicketConfig \<Rightarrow> TicketEnv \<Rightarrow> request \<Rightarrow> TicketDb \<Rightarrow> string list \<Rightarrow> TicketDb \<Rightarrow> bool"
  for cfg env r d where
  quiet: "same_rows d d' \<Longrightarrow> ticket_effect cfg env r d [] d'"
| created: "requireUser r = Inr (u, role) \<Longrightarrow>
    TicketUsecase_Create (te_ft env 0) (te_now env) (new_ticket title descr u prio dept) d = (Inr t, d') \<Longrightarrow>
    ticket_effect cfg env r d (publishEvent (tg_publisher cfg) (zero_event\<lparr>ev_Type := EventTicketCreated,
      ev_TicketID := ti_ID t, ev_Title := ti_Title t, ev_TargetRoles := [''admin'', ''agent'']\<rparr>)) d'"
| assigned: "requireUser r = Inr (u, role) \<Longrightarrow> TicketUsecase_AssignTicket (te_ft env) (te_now env) i u role target d = (Inr a, d') \<Longrightarrow>
    ticket_effect cfg env r d (publishEvent (tg_publisher cfg) (zero_event\<lparr>ev_Type := EventTicketAssigned, ev_TicketID := i,
      ev_Status := StatusAssigned, ev_TargetUserID := Some a\<rparr>)) d'"
| updated: "requireUser r = Inr (u, role) \<Longrightarrow> TicketUsecase_UpdateStatus (te_ft env) (te_now env) i u role st d = (Inr t, d') \<Longrightarrow>
    ticket_effect cfg env r d (publishEvent (tg_publisher cfg) (zero_event\<lparr>ev_Type := EventTicketStatusChanged, ev_TicketID := i,
      ev_Status := st, ev_TargetUserID := Some (ti_UserID t)\<rparr>)) d'"
| commented: "requireUser r = Inr (u, role) \<Longrightarrow> CommentUsecase_Create (te_ft env) (te_now env) i u role text internal d = (Inr (c, t), d') \<Longrightarrow>
    ticket_effect cfg env r d (if \<not> co_IsInternal c
      then publishEvent (tg_publisher cfg) (activity_event EventTicketCommented i text t role) else []) d'"
| attached: "requireUser r = Inr (u, role) \<Longrightarrow> AttachmentUsecase_Create (te_ft env) (te_now env) i u role name ct data d = (Inr (a, t), d') \<Longrightarrow>
    ticket_effect cfg env r d (publishEvent (tg_publisher cfg)
      (activity_event EventTicketAttachmentAdded i (at_Filename a) t role)) d'"

lemma with_ticket_cases:
  assumes "with_ticket r param k d = (reply, msgs, d')"
  obtains (refused) "msgs = []" "d' = d" | (run) u role i where "requireUser r = Inr (u, role)" "k u role i d = (reply, msgs, d')"
  using assms by (auto simp: with_ticket_def reply_only_def split: sum.splits option.splits)

lemma reads_effect:
  assumes "\<And>u role i. requireUser r = Inr (u, role) \<Longrightarrow> k u role i d = (reply, msgs, d') \<Longrightarrow> ticket_effect cfg env r d msgs d'"
    and "with_ticket r param k d = (reply, msgs, d')"
  shows "ticket_effect cfg env r d msgs d'"
  using assms(2) by (cases rule: with_ticket_cases) (auto intro: assms(1) quiet)

lemma chain_effect:
  assumes "ticket_chain cfg env r h" and "h d = (reply, msgs, d')"
  shows "ticket_effect cfg env r d msgs d'"
  using assms
proof (cases rule: ticket_chain.cases)
  case chain_create
  with assms(2) show ?thesis
    by (auto simp: TicketHandler_Create_def reply_only_def split: option.splits sum.splits prod.splits
        dest!: create_Inl intro: quiet created)
next
  case (chain_upload p)
  then have "AttachmentHandler_Create cfg env r p d = (reply, msgs, d')" using assms(2) by simp
  then show ?thesis
    unfolding AttachmentHandler_Create_def
    by (rule reads_effect [rotated])
      (auto simp: reply_only_def Let_def split: option.splits sum.splits prod.splits if_splits
        dest!: attachment_create_Inl intro: quiet attached)
next
  case chain_list
  with assms(2) show ?thesis
    by (auto simp: TicketHandler_GetTickets_def reply_only_def Let_def split: sum.splits prod.splits intro: quiet)
next
  case (chain_get p)
  then have "TicketHandler_GetByID env r p d = (reply, msgs, d')" using assms(2) by simp
  then show ?thesis
    unfolding TicketHandler_GetByID_def
    by (rule reads_effect [rotated]) (auto simp: reply_only_def split: sum.splits intro: quiet)
next
  case (chain_history p)
  then have "TicketHandler_GetHistory env r p d = (reply, msgs, d')" using assms(2) by simp
  then show ?thesis
    unfolding TicketHandler_GetHistory_def
    by (rule reads_effect [rotated]) (auto simp: reply_only_def split: sum.splits intro: quiet)
next
  case (chain_assign p)
  then have "TicketHandler_Assign cfg env r p d = (reply, msgs, d')" using assms(2) by simp
  then show ?thesis
    unfolding TicketHandler_Assign_def
    by (rule reads_effect [rotated])
      (auto simp: reply_only_def split: sum.splits prod.splits if_splits intro: quiet assigned elim: AssignTicket_cases)
next
  case (chain_update p)
  then have "TicketHandler_UpdateStatus cfg env r p d = (reply, msgs, d')" using assms(2) by simp
  then show ?thesis
    unfolding TicketHandler_UpdateStatus_def
    by (rule reads_effect [rotated])
      (auto simp: reply_only_def split: option.splits sum.splits prod.splits if_splits intro: quiet updated elim: UpdateStatus_cases)
next
  case (chain_comment p)
  then have "CommentHandler_Create cfg env r p d = (reply, msgs, d')" using assms(2) by simp
  then show ?thesis
    unfolding CommentHandler_Create_def
    by (rule reads_effect [rotated])
      (auto simp: reply_only_def split: option.splits sum.splits prod.splits dest!: comment_create_Inl intro: quiet commented)
next
  case (chain_comments p)
  then have "CommentHandler_List env r p d = (reply, msgs, d')" using assms(2) by simp
  then show ?thesis
    unfolding CommentHandler_List_def
    by (rule reads_effect [rotated]) (auto simp: reply_only_def split: sum.splits intro: quiet)
next
  case (chain_attachments p)
  then have "AttachmentHandler_List env r p d = (reply, msgs, d')" using assms(2) by simp
  then show ?thesis
    unfolding AttachmentHandler_List_def
    by (rule reads_effect [rotated]) (auto simp: reply_only_def split: sum.splits intro: quiet)
next
  case (chain_download p q)
  then have "AttachmentHandler_Download env r p q d = (reply, msgs, d')" using assms(2) by simp
  then show ?thesis
    unfolding AttachmentHandler_Download_def
    by (rule reads_effect [rotated]) (auto simp: reply_only_def split: option.splits sum.splits intro: quiet)
qed (use assms(2) in \<open>auto simp: report_handlers reply_only_def split: sum.splits if_splits intro: quiet\<close>)

text \<open>A request has one of these effects, and needs the internal secret to change or publish anything.\<close>

lemma ticket_handle_effect:
  assumes "ticket_handle cfg rd env r srv = (reply, srv')"
  obtains msgs where "ticket_effect cfg env r (tv_db srv) msgs (tv_db srv')" "tv_published srv' = tv_published srv @ msgs"
    "InternalOnlyMiddleware (tg_internalSecret cfg) r \<noteq> (None :: ticket_data response option) \<longrightarrow> msgs = [] \<and> tv_db srv' = tv_db srv"
  using assms
proof (cases rule: ticket_handle_cases)
  case idle
  then show ?thesis using that [of "[]"] quiet [of "tv_db srv" "tv_db srv"] by simp
next
  case (handler h msgs)
  then show ?thesis using that [of msgs] chain_effect by blast
qed

subsection \<open>The invariant, over any sequence of requests\<close>

definition ticket_exists :: "TicketDb \<Rightarrow> uint \<Rightarrow> bool" where
  "ticket_exists d i \<longleftrightarrow> get_ticket i d \<noteq> None"

definition service_ok :: "TicketDb \<Rightarrow> bool" where
  "service_ok d \<longleftrightarrow> tickets_ok d \<and> extras_ok d \<and>
     (\<forall>c\<in>set (rows (db_comments d)). ticket_exists d (co_TicketID c)) \<and>
     (\<forall>a\<in>set (rows (db_attachments d)). ticket_exists d (at_TicketID a))"

lemma service_ok_empty: "service_ok empty_ticket_db"
  by (simp add: service_ok_def tickets_ok_empty extras_ok_def empty_ticket_db_def keys_ok_empty)
    (simp add: tickets_ok_empty [unfolded empty_ticket_db_def])

lemma visible_ticket:
  "TicketUsecase_GetTicketByID ft i u role d = Inr t \<Longrightarrow> get_ticket i d = Some t \<and>
    (role = ''admin'' \<or> role = ''agent'' \<and> ti_AssignedAgentID t = Some u \<or> role \<noteq> ''agent'' \<and> ti_UserID t = u)"
  by (auto simp: TicketUsecase_GetTicketByID_def FindByID_Inr split: sum.splits if_splits)

text \<open>What the three ticket operations leave alone.\<close>

lemma create_extras:
  "TicketUsecase_Create ft now t d = (Inr t', d') \<Longrightarrow> db_comments d' = db_comments d \<and> db_attachments d' = db_attachments d"
  by (auto simp: TicketUsecase_Create_def Tickets_Create_def exec_stmt_Inr)

lemma assign_extras:
  "TicketUsecase_AssignTicket ft now i u role target d = (Inr a, d') \<Longrightarrow> db_comments d' = db_comments d \<and> db_attachments d' = db_attachments d"
  by (erule AssignTicket_cases) (auto simp: insert_history_def update_ticket_def)

lemma update_extras:
  "TicketUsecase_UpdateStatus ft now i u role st d = (Inr t, d') \<Longrightarrow> db_comments d' = db_comments d \<and> db_attachments d' = db_attachments d"
  by (erule UpdateStatus_cases) (auto simp: insert_history_def update_ticket_def)

lemma tickets_ok_cong:
  "db_tickets d' = db_tickets d \<Longrightarrow> db_history d' = db_history d \<Longrightarrow> tickets_ok d' = tickets_ok d"
  by (simp add: tickets_ok_def)

lemma get_ticket_cong: "db_tickets d' = db_tickets d \<Longrightarrow> get_ticket i d' = get_ticket i d"
  by (simp add: get_ticket_def)

lemma service_ok_tickets:
  assumes "service_ok d" and "tickets_ok d'" and "db_comments d' = db_comments d" and "db_attachments d' = db_attachments d"
    and "\<And>i. ticket_exists d i \<Longrightarrow> ticket_exists d' i"
  shows "service_ok d'"
  using assms by (auto simp: service_ok_def extras_ok_def)

lemma ticket_effect_ok:
  assumes "ticket_effect cfg env r d msgs d'" and ok: "service_ok d"
  shows "service_ok d'"
proof -
  have tok: "tickets_ok d" and eok: "extras_ok d" using ok by (simp_all add: service_ok_def)
  show ?thesis
    using assms(1)
  proof (cases rule: ticket_effect.cases)
    case quiet
    then have "ticket_exists d i \<Longrightarrow> ticket_exists d' i" for i by (simp add: ticket_exists_def same_rows_get [OF quiet(2)])
    with quiet ok tok show ?thesis by (intro service_ok_tickets [OF ok]) (auto intro: same_rows_ok simp: same_rows_def)
  next
    case (created u role title descr prio dept t)
    note e = create_get [OF tok created(3)]
    show ?thesis using e(1) e(4) create_extras [OF created(3)] by (intro service_ok_tickets [OF ok]) (auto simp: ticket_exists_def)
  next
    case (assigned u role i target a)
    note ex = assign_extras [OF assigned(3)]
    show ?thesis
      by (rule assign_effect [OF tok assigned(3)]) (rule service_ok_tickets [OF ok], auto simp: ex ticket_exists_def)
  next
    case (updated u role i st t)
    note ex = update_extras [OF updated(3)]
    show ?thesis
      by (rule update_effect [OF tok updated(3)]) (rule service_ok_tickets [OF ok], auto simp: ex ticket_exists_def)
  next
    case (commented u role i body internal c t)
    have "extras_ok d'" using comment_create_ok [OF eok] commented(3) by (metis snd_conv)
    moreover note e = comment_create_effect [OF commented(3)] visible_ticket [of "te_ft env 0" i u role d t]
    ultimately show ?thesis
      using ok by (auto simp: service_ok_def ticket_exists_def get_ticket_def cong: tickets_ok_cong)
  next
    case (attached u role i name ct data a t)
    have "extras_ok d'" using attachment_create_ok [OF eok] attached(3) by (metis snd_conv)
    moreover note e = attachment_create_effect [OF attached(3)] visible_ticket [of "te_ft env 0" i u role d t]
    ultimately show ?thesis
      using ok by (auto simp: service_ok_def ticket_exists_def get_ticket_def cong: tickets_ok_cong)
  qed
qed

lemma ticket_serve_ok: "service_ok (tv_db srv) \<Longrightarrow> service_ok (tv_db (snd (ticket_serve cfg rq srv)))"
  by (cases rq; cases "ticket_serve cfg rq srv") (auto elim!: ticket_handle_effect intro: ticket_effect_ok)

lemma run_service_ok: "service_ok (tv_db srv) \<Longrightarrow> service_ok (tv_db (run_steps (ticket_serve cfg) reqs srv))"
  by (rule run_steps_invariant [where I = "\<lambda>srv. service_ok (tv_db srv)"]) (simp_all add: ticket_serve_ok)

text \<open>
  C18. Whatever sequence of requests the service gets, from any clients and with any database
  failures, its tables stay consistent: unique keys, well-formed tickets, a trail, comments and
  attachments of existing tickets only, no internal note by a user, no attachment above 5 MB.
  A request without the internal secret changes nothing and publishes nothing.
\<close>
theorem ticket_service_invariant:
  assumes "service_ok (tv_db srv)"
  shows "service_ok (tv_db (run_steps (ticket_serve cfg) reqs srv)) \<and>
    (\<forall>rd env r srv'. (GetHeader ''X-Internal-Secret'' r \<noteq> tg_internalSecret cfg \<or> tg_internalSecret cfg = []) \<and>
       srv' = snd (ticket_handle cfg rd env r srv) \<longrightarrow> tv_db srv' = tv_db srv \<and> tv_published srv' = tv_published srv)"
proof (intro conjI allI impI)
  show "service_ok (tv_db (run_steps (ticket_serve cfg) reqs srv))" using assms by (rule run_service_ok)
  fix rd env r srv'
  assume a: "(GetHeader ''X-Internal-Secret'' r \<noteq> tg_internalSecret cfg \<or> tg_internalSecret cfg = []) \<and>
     srv' = snd (ticket_handle cfg rd env r srv)"
  then have "InternalOnlyMiddleware (tg_internalSecret cfg) r \<noteq> (None :: ticket_data response option)"
    by (auto simp: InternalOnly_pass)
  moreover have "ticket_handle cfg rd env r srv = (fst (ticket_handle cfg rd env r srv), srv')" using a by simp
  ultimately show "tv_db srv' = tv_db srv" "tv_published srv' = tv_published srv"
    by (auto elim: ticket_handle_effect)
qed

definition demo_tconfig :: TicketConfig where
  "demo_tconfig = \<lparr>tg_internalSecret = ''s'', tg_publisher = True, tg_period = (\<lambda>u t. u)\<rparr>"

definition demo_tenv :: TicketEnv where
  "demo_tenv = \<lparr>te_now = 10, te_ft = (\<lambda>_ _. False), te_file = None, te_db_up = True\<rparr>"

definition demo_tserver :: "TicketDb \<Rightarrow> TicketServer" where
  "demo_tserver d = \<lparr>tv_db = d, tv_limiter = InMemory (NewRateLimiter 5 10), tv_published = []\<rparr>"

definition demo_treq :: "string \<Rightarrow> string \<Rightarrow> string \<Rightarrow> string \<Rightarrow> raw option \<Rightarrow> request" where
  "demo_treq meth url user role body =
     \<lparr>rq_method = meth, rq_path = url,
      rq_headers = ((\<lambda>_. [])(''X-Internal-Secret'' := ''s'', ''X-User-ID'' := user, ''X-User-ROLE'' := role)),
      rq_query = (\<lambda>_. []), rq_ip = ''1.2.3.4'', rq_body = body\<rparr>"

lemma service_ok_demo: "service_ok (tv_db (demo_tserver empty_ticket_db))"
  by (simp add: demo_tserver_def service_ok_empty)

theorem ticket_service_invariant_witness:
  "service_ok (tv_db (run_steps (ticket_serve demo_tconfig)
     [(False, demo_tenv, demo_treq ''POST'' ''/tickets'' ''5'' ''user'' (Some (Raw_obj [(''title'', Raw_str ''VPN'')])))] (demo_tserver empty_ticket_db)))"
  using ticket_service_invariant [OF service_ok_demo] by blast

subsection \<open>Who is notified\<close>

definition event_target_ok :: "TicketDb \<Rightarrow> string \<Rightarrow> Event \<Rightarrow> bool" where
  "event_target_ok d role e \<longleftrightarrow> (\<exists>t. get_ticket (ev_TicketID e) d = Some t \<and>
     (if ev_Type e = EventTicketCreated then ev_TargetUserID e = None \<and> ev_TargetRoles e = [''admin'', ''agent'']
      else if ev_Type e = EventTicketAssigned then ev_TargetUserID e = ti_AssignedAgentID t \<and> ev_TargetUserID e \<noteq> None \<and> ev_TargetRoles e = []
      else if ev_Type e = EventTicketStatusChanged \<or> role \<noteq> ''user'' then ev_TargetUserID e = Some (ti_UserID t) \<and> ev_TargetRoles e = []
      else ev_TargetUserID e = ti_AssignedAgentID t \<and> ev_TargetRoles e = (if ti_AssignedAgentID t = None then [''admin''] else [])))"

lemma requireUser_role: "requireUser r = Inr (u, role) \<Longrightarrow> role = GetHeader ''X-User-ROLE'' r \<and> role \<in> {''user'', ''agent'', ''admin''} \<and> u \<noteq> 0"
  by (auto simp: requireUser_def Let_def split: if_splits option.splits)

lemma requireUser_refuses [simp]: "requireUser r \<noteq> Inl (Success x)"
  by (auto simp: requireUser_def Let_def split: if_splits option.splits)

lemma activity_target:
  assumes "get_ticket i d = Some t" and "typ = EventTicketCommented \<or> typ = EventTicketAttachmentAdded"
  shows "event_target_ok d role (activity_event typ i title t role)"
proof -
  have "typ \<noteq> EventTicketCreated" "typ \<noteq> EventTicketAssigned" "typ \<noteq> EventTicketStatusChanged" using assms(2) by auto
  with assms(1) show ?thesis
    unfolding event_target_ok_def activity_event_def ticketActivityTarget_def zero_event_def
    by (cases "role = ''user''"; cases "ti_AssignedAgentID t") simp_all
qed

lemma publish_one:
  "event_target_ok d role e \<Longrightarrow> publishEvent b e = [] \<or> b \<and> (\<exists>e'. publishEvent b e = [Marshal_Event e'] \<and> event_target_ok d role e')"
  by (auto simp: publishEvent_def)

lemma ticket_effect_events:
  assumes "ticket_effect cfg env r d msgs d'" and ok: "service_ok d"
  shows "msgs = [] \<or> tg_publisher cfg \<and> (\<exists>e. msgs = [Marshal_Event e] \<and> event_target_ok d' (GetHeader ''X-User-ROLE'' r) e)"
proof -
  have tok: "tickets_ok d" using ok by (simp add: service_ok_def)
  show ?thesis
    using assms(1)
  proof (cases rule: ticket_effect.cases)
    case (created u role title descr prio dept t)
    show ?thesis unfolding created(1)
      by (rule publish_one) (simp add: event_target_ok_def zero_event_def create_get(4) [OF tok created(3)])
  next
    case (assigned u role i target a)
    show ?thesis unfolding assigned(1)
      by (rule assign_effect [OF tok assigned(3)], rule publish_one) (simp add: event_target_ok_def zero_event_def)
  next
    case (updated u role i st t)
    show ?thesis unfolding updated(1)
      by (rule update_effect [OF tok updated(3)], rule publish_one) (simp add: event_target_ok_def zero_event_def)
  next
    case (commented u role i body internal c t)
    have "get_ticket i d' = Some t"
      using comment_create_effect [OF commented(3)] visible_ticket [of "te_ft env 0" i u role d t] by (simp add: get_ticket_def)
    then have "event_target_ok d' role (activity_event EventTicketCommented i body t role)" by (rule activity_target) simp
    from publish_one [OF this, of "tg_publisher cfg"] requireUser_role [OF commented(2)] show ?thesis
      unfolding commented(1) by simp
  next
    case (attached u role i name ct data a t)
    have "get_ticket i d' = Some t"
      using attachment_create_effect [OF attached(3)] visible_ticket [of "te_ft env 0" i u role d t] by (simp add: get_ticket_def)
    then have "event_target_ok d' role (activity_event EventTicketAttachmentAdded i (at_Filename a) t role)" by (rule activity_target) simp
    from publish_one [OF this, of "tg_publisher cfg"] requireUser_role [OF attached(2)] show ?thesis
      unfolding attached(1) by simp
  qed simp
qed

lemma handle_publishes:
  assumes "service_ok (tv_db srv)" and "ticket_handle cfg rd env r srv = (reply, srv')"
  shows "\<exists>msgs. tv_published srv' = tv_published srv @ msgs \<and> (msgs = [] \<or> tg_publisher cfg \<and>
      (\<exists>e. msgs = [Marshal_Event e] \<and> event_target_ok (tv_db srv') (GetHeader ''X-User-ROLE'' r) e)) \<and>
    (\<forall>c. reply = Success (T_comment c) \<and> co_IsInternal c \<longrightarrow> msgs = [])"
proof (cases rule: ticket_handle_cases [OF assms(2)])
  case 1
  then show ?thesis by (auto simp: ticket_health_def split: if_splits)
next
  case (2 h msgs)
  have "msgs = []" if "reply = Success (T_comment c)" "co_IsInternal c" for c
    using 2(1,2) that
    by (cases rule: ticket_chain.cases) (auto simp: TicketHandler_Create_def TicketHandler_Assign_def TicketHandler_UpdateStatus_def
        TicketHandler_GetTickets_def TicketHandler_GetByID_def TicketHandler_GetHistory_def CommentHandler_Create_def CommentHandler_List_def
        AttachmentHandler_Create_def AttachmentHandler_List_def AttachmentHandler_Download_def report_handlers with_ticket_def reply_only_def Let_def
        split: option.splits sum.splits prod.splits if_splits)
  with ticket_effect_events [OF chain_effect [OF 2(1,2)] assms(1)] 2(3) show ?thesis by auto
qed

text \<open>
  C19. What is published: a request leads to at most one message, and only when there is a
  publisher. It is an event about an existing ticket with exactly one kind of target, as the
  event contract asks: a new ticket goes to the roles admin and agent, an assignment to the agent
  it was assigned to, a status change to the owner, a comment or attachment by staff to the
  owner, and one by a user to the assigned agent or, if there is none, to the admins. No message
  is ever about an internal note.
\<close>
theorem event_targets:
  assumes "service_ok (tv_db srv)" and "ticket_handle cfg rd env r srv = (reply, srv')"
  shows "\<exists>msgs. tv_published srv' = tv_published srv @ msgs \<and> (msgs = [] \<or> tg_publisher cfg \<and>
      (\<exists>e. msgs = [Marshal_Event e] \<and> event_target_ok (tv_db srv') (GetHeader ''X-User-ROLE'' r) e)) \<and>
    (\<forall>c. reply = Success (T_comment c) \<and> co_IsInternal c \<longrightarrow> msgs = [])"
  by (rule handle_publishes [OF assms])

lemma service_ok_demo_db: "service_ok demo_db"
proof -
  have e: "rows (db_comments demo_db) = []" "rows (db_attachments demo_db) = []" "seq (db_comments demo_db) = 1" "seq (db_attachments demo_db) = 1"
    by code_simp+
  then show ?thesis using demo_db_ok by (simp add: service_ok_def extras_ok_def keys_ok_def)
qed

theorem event_targets_witness:
  "\<exists>msgs. tv_published (snd (ticket_handle demo_tconfig False demo_tenv (demo_treq ''POST'' ''/tickets/1/comments'' ''9'' ''agent''
     (Some (Raw_obj [(''body'', Raw_str ''on it'')]))) (demo_tserver demo_db))) = msgs \<and> length msgs \<le> 1"
proof -
  have ok: "service_ok (tv_db (demo_tserver demo_db))" using service_ok_demo_db by (simp add: demo_tserver_def)
  obtain reply srv' where h: "ticket_handle demo_tconfig False demo_tenv (demo_treq ''POST'' ''/tickets/1/comments'' ''9'' ''agent''
     (Some (Raw_obj [(''body'', Raw_str ''on it'')]))) (demo_tserver demo_db) = (reply, srv')" by fastforce
  from event_targets [OF ok h] show ?thesis using h by (auto simp: demo_tserver_def)
qed

end
