(* ===== verification/Notifications.thy ===== *)
theory Notifications
  imports Events Db Jwt
begin

section \<open>notification-service: stored notifications and their HTTP API\<close>

text \<open>
  \<open>internal/domain\<close>, \<open>internal/repository\<close>, \<open>internal/usecase\<close>, \<open>internal/delivery/http\<close> and the
  routes of \<open>cmd/main.go\<close>, except \<open>/ws\<close> (theory WsHub) and \<open>/metrics\<close>. The messages that fill
  the table come from the consumer (theory MessageBus).
\<close>

subsection \<open>The payload column: RawEvent\<close>

text \<open>
  A \<open>RawEvent\<close> is the bytes of a JSON document. The values a database driver exchanges with it:
  \<open>Value\<close> on the way in, \<open>Scan\<close> on the way out, where the column of type text comes back as a
  string. \<open>None\<close> is an error.
\<close>

type_synonym RawEvent = string

datatype driver_Value = V_nil | V_bytes string | V_string string | V_other

definition RawEvent_MarshalJSON :: "RawEvent \<Rightarrow> string" where
  "RawEvent_MarshalJSON r = (if length r = 0 then ''null'' else r)"

text \<open>The receiver is a pointer, \<open>None\<close> when it is nil; the old content is overwritten.\<close>

fun RawEvent_UnmarshalJSON :: "RawEvent option \<Rightarrow> string \<Rightarrow> RawEvent option" where
  "RawEvent_UnmarshalJSON None data = None"
| "RawEvent_UnmarshalJSON (Some r) data = Some (take 0 r @ data)"

fun RawEvent_Scan :: "driver_Value \<Rightarrow> RawEvent \<Rightarrow> RawEvent option" where
  "RawEvent_Scan V_nil r = Some []"
| "RawEvent_Scan (V_bytes v) r = Some (take 0 r @ v)"
| "RawEvent_Scan (V_string v) r = Some v"
| "RawEvent_Scan V_other r = None"

definition RawEvent_Value :: "RawEvent \<Rightarrow> driver_Value" where
  "RawEvent_Value r = (if length r = 0 then V_nil else V_bytes r)"

text \<open>A column of type text holds NULL or a text, which the driver hands out as a string.\<close>

fun store_text :: "driver_Value \<Rightarrow> string option" where
  "store_text (V_bytes b) = Some b"
| "store_text (V_string s) = Some s"
| "store_text _ = None"

fun load_text :: "string option \<Rightarrow> driver_Value" where
  "load_text None = V_nil"
| "load_text (Some s) = V_string s"

lemma RawEvent_column [simp]: "RawEvent_Scan (load_text (store_text (RawEvent_Value r))) r' = Some r"
  by (simp add: RawEvent_Value_def)

subsection \<open>The table\<close>

text \<open>The struct, with the payload as the program sees it or as the row stores it.\<close>

record 'p notification =
  no_ID :: uint
  no_UserID :: uint
  no_Payload :: 'p
  no_Read :: bool
  no_CreatedAt :: time

type_synonym Notification = "RawEvent notification"
type_synonym notification_row = "string option notification"
type_synonym notifications = "notification_row table"

definition scan_row :: "notification_row \<Rightarrow> Notification option" where
  "scan_row n = (case RawEvent_Scan (load_text (no_Payload n)) [] of
     None \<Rightarrow> None
   | Some p \<Rightarrow> Some \<lparr>no_ID = no_ID n, no_UserID = no_UserID n, no_Payload = p, no_Read = no_Read n, no_CreatedAt = no_CreatedAt n\<rparr>)"

fun scan_rows :: "notification_row list \<Rightarrow> Notification list option" where
  "scan_rows [] = Some []"
| "scan_rows (n # ns) = (case (scan_row n, scan_rows ns) of (Some x, Some xs) \<Rightarrow> Some (x # xs) | _ \<Rightarrow> None)"

text \<open>
  \<open>Create\<close>: GORM fills in the key and the time. \<open>FindByUser\<close> orders by creation time only;
  which of two rows of the same time comes first is up to the database, an order \<open>tie\<close> that may
  differ from call to call.
\<close>

definition Notifications_Create :: "faults \<Rightarrow> time \<Rightarrow> uint \<Rightarrow> RawEvent \<Rightarrow> notifications \<Rightarrow> (notifications, unit) result" where
  "Notifications_Create ft now userID payload t =
     exec_stmt (ft 0) (\<lambda>t. (Inr (), insert_row (\<lambda>k. \<lparr>no_ID = k, no_UserID = userID,
       no_Payload = store_text (RawEvent_Value payload), no_Read = False, no_CreatedAt = now\<rparr>) t)) t"

definition Notifications_FindByUser ::
  "faults \<Rightarrow> (uint \<Rightarrow> int) \<Rightarrow> uint \<Rightarrow> bool \<Rightarrow> int \<Rightarrow> int \<Rightarrow> notifications \<Rightarrow> err + Notification list" where
  "Notifications_FindByUser ft tie userID unreadOnly limit offset t =
     (if ft 0 then Inl ErrDatabase
      else case scan_rows (select_page (\<lambda>n. no_UserID n = userID \<and> (unreadOnly \<longrightarrow> no_Read n = False))
             (\<lambda>n. (- no_CreatedAt n, tie (no_ID n))) limit offset t) of
             None \<Rightarrow> Inl ErrDatabase
           | Some ns \<Rightarrow> Inr ns)"

definition Notifications_MarkRead :: "faults \<Rightarrow> uint \<Rightarrow> uint \<Rightarrow> notifications \<Rightarrow> (notifications, unit) result" where
  "Notifications_MarkRead ft nid userID t =
     exec_stmt (ft 0) (\<lambda>t. (Inr (), update_where (\<lambda>n. no_ID n = nid \<and> no_UserID n = userID) (\<lambda>n. n\<lparr>no_Read := True\<rparr>) t)) t"

definition Notifications_MarkAllRead :: "faults \<Rightarrow> uint \<Rightarrow> notifications \<Rightarrow> (notifications, unit) result" where
  "Notifications_MarkAllRead ft userID t =
     exec_stmt (ft 0) (\<lambda>t. (Inr (), update_where (\<lambda>n. no_UserID n = userID \<and> no_Read n = False) (\<lambda>n. n\<lparr>no_Read := True\<rparr>) t)) t"

text \<open>\<open>NotificationUsecase\<close> passes its calls on.\<close>

definition NotificationUsecase_Create :: "faults \<Rightarrow> time \<Rightarrow> uint \<Rightarrow> string \<Rightarrow> notifications \<Rightarrow> (notifications, unit) result" where
  "NotificationUsecase_Create ft now userID payload t = Notifications_Create ft now userID payload t"

definition NotificationUsecase_List ::
  "faults \<Rightarrow> (uint \<Rightarrow> int) \<Rightarrow> uint \<Rightarrow> bool \<Rightarrow> int \<Rightarrow> int \<Rightarrow> notifications \<Rightarrow> err + Notification list" where
  "NotificationUsecase_List ft tie userID unreadOnly limit offset t = Notifications_FindByUser ft tie userID unreadOnly limit offset t"

definition NotificationUsecase_MarkRead :: "faults \<Rightarrow> uint \<Rightarrow> uint \<Rightarrow> notifications \<Rightarrow> (notifications, unit) result" where
  "NotificationUsecase_MarkRead ft nid userID t = Notifications_MarkRead ft nid userID t"

definition NotificationUsecase_MarkAllRead :: "faults \<Rightarrow> uint \<Rightarrow> notifications \<Rightarrow> (notifications, unit) result" where
  "NotificationUsecase_MarkAllRead ft userID t = Notifications_MarkAllRead ft userID t"

lemmas notification_usecase [simp] = NotificationUsecase_Create_def NotificationUsecase_List_def
  NotificationUsecase_MarkRead_def NotificationUsecase_MarkAllRead_def

subsection \<open>The handlers\<close>

record NotifConfig =
  nc_jwt :: Jwt
  nc_jwtSecret :: string
  nc_oob :: "float64 \<Rightarrow> uint"

record NotifEnv =
  ne_now :: time
  ne_ft :: faults
  ne_tie :: "uint \<Rightarrow> int"
  ne_connected :: bool
  ne_db_up :: bool
  ne_requestID :: string

datatype notif_data = N_text string | N_list "Notification list"

definition requireAuth :: "NotifConfig \<Rightarrow> time \<Rightarrow> request \<Rightarrow> uint option" where
  "requireAuth cfg now r =
     (let authHeader = GetHeader ''Authorization'' r in
      if authHeader = [] \<or> \<not> HasPrefix authHeader ''Bearer '' then None
      else case jwt_Parse (nc_jwt cfg) now (keyfunc (nc_jwtSecret cfg)) (TrimPrefix authHeader ''Bearer '') of
             None \<Rightarrow> None
           | Some tok \<Rightarrow>
               if \<not> tk_Valid tok then None
               else case tk_Claims tok of
                      None \<Rightarrow> None
                    | Some claims \<Rightarrow> (case claim ''user_id'' claims of JNum f \<Rightarrow> Some (uint_of_f64 (nc_oob cfg) f) | _ \<Rightarrow> None))"

abbreviation unauthorized :: "notif_data response" where
  "unauthorized \<equiv> Error 401 ''unauthorized'' ''UNAUTHORIZED''"

definition notif_defaultPageLimit :: int where "notif_defaultPageLimit = 20"
definition notif_maxPageLimit :: int where "notif_maxPageLimit = 100"

text \<open>A query parameter that is a positive number, or the default.\<close>

definition positive_param :: "string \<Rightarrow> int \<Rightarrow> request \<Rightarrow> int" where
  "positive_param k dflt r = (case Atoi (rq_query r k) of Some v \<Rightarrow> if v > 0 then v else dflt | None \<Rightarrow> dflt)"

definition notif_limit :: "request \<Rightarrow> int" where
  "notif_limit r = (let limit = positive_param ''limit'' notif_defaultPageLimit r
     in if limit > notif_maxPageLimit then notif_maxPageLimit else limit)"

definition notif_offset :: "request \<Rightarrow> int" where
  "notif_offset r = wrap64 ((positive_param ''page'' 1 r - 1) * notif_limit r)"

definition NotificationHandler_List :: "NotifConfig \<Rightarrow> NotifEnv \<Rightarrow> request \<Rightarrow> notifications \<Rightarrow> notif_data response \<times> notifications" where
  "NotificationHandler_List cfg env r t =
     (case requireAuth cfg (ne_now env) r of
        None \<Rightarrow> (unauthorized, t)
      | Some userID \<Rightarrow>
          (let unreadOnly = (rq_query r ''unread_only'' = ''true'') in
           case NotificationUsecase_List (ne_ft env) (ne_tie env) userID unreadOnly (notif_limit r) (notif_offset r) t of
             Inl e \<Rightarrow> (Error 500 ''failed to list notifications'' ''INTERNAL_ERROR'', t)
           | Inr ns \<Rightarrow> (Success (N_list ns), t)))"

definition NotificationHandler_MarkRead ::
  "NotifConfig \<Rightarrow> NotifEnv \<Rightarrow> request \<Rightarrow> uint \<Rightarrow> notifications \<Rightarrow> notif_data response \<times> notifications" where
  "NotificationHandler_MarkRead cfg env r nid t =
     (case requireAuth cfg (ne_now env) r of
        None \<Rightarrow> (unauthorized, t)
      | Some userID \<Rightarrow>
          (case NotificationUsecase_MarkRead (ne_ft env) nid userID t of
             (Inl e, t') \<Rightarrow> (Error 500 ''failed to mark notification read'' ''INTERNAL_ERROR'', t')
           | (Inr _, t') \<Rightarrow> (Success (N_text ''marked read''), t')))"

definition NotificationHandler_MarkAllRead ::
  "NotifConfig \<Rightarrow> NotifEnv \<Rightarrow> request \<Rightarrow> notifications \<Rightarrow> notif_data response \<times> notifications" where
  "NotificationHandler_MarkAllRead cfg env r t =
     (case requireAuth cfg (ne_now env) r of
        None \<Rightarrow> (unauthorized, t)
      | Some userID \<Rightarrow>
          (case NotificationUsecase_MarkAllRead (ne_ft env) userID t of
             (Inl e, t') \<Rightarrow> (Error 500 ''failed to mark notifications read'' ''INTERNAL_ERROR'', t')
           | (Inr _, t') \<Rightarrow> (Success (N_text ''all marked read''), t')))"

subsection \<open>The routes\<close>

text \<open>
  \<open>http.ServeMux\<close>: a path that is not clean is redirected; a pattern with \<open>GET\<close> also serves
  \<open>HEAD\<close>; a path that only other methods have is answered with 405.
\<close>

definition clean_path :: "string list \<Rightarrow> bool" where
  "clean_path segs \<longleftrightarrow> [] \<notin> set (butlast segs) \<and> ''.'' \<notin> set segs \<and> ''..'' \<notin> set segs"

definition notif_routes ::
  "NotifConfig \<Rightarrow> NotifEnv \<Rightarrow> request \<Rightarrow> (string \<times> seg list \<times> unit \<times> (string list \<Rightarrow> notifications \<Rightarrow> notif_data response \<times> notifications)) list" where
  "notif_routes cfg env r =
     (let n = Lit ''notifications'' in
     [(''GET'', [n], (), \<lambda>_. NotificationHandler_List cfg env r),
      (''PATCH'', [n, Lit ''read-all''], (), \<lambda>_. NotificationHandler_MarkAllRead cfg env r),
      (''PATCH'', [n, Par, Lit ''read''], (), \<lambda>ps t.
         case ParseUint (ps ! 0) of
           None \<Rightarrow> (Error 400 ''invalid notification id'' ''BAD_REQUEST'', t)
         | Some i \<Rightarrow> NotificationHandler_MarkRead cfg env r i t)])"

definition mux_method :: "string \<Rightarrow> string" where
  "mux_method m = (if m = ''HEAD'' then ''GET'' else m)"

definition notif_handle :: "NotifConfig \<Rightarrow> NotifEnv \<Rightarrow> request \<Rightarrow> notifications \<Rightarrow> notif_data response \<times> notifications" where
  "notif_handle cfg env r t =
     (let segs = tl (Split (CHR ''/'') (rq_path r)); routes = notif_routes cfg env r in
      if \<not> clean_path segs then (Error 301 ''Moved Permanently'' [], t)
      else if segs = [''health''] then
        ((if \<not> ne_connected env \<or> \<not> ne_db_up env then Error 503 ''dependency disconnected'' [] else Success (N_text ''ok'')), t)
      else if segs = [''healthz''] then (Success (N_text ''ok''), t)
      else case find_route (mux_method (rq_method r)) segs routes of
             Some (_, h) \<Rightarrow> h t
           | None \<Rightarrow>
               if \<exists>e\<in>set routes. match_segs (fst (snd e)) segs \<noteq> None then (Error 405 ''Method Not Allowed'' [], t)
               else (Error 404 ''404 page not found'' [], t))"

text \<open>\<open>requestIDMiddleware\<close> sets the header before the mux runs; the reply carries it too.\<close>

definition notif_requestID :: "string \<Rightarrow> request \<Rightarrow> string" where
  "notif_requestID gen r = (let reqID = GetHeader ''X-Request-ID'' r in if reqID = [] then gen else reqID)"

fun notif_serve :: "NotifConfig \<Rightarrow> NotifEnv \<times> request \<Rightarrow> notifications \<Rightarrow> notif_data response \<times> notifications" where
  "notif_serve cfg (env, r) t =
     notif_handle cfg env (SetHeader ''X-Request-ID'' (notif_requestID (ne_requestID env) r) r) t"

subsection \<open>What a request can see and change\<close>

text \<open>A row as the program loads it.\<close>

definition loaded :: "notification_row \<Rightarrow> Notification" where
  "loaded n = \<lparr>no_ID = no_ID n, no_UserID = no_UserID n, no_Payload = (case no_Payload n of None \<Rightarrow> [] | Some p \<Rightarrow> p),
     no_Read = no_Read n, no_CreatedAt = no_CreatedAt n\<rparr>"

lemma loaded_sel [simp]:
  "no_ID (loaded n) = no_ID n" "no_UserID (loaded n) = no_UserID n" "no_Read (loaded n) = no_Read n"
  "no_CreatedAt (loaded n) = no_CreatedAt n"
  by (simp_all add: loaded_def)

lemma scan_row_loaded [simp]: "scan_row n = Some (loaded n)"
  by (cases "no_Payload n") (simp_all add: scan_row_def loaded_def)

lemma scan_rows_loaded [simp]: "scan_rows ns = Some (map loaded ns)"
  by (induction ns) simp_all

text \<open>The change a request may make: set the read flag of rows that satisfy P.\<close>

definition mark :: "(notification_row \<Rightarrow> bool) \<Rightarrow> notifications \<Rightarrow> notifications" where
  "mark P t = update_where P (\<lambda>n. n\<lparr>no_Read := True\<rparr>) t"

lemma mark_none: "mark (\<lambda>_. False) t = t"
  by (cases t) (simp add: mark_def update_where_def)

definition own :: "uint option \<Rightarrow> notification_row \<Rightarrow> bool" where
  "own caller n \<longleftrightarrow> caller = Some (no_UserID n)"

text \<open>The rows a list shows: of that user, loaded, newest first, at most one page.\<close>

definition own_list :: "uint option \<Rightarrow> notifications \<Rightarrow> Notification list \<Rightarrow> bool" where
  "own_list caller t ns \<longleftrightarrow> length ns \<le> 100 \<and> sorted_wrt (\<lambda>a b. no_CreatedAt b \<le> no_CreatedAt a) ns \<and>
     (\<forall>x\<in>set ns. \<exists>n\<in>set (rows t). own caller n \<and> x = loaded n)"

definition notif_effect :: "uint option \<Rightarrow> notifications \<Rightarrow> notif_data response \<times> notifications \<Rightarrow> bool" where
  "notif_effect caller t res \<longleftrightarrow>
     (\<exists>P. snd res = mark P t \<and> (\<forall>n. P n \<longrightarrow> own caller n)) \<and>
     (\<forall>ns. fst res = Success (N_list ns) \<longrightarrow> own_list caller t ns)"

lemma notif_effect_idle: "(\<And>ns. reply \<noteq> Success (N_list ns)) \<Longrightarrow> notif_effect caller t (reply, t)"
  unfolding notif_effect_def by (metis fst_conv mark_none snd_conv)

lemma sorted_pairs: "sorted_wrt (\<lambda>a b. key a \<le> key b) xs \<Longrightarrow> (\<And>a b. key a \<le> key b \<Longrightarrow> Q a b) \<Longrightarrow> sorted_wrt Q xs"
  by (erule sorted_wrt_mono_rel [rotated]) blast

lemma select_page_sorted: "sorted_wrt (\<lambda>a b. key a \<le> key b) (select_page P key l off t)"
  using sorted_sort_key [of key "filter P (rows t)"]
  by (simp add: select_page_def sorted_map sorted_wrt_take sorted_wrt_drop)

lemma list_own:
  assumes "Notifications_FindByUser ft tie u unreadOnly limit offset t = Inr ns" and "limit \<le> 100"
  shows "own_list (Some u) t ns"
proof -
  let ?p = "select_page (\<lambda>n. no_UserID n = u \<and> (unreadOnly \<longrightarrow> no_Read n = False)) (\<lambda>n. (- no_CreatedAt n, tie (no_ID n))) limit offset t"
  have ns: "ns = map loaded ?p"
    using assms(1) by (simp add: Notifications_FindByUser_def split: if_splits)
  have "sorted_wrt (\<lambda>a b. no_CreatedAt b \<le> no_CreatedAt a) ?p"
    by (rule sorted_pairs [OF select_page_sorted]) (auto simp: less_eq_prod_def)
  moreover have "length ?p \<le> nat limit" by (rule length_select_page)
  moreover have "no_UserID n = u \<and> n \<in> set (rows t)" if "n \<in> set ?p" for n
    using set_select_page [OF that] by simp
  ultimately show ?thesis
    using assms(2) by (auto simp: own_list_def own_def ns sorted_wrt_map)
qed

lemma notif_limit_range: "0 < notif_limit r \<and> notif_limit r \<le> 100"
  by (auto simp: notif_limit_def positive_param_def notif_defaultPageLimit_def notif_maxPageLimit_def Let_def split: option.splits)

lemma mark_effect:
  "(\<And>n. P n \<Longrightarrow> own caller n) \<Longrightarrow> (\<And>ns. reply \<noteq> Success (N_list ns)) \<Longrightarrow> notif_effect caller t (reply, mark P t)"
  unfolding notif_effect_def by auto

lemma handlers_effect:
  "notif_effect (requireAuth cfg (ne_now env) r) t (NotificationHandler_List cfg env r t)"
  "notif_effect (requireAuth cfg (ne_now env) r) t (NotificationHandler_MarkRead cfg env r i t)"
  "notif_effect (requireAuth cfg (ne_now env) r) t (NotificationHandler_MarkAllRead cfg env r t)"
proof -
  note idle = notif_effect_idle [of "Error c m e" for c m e, simplified] notif_effect_idle [of "Success (N_text x)" for x, simplified]
  show "notif_effect (requireAuth cfg (ne_now env) r) t (NotificationHandler_List cfg env r t)"
  proof (cases "requireAuth cfg (ne_now env) r")
    case None then show ?thesis by (simp add: NotificationHandler_List_def idle)
  next
    case (Some u)
    let ?f = "Notifications_FindByUser (ne_ft env) (ne_tie env) u (rq_query r ''unread_only'' = ''true'') (notif_limit r) (notif_offset r) t"
    show ?thesis
    proof (cases ?f)
      case (Inl e) then show ?thesis by (simp add: NotificationHandler_List_def Some idle)
    next
      case (Inr ns)
      have "own_list (Some u) t ns" using list_own [OF Inr] notif_limit_range by blast
      moreover have "\<exists>P. t = mark P t \<and> (\<forall>n. P n \<longrightarrow> own (Some u) n)" using mark_none by metis
      ultimately show ?thesis by (simp add: NotificationHandler_List_def Some Inr notif_effect_def)
    qed
  qed
  show "notif_effect (requireAuth cfg (ne_now env) r) t (NotificationHandler_MarkRead cfg env r i t)"
    by (cases "requireAuth cfg (ne_now env) r")
      (auto simp: NotificationHandler_MarkRead_def Notifications_MarkRead_def exec_stmt_def own_def
         intro: idle mark_effect simp flip: mark_def)
  show "notif_effect (requireAuth cfg (ne_now env) r) t (NotificationHandler_MarkAllRead cfg env r t)"
    by (cases "requireAuth cfg (ne_now env) r")
      (auto simp: NotificationHandler_MarkAllRead_def Notifications_MarkAllRead_def exec_stmt_def own_def
         intro: idle mark_effect simp flip: mark_def)
qed

lemma notif_handle_effect: "notif_effect (requireAuth cfg (ne_now env) r) t (notif_handle cfg env r t)"
proof -
  note idle = notif_effect_idle [of "Error c m e" for c m e, simplified] notif_effect_idle [of "Success (N_text x)" for x, simplified]
  have "notif_effect (requireAuth cfg (ne_now env) r) t (h t)"
    if "find_route m segs (notif_routes cfg env r) = Some (l, h)" for m segs l h
    using find_route_in [OF that]
    by (auto simp: notif_routes_def Let_def handlers_effect idle split: option.splits)
  then show ?thesis
    by (auto simp: notif_handle_def Let_def idle split: option.splits)
qed

lemma requireAuth_header [simp]: "requireAuth cfg now (SetHeader ''X-Request-ID'' v r) = requireAuth cfg now r"
  by (simp add: requireAuth_def)

text \<open>
  C23. Notifications are private. Whatever the request and whatever fails, a reply lists only
  notifications of the user whose token the request carries, newest first and at most 100 of
  them, each with the payload that was stored; and the only change a request makes is to set
  the read flag of notifications of that user. No notification appears, disappears, changes
  owner or payload, or becomes unread; a request without a valid token changes nothing.
\<close>
theorem notifications_private:
  assumes "notif_serve cfg (env, r) t = (reply, t')"
  shows "(\<exists>P. t' = mark P t \<and> (\<forall>n. P n \<longrightarrow> own (requireAuth cfg (ne_now env) r) n)) \<and>
    (\<forall>ns. reply = Success (N_list ns) \<longrightarrow> own_list (requireAuth cfg (ne_now env) r) t ns)"
  using notif_handle_effect [of cfg env "SetHeader ''X-Request-ID'' (notif_requestID (ne_requestID env) r) r" t] assms
  by (simp add: notif_effect_def)

definition demo_nconfig :: NotifConfig where
  "demo_nconfig = \<lparr>nc_jwt = demo_jwt ''k'' [(''A'', \<lparr>tc_user_id = 7, tc_role = ''user'', tc_exp = 7200, tc_jti = None\<rparr>)],
     nc_jwtSecret = ''k'', nc_oob = (\<lambda>_. 0)\<rparr>"

definition demo_nenv :: NotifEnv where
  "demo_nenv = \<lparr>ne_now = 0, ne_ft = (\<lambda>_. False), ne_tie = int, ne_connected = True, ne_db_up = True, ne_requestID = ''q''\<rparr>"

definition demo_nreq :: "string \<Rightarrow> string \<Rightarrow> request" where
  "demo_nreq m p = \<lparr>rq_method = m, rq_path = p, rq_headers = (\<lambda>h. if h = ''Authorization'' then ''Bearer A'' else []),
     rq_query = (\<lambda>_. []), rq_ip = ''1'', rq_body = None\<rparr>"

definition demo_ntable :: notifications where
  "demo_ntable = \<lparr>rows = [\<lparr>no_ID = 1, no_UserID = 7, no_Payload = Some ''{}'', no_Read = False, no_CreatedAt = 5\<rparr>,
     \<lparr>no_ID = 2, no_UserID = 8, no_Payload = Some ''{}'', no_Read = False, no_CreatedAt = 6\<rparr>], seq = 3\<rparr>"

text \<open>The token of user 7 on the notification of user 8 (a reply of success, no change), and on its own.\<close>

lemma demo_caller: "requireAuth demo_nconfig 0 (demo_nreq m p) = Some 7"
  by (simp add: requireAuth_def demo_nconfig_def demo_nreq_def demo_jwt_def keyfunc_def SigningMethodHMAC_def GetHeader_def
      TrimPrefix_def Let_def)

lemma demo_nreq_sel [simp]:
  "rq_method (demo_nreq m p) = m" "rq_path (demo_nreq m p) = p" "rq_query (demo_nreq m p) k = []"
  by (simp_all add: demo_nreq_def)

lemma demo_nenv_sel [simp]:
  "ne_now demo_nenv = 0" "ne_ft demo_nenv k = False" "ne_tie demo_nenv = int"
  by (simp_all add: demo_nenv_def)

lemma demo_list:
  "notif_serve demo_nconfig (demo_nenv, demo_nreq ''GET'' ''/notifications'') demo_ntable =
     (Success (N_list [\<lparr>no_ID = 1, no_UserID = 7, no_Payload = ''{}'', no_Read = False, no_CreatedAt = 5\<rparr>]), demo_ntable)"
  by (simp add: demo_caller notif_handle_def notif_routes_def clean_path_def mux_method_def NotificationHandler_List_def
      Notifications_FindByUser_def select_page_def demo_ntable_def loaded_def positive_param_def notif_limit_def notif_offset_def
      notif_defaultPageLimit_def notif_maxPageLimit_def Let_def)

theorem notifications_private_witness:
  "own_list (Some 7) demo_ntable [\<lparr>no_ID = 1, no_UserID = 7, no_Payload = ''{}'', no_Read = False, no_CreatedAt = 5\<rparr>]"
  using notifications_private [OF demo_list] by (simp add: demo_caller)

end
