(* ===== verification/MessageBus.thy ===== *)
theory MessageBus
  imports Notifications "HOL-Library.Multiset"
begin

section \<open>From the queue to the table: the persist consumer (internal/consumer/consumer.go)\<close>

text \<open>
  \<open>consumePersist\<close> takes a delivery off the shared queue, stores it if it is meant for one
  user, and answers the broker: acknowledged, or rejected without requeueing, which moves the
  message to the dead-letter queue. The steps of broker and consumers interleave: the second
  part is a step relation in which any number of replicas hold any number of deliveries. Of
  the broker it takes what RabbitMQ documents: a delivery that was not answered when its
  connection ends goes back to the front of the queue, and answers that arrive on a connection
  that is gone are ignored.
\<close>

subsection \<open>One delivery\<close>

text \<open>
  The function literal that handles a delivery: its result, or \<open>None\<close> when it panics
  (\<open>panics\<close>: the database driver does). The deferred \<open>recover\<close> turns that into \<open>false\<close>.
\<close>

definition persist_body :: "faults \<Rightarrow> bool \<Rightarrow> time \<Rightarrow> string \<Rightarrow> notifications \<Rightarrow> bool option \<times> notifications" where
  "persist_body ft panics now body t =
     (case Unmarshal_event body of
        None \<Rightarrow> (Some False, t)
      | Some evt \<Rightarrow>
          (case ev_TargetUserID evt of
             None \<Rightarrow> (Some True, t)
           | Some u \<Rightarrow>
               if panics then (None, t)
               else case NotificationUsecase_Create ft now u body t of
                      (Inl e, t') \<Rightarrow> (Some False, t')
                    | (Inr _, t') \<Rightarrow> (Some True, t')))"

definition persist_delivery :: "faults \<Rightarrow> bool \<Rightarrow> time \<Rightarrow> string \<Rightarrow> notifications \<Rightarrow> bool \<times> notifications" where
  "persist_delivery ft panics now body t =
     (case persist_body ft panics now body t of
        (None, t') \<Rightarrow> (False, t')
      | (Some ok, t') \<Rightarrow> (ok, t'))"

text \<open>The user a message is stored for.\<close>

definition stored_for :: "string \<Rightarrow> uint option" where
  "stored_for body = (case Unmarshal_event body of None \<Rightarrow> None | Some e \<Rightarrow> ev_TargetUserID e)"

definition new_row :: "time \<Rightarrow> uint \<Rightarrow> string \<Rightarrow> uint \<Rightarrow> notification_row" where
  "new_row now u body k = \<lparr>no_ID = k, no_UserID = u, no_Payload = Some body, no_Read = False, no_CreatedAt = now\<rparr>"

lemma Unmarshal_Nil: "Unmarshal_event [] = None"
  by code_simp

lemma persist_delivery_cases:
  assumes "persist_delivery ft panics now body t = (ok, t')"
  obtains (stored) u where "stored_for body = Some u" "ok" "t' = insert_row (new_row now u body) t"
    | (nothing) "t' = t" "ok \<longrightarrow> stored_for body = None"
proof (cases "Unmarshal_event body")
  case None
  show thesis by (rule nothing) (insert assms None, auto simp: persist_delivery_def persist_body_def)
next
  case (Some e)
  then have ne: "body \<noteq> []" using Unmarshal_Nil by auto
  show thesis
  proof (cases "ev_TargetUserID e")
    case None
    show thesis by (rule nothing) (insert assms Some None, auto simp: persist_delivery_def persist_body_def stored_for_def)
  next
    fix u assume u: "ev_TargetUserID e = Some u"
    have s: "stored_for body = Some u" using Some u by (simp add: stored_for_def)
    have v: "store_text (RawEvent_Value body) = Some body" using ne by (simp add: RawEvent_Value_def)
    show thesis
    proof (cases "panics \<or> ft 0")
      case True
      show thesis
        by (rule nothing) (insert assms Some u True,
          auto simp: persist_delivery_def persist_body_def Notifications_Create_def exec_stmt_def split: if_splits)
    next
      case False
      with Some u assms have "t' = insert_row (new_row now u body) t" "ok"
        by (auto simp: persist_delivery_def persist_body_def Notifications_Create_def exec_stmt_def v new_row_def)
      with s stored show thesis by blast
    qed
  qed
qed

lemma persist_ok: "fst (persist_delivery (\<lambda>_. False) False now body t) \<longleftrightarrow> Unmarshal_event body \<noteq> None"
  by (simp add: persist_delivery_def persist_body_def Notifications_Create_def exec_stmt_def split: option.splits)

subsection \<open>Broker and consumers together\<close>

text \<open>
  A message is a number and its body. \<open>bu_unacked\<close> is what the broker knows of the deliveries
  of a connection, \<open>bu_held\<close> what the consumer has still to handle, \<open>bu_replies\<close> the answers it
  has not sent yet. \<open>bu_history\<close> (the bodies published so far) and \<open>bu_log\<close> (the message each row
  of the table came from) are not part of the program; the properties speak about them.
\<close>

type_synonym msg = "nat \<times> string"

record Bus =
  bu_history :: "string list"
  bu_queue :: "msg list"
  bu_unacked :: "(nat \<times> msg) list"
  bu_held :: "(nat \<times> msg) list"
  bu_replies :: "(nat \<times> msg \<times> bool) list"
  bu_acked :: "msg list"
  bu_dlq :: "msg list"
  bu_closed :: "nat list"
  bu_table :: notifications
  bu_log :: "nat list"

definition initial_bus :: Bus where
  "initial_bus = \<lparr>bu_history = [], bu_queue = [], bu_unacked = [], bu_held = [], bu_replies = [], bu_acked = [],
     bu_dlq = [], bu_closed = [], bu_table = empty_table, bu_log = []\<rparr>"

definition publish_step :: "string \<Rightarrow> Bus \<Rightarrow> Bus" where
  "publish_step body s = s\<lparr>bu_history := bu_history s @ [body], bu_queue := bu_queue s @ [(length (bu_history s), body)]\<rparr>"

definition deliver_step :: "nat \<Rightarrow> msg \<Rightarrow> msg list \<Rightarrow> Bus \<Rightarrow> Bus" where
  "deliver_step c m q s = s\<lparr>bu_queue := q, bu_unacked := bu_unacked s @ [(c, m)], bu_held := bu_held s @ [(c, m)]\<rparr>"

definition process_step :: "faults \<Rightarrow> bool \<Rightarrow> time \<Rightarrow> nat \<Rightarrow> msg \<Rightarrow> Bus \<Rightarrow> Bus" where
  "process_step ft panics now c m s =
     (case persist_delivery ft panics now (snd m) (bu_table s) of
        (ok, t') \<Rightarrow> s\<lparr>bu_held := remove1 (c, m) (bu_held s), bu_replies := bu_replies s @ [(c, m, ok)], bu_table := t',
          bu_log := bu_log s @ (if seq t' = seq (bu_table s) then [] else [fst m])\<rparr>)"

text \<open>\<open>d.Ack(false)\<close> or \<open>d.Nack(false, false)\<close>.\<close>

definition reply_step :: "nat \<Rightarrow> msg \<Rightarrow> bool \<Rightarrow> Bus \<Rightarrow> Bus" where
  "reply_step c m ok s =
     (let s' = s\<lparr>bu_replies := remove1 (c, m, ok) (bu_replies s)\<rparr> in
      if (c, m) \<notin> set (bu_unacked s) then s'
      else if ok then s'\<lparr>bu_unacked := remove1 (c, m) (bu_unacked s), bu_acked := bu_acked s @ [m]\<rparr>
      else s'\<lparr>bu_unacked := remove1 (c, m) (bu_unacked s), bu_dlq := bu_dlq s @ [m]\<rparr>)"

definition disconnect_step :: "nat \<Rightarrow> Bus \<Rightarrow> Bus" where
  "disconnect_step c s = s\<lparr>bu_closed := c # bu_closed s,
     bu_queue := map snd (filter (\<lambda>d. fst d = c) (bu_unacked s)) @ bu_queue s,
     bu_unacked := filter (\<lambda>d. fst d \<noteq> c) (bu_unacked s)\<rparr>"

definition drop_step :: "nat \<Rightarrow> Bus \<Rightarrow> Bus" where
  "drop_step c s = s\<lparr>bu_held := filter (\<lambda>d. fst d \<noteq> c) (bu_held s), bu_replies := filter (\<lambda>d. fst d \<noteq> c) (bu_replies s)\<rparr>"

inductive bus_step :: "Bus \<Rightarrow> Bus \<Rightarrow> bool" where
  publish: "bus_step s (publish_step body s)"
| deliver: "bu_queue s = m # q \<Longrightarrow> c \<notin> set (bu_closed s) \<Longrightarrow> bus_step s (deliver_step c m q s)"
| handle: "(c, m) \<in> set (bu_held s) \<Longrightarrow> bus_step s (process_step ft panics now c m s)"
| answer: "(c, m, ok) \<in> set (bu_replies s) \<Longrightarrow> bus_step s (reply_step c m ok s)"
| disconnect: "c \<notin> set (bu_closed s) \<Longrightarrow> bus_step s (disconnect_step c s)"
| stop: "c \<in> set (bu_closed s) \<Longrightarrow> bus_step s (drop_step c s)"
| api: "bus_step s (s\<lparr>bu_table := snd (notif_serve cfg (env, r) (bu_table s))\<rparr>)"

inductive bus_reaches :: "Bus \<Rightarrow> Bus \<Rightarrow> bool" where
  bus_refl: "bus_reaches s s"
| bus_more: "bus_reaches s s' \<Longrightarrow> bus_step s' s'' \<Longrightarrow> bus_reaches s s''"

lemma bus_trans: "bus_reaches s' s'' \<Longrightarrow> bus_reaches s s' \<Longrightarrow> bus_reaches s s''"
  by (induction rule: bus_reaches.induct) (auto intro: bus_more)

abbreviation bus_reachable :: "Bus \<Rightarrow> bool" where
  "bus_reachable \<equiv> bus_reaches initial_bus"

subsection \<open>What every reachable state satisfies\<close>

text \<open>Every message is in exactly one place, as the broker sees it.\<close>

definition places :: "Bus \<Rightarrow> msg multiset" where
  "places s = mset (bu_queue s) + image_mset snd (mset (bu_unacked s)) + mset (bu_acked s) + mset (bu_dlq s)"

definition published :: "Bus \<Rightarrow> msg multiset" where
  "published s = mset (enumerate 0 (bu_history s))"

lemma process_frame [simp]:
  "bu_history (process_step ft p now c m s) = bu_history s" "bu_queue (process_step ft p now c m s) = bu_queue s"
  "bu_unacked (process_step ft p now c m s) = bu_unacked s" "bu_acked (process_step ft p now c m s) = bu_acked s"
  "bu_dlq (process_step ft p now c m s) = bu_dlq s" "bu_closed (process_step ft p now c m s) = bu_closed s"
  "bu_held (process_step ft p now c m s) = remove1 (c, m) (bu_held s)"
  by (simp_all add: process_step_def split: prod.splits)

lemma reply_frame [simp]:
  "bu_history (reply_step c m ok s) = bu_history s" "bu_queue (reply_step c m ok s) = bu_queue s"
  "bu_held (reply_step c m ok s) = bu_held s" "bu_closed (reply_step c m ok s) = bu_closed s"
  "bu_table (reply_step c m ok s) = bu_table s" "bu_log (reply_step c m ok s) = bu_log s"
  "bu_replies (reply_step c m ok s) = remove1 (c, m, ok) (bu_replies s)"
  by (simp_all add: reply_step_def Let_def)

lemma filter_split: "filter_mset P M + filter_mset (\<lambda>x. \<not> P x) M = M"
  by (simp add: multiset_partition [symmetric])

lemma places_step: "bus_step s s' \<Longrightarrow> places s = published s \<Longrightarrow> places s' = published s'"
proof (induction rule: bus_step.induct)
  case (publish s body)
  then show ?case by (simp add: places_def published_def publish_step_def enumerate_append_eq)
next
  case (deliver s m q c)
  then show ?case by (simp add: places_def published_def deliver_step_def)
next
  case (answer c m ok s)
  have "mset (bu_unacked s) = add_mset (c, m) (mset (bu_unacked s) - {#(c, m)#})" if "(c, m) \<in> set (bu_unacked s)"
    using that by simp
  then have "image_mset snd (mset (bu_unacked s)) = add_mset m (image_mset snd (mset (bu_unacked s) - {#(c, m)#}))"
    if "(c, m) \<in> set (bu_unacked s)"
    using that by (metis image_mset_add_mset snd_conv)
  with answer show ?case
    by (cases "(c, m) \<in> set (bu_unacked s)") (simp_all add: places_def published_def reply_step_def Let_def)
next
  case (disconnect c s)
  have "image_mset snd (mset (bu_unacked s)) =
      image_mset snd (filter_mset (\<lambda>d. fst d = c) (mset (bu_unacked s))) +
      image_mset snd (filter_mset (\<lambda>d. fst d \<noteq> c) (mset (bu_unacked s)))"
    by (metis filter_split image_mset_union)
  with disconnect show ?case by (simp add: places_def published_def disconnect_step_def ac_simps)
qed (simp_all add: places_def published_def drop_step_def)

lemma bus_invariant:
  assumes "bus_reachable s" and "I initial_bus" and "\<And>s s'. I s \<Longrightarrow> bus_step s s' \<Longrightarrow> I s'"
  shows "I s"
  using assms(1)
proof (induction "initial_bus" s rule: bus_reaches.induct)
  case bus_refl show ?case by (rule assms(2))
next
  case (bus_more s' s'') then show ?case by (auto intro: assms(3))
qed

lemma each_in_one_place: "bus_reachable s \<Longrightarrow> places s = published s"
  by (erule bus_invariant) (simp add: places_def published_def initial_bus_def, rule places_step)

text \<open>A message number occurs once among the published messages.\<close>

lemma published_number: "count (image_mset fst (published s)) n \<le> 1"
proof -
  have "image_mset fst (published s) = mset [0..<length (bu_history s)]"
    by (simp add: published_def flip: mset_map)
  moreover have "count (mset [0..<k]) n \<le> 1" for k
    by (induction k) auto
  ultimately show ?thesis by simp
qed

text \<open>What a consumer holds or is about to answer are deliveries of published messages.\<close>

definition known :: "Bus \<Rightarrow> msg \<Rightarrow> bool" where
  "known s m \<longleftrightarrow> fst m < length (bu_history s) \<and> snd m = bu_history s ! fst m"

lemma known_published: "m \<in># published s \<longleftrightarrow> known s m"
  by (cases m) (auto simp: published_def known_def in_set_enumerate_eq)

definition deliveries_known :: "Bus \<Rightarrow> bool" where
  "deliveries_known s \<longleftrightarrow> (\<forall>d\<in>set (bu_held s). known s (snd d)) \<and> (\<forall>d\<in>set (bu_replies s). known s (fst (snd d)))"

lemma known_mono: "known s m \<Longrightarrow> bus_step s s' \<Longrightarrow> known s' m"
  by (erule bus_step.cases)
    (simp_all add: known_def publish_step_def deliver_step_def disconnect_step_def drop_step_def nth_append)

lemma process_replies: "bu_replies (process_step ft p now c m s) =
    bu_replies s @ [(c, m, fst (persist_delivery ft p now (snd m) (bu_table s)))]"
  by (simp add: process_step_def split: prod.splits)

lemma deliveries_known_step:
  assumes "bus_reachable s \<and> deliveries_known s" and step: "bus_step s s'"
  shows "deliveries_known s'"
proof -
  have k: "\<forall>d\<in>set (bu_held s). known s' (snd d)" "\<forall>d\<in>set (bu_replies s). known s' (fst (snd d))"
    using assms known_mono by (auto simp: deliveries_known_def)
  from step show ?thesis
  proof (cases rule: bus_step.cases)
    case (deliver m q c)
    then have "m \<in># places s" by (simp add: places_def)
    then have "m \<in># published s" using each_in_one_place assms(1) by simp
    then have "known s' m" using known_mono step by (simp add: known_published)
    with k deliver show ?thesis by (auto simp: deliveries_known_def deliver_step_def)
  next
    case (handle c m ft p now)
    with k have "known s' m" by auto
    with k handle show ?thesis by (auto simp: deliveries_known_def process_replies dest!: notin_set_remove1 [rotated])
  qed (use k in \<open>auto simp: deliveries_known_def publish_step_def disconnect_step_def drop_step_def dest: set_mp [OF set_remove1_subset]\<close>)
qed

lemma bus_invariant':
  assumes "bus_reachable s" and "I initial_bus" and "\<And>s s'. bus_reachable s \<and> I s \<Longrightarrow> bus_step s s' \<Longrightarrow> I s'"
  shows "I s"
proof -
  have "bus_reachable s \<and> I s"
    by (rule bus_invariant [OF assms(1)]) (use assms(2,3) in \<open>auto intro: bus_reaches.intros\<close>)
  then show ?thesis ..
qed

lemma deliveries_are_known: "bus_reachable s \<Longrightarrow> deliveries_known s"
  by (erule bus_invariant') (simp add: deliveries_known_def initial_bus_def, rule deliveries_known_step)

text \<open>Every row of the table is the notification of one published message, its payload the body.\<close>

definition row_of :: "Bus \<Rightarrow> nat \<Rightarrow> notification_row \<Rightarrow> bool" where
  "row_of s n row \<longleftrightarrow> n < length (bu_history s) \<and> stored_for (bu_history s ! n) = Some (no_UserID row) \<and>
     no_Payload row = Some (bu_history s ! n)"

lemma row_of_history: "bu_history s' = bu_history s \<Longrightarrow> row_of s' = row_of s"
  by (simp add: row_of_def fun_eq_iff)

definition rows_logged :: "Bus \<Rightarrow> bool" where
  "rows_logged s \<longleftrightarrow> list_all2 (row_of s) (bu_log s) (rows (bu_table s))"

lemma notif_serve_mark: "\<exists>P. snd (notif_serve cfg (env, r) t) = mark P t"
  using notif_handle_effect [of cfg env "SetHeader ''X-Request-ID'' (notif_requestID (ne_requestID env) r) r" t]
  by (auto simp: notif_effect_def)

lemma list_all2_map_right: "(\<And>x y. P x y \<Longrightarrow> P x (f y)) \<Longrightarrow> list_all2 P xs ys \<Longrightarrow> list_all2 P xs (map f ys)"
  by (auto simp: list_all2_conv_all_nth)

lemma rows_logged_step:
  assumes "bus_reachable s \<and> rows_logged s" and step: "bus_step s s'"
  shows "rows_logged s'"
proof -
  have same: ?thesis if "bu_history s' = bu_history s" "list_all2 (row_of s) (bu_log s') (rows (bu_table s'))"
    using that row_of_history [OF that(1)] by (simp add: rows_logged_def)
  show ?thesis using step
proof (cases rule: bus_step.cases)
  case (publish body)
  have "row_of s n r \<Longrightarrow> row_of s' n r" for n r
    by (auto simp: publish publish_step_def row_of_def nth_append)
  then have "list_all2 (row_of s') (bu_log s) (rows (bu_table s))"
    using assms unfolding rows_logged_def by (blast intro: list_all2_mono)
  then show ?thesis by (simp add: rows_logged_def publish publish_step_def)
next
  case (handle c m ft p now)
  have k: "known s m" using assms deliveries_are_known handle by (force simp: deliveries_known_def)
  obtain ok t' where d: "persist_delivery ft p now (snd m) (bu_table s) = (ok, t')" by fastforce
  from d show ?thesis
  proof (cases rule: persist_delivery_cases)
    case (stored u)
    have "row_of s (fst m) (new_row now u (snd m) (seq (bu_table s)))"
      using k stored by (auto simp: row_of_def known_def new_row_def)
    moreover have "rows_logged s" using assms by simp
    moreover have "rows (bu_table s') = rows (bu_table s) @ [new_row now u (snd m) (seq (bu_table s))]"
      "bu_log s' = bu_log s @ [fst m]"
      using d handle stored by (simp_all add: process_step_def)
    ultimately show ?thesis by (intro same) (simp_all add: rows_logged_def handle list_all2_appendI)
  next
    case nothing
    then show ?thesis by (intro same) (use d handle assms in \<open>simp_all add: rows_logged_def process_step_def\<close>)
  qed
next
  case (api cfg env r)
  obtain P where "snd (notif_serve cfg (env, r) (bu_table s)) = mark P (bu_table s)" using notif_serve_mark by blast
  moreover have "row_of s n r \<Longrightarrow> row_of s n (if P r then r\<lparr>no_Read := True\<rparr> else r)" for n r
    by (simp add: row_of_def)
  ultimately show ?thesis
    using assms list_all2_map_right [of "row_of s" "\<lambda>r. if P r then r\<lparr>no_Read := True\<rparr> else r" "bu_log s" "rows (bu_table s)"]
    by (intro same) (simp_all add: api rows_logged_def mark_def)
  qed ((rule same; use assms in \<open>simp add: rows_logged_def deliver_step_def disconnect_step_def drop_step_def\<close>)+)
qed

lemma rows_are_logged: "bus_reachable s \<Longrightarrow> rows_logged s"
  by (erule bus_invariant') (simp add: rows_logged_def initial_bus_def, rule rows_logged_step)

text \<open>What is acknowledged, or about to be, has its row.\<close>

definition acked_stored :: "Bus \<Rightarrow> bool" where
  "acked_stored s \<longleftrightarrow>
     (\<forall>m\<in>set (bu_acked s). stored_for (snd m) \<noteq> None \<longrightarrow> fst m \<in> set (bu_log s)) \<and>
     (\<forall>(c, m, ok)\<in>set (bu_replies s). ok \<and> stored_for (snd m) \<noteq> None \<longrightarrow> fst m \<in> set (bu_log s))"

lemma acked_stored_step:
  assumes "bus_reachable s \<and> acked_stored s" and step: "bus_step s s'"
  shows "acked_stored s'"
  using step
proof (cases rule: bus_step.cases)
  case (handle c m ft p now)
  obtain ok t' where d: "persist_delivery ft p now (snd m) (bu_table s) = (ok, t')" by fastforce
  from d show ?thesis
  proof (cases rule: persist_delivery_cases)
    case (stored u)
    with d handle assms show ?thesis by (fastforce simp: acked_stored_def process_step_def)
  next
    case nothing
    with d handle assms show ?thesis by (fastforce simp: acked_stored_def process_step_def)
  qed
next
  case (answer c m ok)
  have sub: "set (bu_replies s') \<subseteq> set (bu_replies s)" using answer by (simp add: set_remove1_subset)
  have "bu_acked s' = bu_acked s \<or> ok \<and> bu_acked s' = bu_acked s @ [m]"
    using answer by (simp add: reply_step_def Let_def)
  then have "set (bu_acked s') \<subseteq> set (bu_acked s) \<union> {m. (c, m, True) \<in> set (bu_replies s)}"
    using answer by auto
  moreover have "bu_log s' = bu_log s" using answer by simp
  ultimately show ?thesis using sub assms unfolding acked_stored_def by (auto 4 4)
qed (use assms in \<open>auto simp: acked_stored_def publish_step_def deliver_step_def disconnect_step_def drop_step_def\<close>)

lemma acked_is_stored: "bus_reachable s \<Longrightarrow> acked_stored s"
  by (erule bus_invariant') (simp add: acked_stored_def initial_bus_def, rule acked_stored_step)

text \<open>A delivery the broker waits for is still with its consumer.\<close>

definition awaited :: "Bus \<Rightarrow> bool" where
  "awaited s \<longleftrightarrow> (\<forall>c m. (c, m) \<in> set (bu_unacked s) \<longrightarrow> c \<notin> set (bu_closed s) \<and>
     ((c, m) \<in> set (bu_held s) \<or> (\<exists>ok. (c, m, ok) \<in> set (bu_replies s))))"

lemma count_number: "count (image_mset f (mset xs)) n = length (filter (\<lambda>x. f x = n) xs)"
  by (induction xs) auto

lemma unacked_once:
  assumes "bus_reachable s"
  shows "length (filter (\<lambda>d. fst (snd d) = n) (bu_unacked s)) \<le> 1"
proof -
  have "count (image_mset fst (image_mset snd (mset (bu_unacked s)))) n \<le> count (image_mset fst (places s)) n"
    by (simp add: places_def)
  also have "\<dots> \<le> 1" using each_in_one_place [OF assms] published_number by simp
  finally show ?thesis by (simp add: image_mset.compositionality o_def count_number)
qed

lemma filter_le_1_remove1:
  "length (filter P xs) \<le> 1 \<Longrightarrow> x \<in> set xs \<Longrightarrow> P x \<Longrightarrow> y \<in> set (remove1 x xs) \<Longrightarrow> \<not> P y"
proof (induction xs)
  case (Cons z xs)
  then show ?case
    by (cases "z = x") (auto simp: filter_empty_conv Suc_le_eq dest: set_mp [OF set_remove1_subset] split: if_splits)
qed simp

lemma awaited_step:
  assumes "bus_reachable s \<and> awaited s" and step: "bus_step s s'"
  shows "awaited s'"
  using step
proof (cases rule: bus_step.cases)
  case (handle c m ft p now)
  have "(c', m') \<in> set (bu_held s') \<or> (\<exists>ok. (c', m', ok) \<in> set (bu_replies s'))"
    if "(c', m') \<in> set (bu_held s) \<or> (\<exists>ok. (c', m', ok) \<in> set (bu_replies s))" for c' m'
    using that in_remove1 [of "(c', m')" "bu_held s" "(c, m)"] by (cases "(c', m') = (c, m)") (auto simp: handle process_replies)
  moreover have "bu_unacked s' = bu_unacked s" "bu_closed s' = bu_closed s" by (simp_all add: handle)
  ultimately show ?thesis using assms unfolding awaited_def by (metis (no_types, lifting))
next
  case (answer c m ok)
  have keep: "(c', m', ok') \<in> set (bu_replies s')" if "(c', m', ok') \<in> set (bu_replies s)" "(c', m') \<noteq> (c, m)" for c' m' ok'
    using in_remove1 [OF that(1), of "(c, m, ok)"] that(2) by (auto simp: answer)
  have "(c', m') \<noteq> (c, m)" and "(c', m') \<in> set (bu_unacked s)" if "(c', m') \<in> set (bu_unacked s')" for c' m'
  proof -
    show "(c', m') \<noteq> (c, m)"
    proof (cases "(c, m) \<in> set (bu_unacked s)")
      case True
      then have u: "bu_unacked s' = remove1 (c, m) (bu_unacked s)" by (simp add: answer reply_step_def Let_def)
      have "bus_reachable s" using assms by simp
      from filter_le_1_remove1 [OF unacked_once [OF this, of "fst m"] True, of "(c', m')"] that u
      show ?thesis by auto
    next
      case False
      with that show ?thesis by (auto simp: answer reply_step_def Let_def)
    qed
    show "(c', m') \<in> set (bu_unacked s)"
      using that by (auto simp: answer reply_step_def Let_def split: if_splits dest: set_mp [OF set_remove1_subset])
  qed
  moreover have "bu_held s' = bu_held s" "bu_closed s' = bu_closed s" by (simp_all add: answer)
  ultimately show ?thesis using assms keep unfolding awaited_def by metis
qed (use assms in \<open>auto simp: awaited_def publish_step_def deliver_step_def disconnect_step_def drop_step_def\<close>)

lemma deliveries_awaited: "bus_reachable s \<Longrightarrow> awaited s"
  by (erule bus_invariant') (simp add: awaited_def initial_bus_def, rule awaited_step)

text \<open>
  How often a message can still become a row: the rows it has, the copies that are waiting to
  be handled, and the attempts that failed. Only a lost connection adds to that.
\<close>

definition attempts :: "Bus \<Rightarrow> nat \<Rightarrow> nat" where
  "attempts s n = length (filter (\<lambda>k. k = n) (bu_log s)) + length (filter (\<lambda>d. fst (snd d) = n) (bu_held s)) +
     length (filter (\<lambda>m. fst m = n) (bu_queue s)) +
     length (filter (\<lambda>d. fst (fst (snd d)) = n \<and> \<not> snd (snd d)) (bu_replies s)) + length (filter (\<lambda>m. fst m = n) (bu_dlq s))"

lemma attempts_fresh:
  assumes "bus_reachable s"
  shows "attempts s (length (bu_history s)) = 0"
proof -
  have "\<forall>k\<in>set (bu_log s). k < length (bu_history s)"
    using rows_are_logged [OF assms] by (fastforce simp: rows_logged_def row_of_def list_all2_conv_all_nth in_set_conv_nth)
  moreover have "\<forall>d\<in>set (bu_held s). known s (snd d)" "\<forall>d\<in>set (bu_replies s). known s (fst (snd d))"
    using deliveries_are_known [OF assms] by (simp_all add: deliveries_known_def)
  moreover have "known s m" if "m \<in> set (bu_queue s) \<union> set (bu_dlq s)" for m
  proof -
    have "m \<in># places s" using that by (auto simp: places_def)
    then show ?thesis using each_in_one_place [OF assms] by (simp add: known_published)
  qed
  ultimately show ?thesis by (fastforce simp: attempts_def known_def filter_empty_conv)
qed

definition attempts_bounded :: "Bus \<Rightarrow> bool" where
  "attempts_bounded s \<longleftrightarrow> (\<forall>n. attempts s n \<le> Suc (length (bu_closed s)))"

lemma attempts_process:
  assumes "(c, m) \<in> set (bu_held s)"
  shows "attempts (process_step ft p now c m s) n \<le> attempts s n"
proof -
  obtain ok t' where d: "persist_delivery ft p now (snd m) (bu_table s) = (ok, t')" by fastforce
  have h: "length (filter (\<lambda>d. fst (snd d) = n) (bu_held s)) =
      length (filter (\<lambda>d. fst (snd d) = n) (remove1 (c, m) (bu_held s))) + (if fst m = n then 1 else 0)"
    using filter_remove1 [OF assms, of "\<lambda>d. fst (snd d) = n"] by simp
  from d show ?thesis
    by (cases rule: persist_delivery_cases) (use d h in \<open>simp_all add: attempts_def process_step_def\<close>)
qed

lemma attempts_step:
  assumes "bus_reachable s \<and> attempts_bounded s" and step: "bus_step s s'"
  shows "attempts_bounded s'"
proof -
  have le: "attempts s n \<le> Suc (length (bu_closed s))" for n using assms by (simp add: attempts_bounded_def)
  have less: ?thesis if "\<And>n. attempts s' n \<le> attempts s n" "bu_closed s' = bu_closed s"
    using that le order_trans by (fastforce simp: attempts_bounded_def)
  from step show ?thesis
  proof (cases rule: bus_step.cases)
    case (publish body)
    have "attempts s' n \<le> Suc (length (bu_closed s))" for n
      using le [of n] attempts_fresh [of s] assms
      by (cases "n = length (bu_history s)") (auto simp: publish publish_step_def attempts_def)
    then show ?thesis by (simp add: attempts_bounded_def publish publish_step_def)
  next
    case (handle c m ft p now)
    then show ?thesis using attempts_process by (intro less) simp_all
  next
    case (answer c m ok)
    have "length (filter (\<lambda>d. fst (fst (snd d)) = n \<and> \<not> snd (snd d)) (bu_replies s)) =
        length (filter (\<lambda>d. fst (fst (snd d)) = n \<and> \<not> snd (snd d)) (remove1 (c, m, ok) (bu_replies s))) +
        (if fst m = n \<and> \<not> ok then 1 else 0)" for n
      using filter_remove1 [OF answer(2), of "\<lambda>d. fst (fst (snd d)) = n \<and> \<not> snd (snd d)"] by simp
    then have "attempts s' n \<le> attempts s n" for n
      by (simp add: answer attempts_def reply_step_def Let_def)
    then show ?thesis using answer by (intro less) simp_all
  next
    case (disconnect c)
    have "length (filter (\<lambda>m. fst m = n) (map snd (filter (\<lambda>d. fst d = c) (bu_unacked s)))) \<le> 1" for n
    proof -
      have "length (filter (\<lambda>m. fst m = n) (map snd (filter (\<lambda>d. fst d = c) (bu_unacked s)))) \<le>
          length (filter (\<lambda>d. fst (snd d) = n) (bu_unacked s))"
        by (simp add: filter_map o_def) (rule length_filter_mono, simp)
      also have "\<dots> \<le> 1" using unacked_once assms by simp
      finally show ?thesis .
    qed
    then have "attempts s' n \<le> Suc (attempts s n)" for n
      by (simp add: disconnect disconnect_step_def attempts_def)
    then show ?thesis using le by (force simp: attempts_bounded_def disconnect disconnect_step_def intro: order_trans)
  next
    case (stop c)
    have "attempts s' n \<le> attempts s n" for n
      unfolding stop attempts_def drop_step_def by simp (intro add_mono length_filter_mono; simp)
    then show ?thesis using stop by (intro less) (simp_all add: drop_step_def)
  qed ((rule less; simp add: attempts_def deliver_step_def)+)
qed

lemma attempts_are_bounded: "bus_reachable s \<Longrightarrow> attempts_bounded s"
  by (erule bus_invariant') (simp add: attempts_bounded_def attempts_def initial_bus_def, rule attempts_step)

subsection \<open>What the consumer guarantees\<close>

definition has_row :: "Bus \<Rightarrow> msg \<Rightarrow> bool" where
  "has_row s m \<longleftrightarrow> (\<exists>row\<in>set (rows (bu_table s)). stored_for (snd m) = Some (no_UserID row) \<and> no_Payload row = Some (snd m))"

lemma logged_has_row:
  assumes "bus_reachable s" and "known s m" and "fst m \<in> set (bu_log s)"
  shows "has_row s m"
proof -
  from assms(3) obtain i where i: "i < length (bu_log s)" "bu_log s ! i = fst m" by (auto simp: in_set_conv_nth)
  have "row_of s (bu_log s ! i) (rows (bu_table s) ! i)" "i < length (rows (bu_table s))"
    using rows_are_logged [OF assms(1)] i(1) by (auto simp: rows_logged_def list_all2_conv_all_nth)
  with i assms(2) show ?thesis by (auto simp: has_row_def row_of_def known_def)
qed

lemma acked_known: "bus_reachable s \<Longrightarrow> m \<in> set (bu_acked s) \<Longrightarrow> known s m"
  using each_in_one_place [of s] by (simp add: known_published [symmetric] places_def flip: each_in_one_place) 

text \<open>
  C24. At least once: however publishing, deliveries, failing inserts, panics, lost connections
  and requests of users interleave, no published message is lost. Each is in exactly one place
  (waiting, delivered and awaited, acknowledged, or parked in the dead-letter queue), and one
  that is meant for a user and was acknowledged has its row, with that user and the published
  bytes as payload.
\<close>
theorem persist_at_least_once:
  assumes "bus_reachable s"
  shows "places s = published s \<and> (\<forall>m\<in>set (bu_acked s). stored_for (snd m) \<noteq> None \<longrightarrow> has_row s m)"
  using each_in_one_place [OF assms] acked_is_stored [OF assms] logged_has_row [OF assms] acked_known [OF assms]
  by (auto simp: acked_stored_def)

text \<open>
  Nothing is made up, and duplicates have one cause: every row comes from one published
  message, with its target and its bytes; a message has at most one row more than connections
  were lost; and as long as none was, a message in the dead-letter queue has no row.
\<close>
theorem persist_rows_bounded:
  assumes "bus_reachable s"
  shows "list_all2 (row_of s) (bu_log s) (rows (bu_table s)) \<and>
    (\<forall>n. length (filter (\<lambda>k. k = n) (bu_log s)) \<le> Suc (length (bu_closed s))) \<and>
    (bu_closed s = [] \<longrightarrow> (\<forall>m\<in>set (bu_dlq s). fst m \<notin> set (bu_log s)))"
proof (intro conjI allI impI ballI)
  show "list_all2 (row_of s) (bu_log s) (rows (bu_table s))"
    using rows_are_logged [OF assms] by (simp add: rows_logged_def)
  have le: "attempts s n \<le> Suc (length (bu_closed s))" for n
    using attempts_are_bounded [OF assms] by (simp add: attempts_bounded_def)
  show "length (filter (\<lambda>k. k = n) (bu_log s)) \<le> Suc (length (bu_closed s))" for n
    using le [of n] unfolding attempts_def by linarith
  fix m assume "bu_closed s = []" "m \<in> set (bu_dlq s)"
  moreover have "0 < length (filter (\<lambda>m'. fst m' = fst m) (bu_dlq s))"
    using \<open>m \<in> set (bu_dlq s)\<close> by (auto simp: filter_empty_conv)
  moreover have "Suc (length (bu_closed s)) = 1" using \<open>bu_closed s = []\<close> by simp
  ultimately have "length (filter (\<lambda>k. k = fst m) (bu_log s)) = 0"
    using le [of "fst m"] unfolding attempts_def by linarith
  then show "fst m \<notin> set (bu_log s)" by (auto simp: filter_empty_conv)
qed

text \<open>
  Liveness: from any reachable state the system can get every message that is not doomed (parked,
  malformed, or already rejected) into the table, without a further lost connection, once the
  database answers.
\<close>

definition doomed :: "Bus \<Rightarrow> msg \<Rightarrow> bool" where
  "doomed s m \<longleftrightarrow> m \<in> set (bu_dlq s) \<or> Unmarshal_event (snd m) = None \<or> (\<exists>c. (c, m, False) \<in> set (bu_replies s))"

definition work :: "Bus \<Rightarrow> nat" where
  "work s = 3 * length (bu_queue s) + 2 * length (bu_held s) + length (bu_replies s)"

definition progress :: "Bus \<Rightarrow> Bus \<Rightarrow> bool" where
  "progress s s' \<longleftrightarrow> bu_history s' = bu_history s \<and> bu_closed s' = bu_closed s \<and> (\<forall>m. doomed s' m \<longrightarrow> doomed s m)"

lemma bus_progress:
  assumes "0 < work s"
  shows "\<exists>s'. bus_step s s' \<and> work s' < work s \<and> progress s s'"
proof -
  consider m q where "bu_queue s = m # q" | c m where "(c, m) \<in> set (bu_held s)" | c m ok where "(c, m, ok) \<in> set (bu_replies s)"
    using assms by (cases "bu_queue s"; cases "bu_held s"; cases "bu_replies s") (force simp: work_def)+
  then show ?thesis
  proof cases
    case (1 m q)
    obtain c where "c \<notin> set (bu_closed s)" using ex_new_if_finite [of "set (bu_closed s)"] by auto
    with 1 have "bus_step s (deliver_step c m q s)" by (rule deliver)
    then show ?thesis using 1 by (intro exI conjI) (auto simp: work_def progress_def deliver_step_def doomed_def)
  next
    case (2 c m)
    let ?s' = "process_step (\<lambda>_. False) False 0 c m s"
    have "bus_step s ?s'" using 2 by (rule handle)
    moreover have "length (bu_held s) = Suc (length (remove1 (c, m) (bu_held s)))"
      using filter_remove1 [OF 2, of "\<lambda>_. True"] by simp
    then have "work ?s' < work s" by (simp add: work_def process_replies)
    moreover have "progress s ?s'" by (auto simp: progress_def doomed_def process_replies persist_ok)
    ultimately show ?thesis by blast
  next
    case (3 c m ok)
    have "bus_step s (reply_step c m ok s)" using 3 by (rule answer)
    moreover have "length (bu_replies s) = Suc (length (remove1 (c, m, ok) (bu_replies s)))"
      using filter_remove1 [OF 3, of "\<lambda>_. True"] by simp
    then have "work (reply_step c m ok s) < work s" by (simp add: work_def)
    moreover have "progress s (reply_step c m ok s)"
      using 3 by (auto simp: progress_def doomed_def reply_step_def Let_def dest: set_mp [OF set_remove1_subset] split: if_splits)
    ultimately show ?thesis by blast
  qed
qed

lemma bus_drain: "\<exists>s'. bus_reaches s s' \<and> work s' = 0 \<and> progress s s'"
proof (induction "work s" arbitrary: s rule: less_induct)
  case less
  show ?case
  proof (cases "work s = 0")
    case True then show ?thesis using bus_refl by (auto simp: progress_def)
  next
    case False
    then obtain s1 where s1: "bus_step s s1" "work s1 < work s" "progress s s1" using bus_progress by blast
    from less [OF s1(2)] obtain s' where "bus_reaches s1 s'" "work s' = 0" "progress s1 s'" by blast
    moreover have "bus_reaches s s'"
      using \<open>bus_reaches s1 s'\<close> bus_more [OF bus_refl s1(1)] by (rule bus_trans)
    ultimately show ?thesis using s1(3) by (intro exI [of _ s']) (auto simp: progress_def)
  qed
qed

text \<open>
  C25. Every message can still arrive: from any state the system can reach, whatever went wrong
  before, there is a continuation without a further lost connection after which every published
  message is acknowledged, and stored if it is meant for a user, except those that were already
  doomed: malformed, parked in the dead-letter queue, or about to be.
\<close>
theorem bus_can_drain:
  assumes "bus_reachable s"
  shows "\<exists>s'. bus_reaches s s' \<and> bu_closed s' = bu_closed s \<and> bu_history s' = bu_history s \<and>
    (\<forall>m. known s m \<longrightarrow> doomed s m \<or> m \<in> set (bu_acked s') \<and> (stored_for (snd m) \<noteq> None \<longrightarrow> has_row s' m))"
proof -
  obtain s' where s': "bus_reaches s s'" "work s' = 0" "progress s s'" using bus_drain by blast
  have r: "bus_reachable s'" using bus_trans [OF s'(1) assms] .
  have "bu_unacked s' = []"
    using s'(2) deliveries_awaited [OF r] by (cases "bu_unacked s'") (auto simp: work_def awaited_def)
  then have "m \<in> set (bu_acked s') \<union> set (bu_dlq s')" if "known s m" for m
  proof -
    have "m \<in># places s'" using that s'(3) each_in_one_place [OF r] by (simp add: known_published progress_def known_def)
    then show ?thesis using s'(2) \<open>bu_unacked s' = []\<close> by (auto simp: places_def work_def)
  qed
  moreover have "doomed s m" if "m \<in> set (bu_dlq s')" for m
  proof -
    have "doomed s' m" using that by (simp add: doomed_def)
    then show ?thesis using s'(3) unfolding progress_def by blast
  qed
  moreover have "\<forall>m\<in>set (bu_acked s'). stored_for (snd m) \<noteq> None \<longrightarrow> has_row s' m"
    using acked_is_stored [OF r] logged_has_row [OF r] acked_known [OF r] by (auto simp: acked_stored_def)
  ultimately show ?thesis using s' unfolding progress_def by blast
qed

subsection \<open>A duplicate, and the demonstrations\<close>

lemma persist_stored:
  assumes "stored_for body = Some u"
  shows "persist_delivery (\<lambda>_. False) False now body t = (True, insert_row (new_row now u body) t)"
proof -
  obtain ok t' where d: "persist_delivery (\<lambda>_. False) False now body t = (ok, t')" by fastforce
  from assms obtain e where "Unmarshal_event body = Some e" "ev_TargetUserID e = Some u"
    by (auto simp: stored_for_def split: option.splits)
  then have "ok" using persist_ok [of now body t] d by auto
  from d show ?thesis by (cases rule: persist_delivery_cases) (use d assms \<open>ok\<close> in auto)
qed

text \<open>One message, handled, its connection lost before the answer, delivered and handled again.\<close>

definition redelivered_bus :: "string \<Rightarrow> Bus" where
  "redelivered_bus body =
     (let m = (0, body); handle = process_step (\<lambda>_. False) False 0
      in reply_step 1 m True (handle 1 m (deliver_step 1 m [] (drop_step 0 (disconnect_step 0
           (handle 0 m (deliver_step 0 m [] (publish_step body initial_bus))))))))"

lemma redelivered_reachable:
  assumes "stored_for body = Some u"
  shows "bus_reachable (redelivered_bus body)"
proof -
  let ?m = "(0, body)" and ?h = "process_step (\<lambda>_. False) False 0"
  define s1 where "s1 = publish_step body initial_bus"
  define s2 where "s2 = deliver_step 0 ?m [] s1"
  define s3 where "s3 = ?h 0 ?m s2"
  define s4 where "s4 = disconnect_step 0 s3"
  define s5 where "s5 = drop_step 0 s4"
  define s6 where "s6 = deliver_step 1 ?m [] s5"
  define s7 where "s7 = ?h 1 ?m s6"
  note d = s1_def s2_def s3_def s4_def s5_def s6_def s7_def
  note step = publish_step_def deliver_step_def disconnect_step_def drop_step_def initial_bus_def process_replies
  have "bus_reachable s1" unfolding s1_def by (rule bus_more [OF bus_refl publish])
  then have "bus_reachable s2" unfolding s2_def by (rule bus_more) (rule deliver, simp_all add: s1_def step)
  then have "bus_reachable s3" unfolding s3_def by (rule bus_more) (rule handle, simp add: s2_def step)
  then have "bus_reachable s4" unfolding s4_def by (rule bus_more) (rule disconnect, simp add: s1_def s2_def s3_def step)
  then have "bus_reachable s5" unfolding s5_def by (rule bus_more) (rule stop, simp add: s4_def step)
  then have "bus_reachable s6" unfolding s6_def by (rule bus_more) (rule deliver, simp_all add: s5_def s4_def s3_def s2_def s1_def step)
  then have "bus_reachable s7" unfolding s7_def by (rule bus_more) (rule handle, simp add: s6_def step)
  then have "bus_reachable (reply_step 1 ?m True s7)"
    by (rule bus_more) (rule answer, simp add: s7_def process_replies persist_stored [OF assms])
  then show ?thesis by (simp add: redelivered_bus_def d Let_def)
qed

lemma redelivered_result:
  assumes "stored_for body = Some u"
  shows "bu_history (redelivered_bus body) = [body]" "bu_acked (redelivered_bus body) = [(0, body)]"
    "bu_closed (redelivered_bus body) = [0]"
    "rows (bu_table (redelivered_bus body)) = [new_row 0 u body 1, new_row 0 u body 2]"
  by (simp_all add: redelivered_bus_def Let_def process_step_def persist_stored [OF assms] reply_step_def publish_step_def
      deliver_step_def disconnect_step_def drop_step_def initial_bus_def numeral_2_eq_2)

text \<open>
  Not exactly once: every message for one user can be stored twice although no insert fails
  and only one connection is lost, namely between the insert and the acknowledgement. Nothing in
  the table or the message tells the second row from a new event.
\<close>
theorem persist_duplicate:
  assumes "stored_for body = Some u"
  shows "\<exists>s. bus_reachable s \<and> bu_history s = [body] \<and> bu_acked s = [(0, body)] \<and> length (bu_closed s) = 1 \<and>
    length (filter (\<lambda>r. no_UserID r = u \<and> no_Payload r = Some body) (rows (bu_table s))) = 2"
  using redelivered_reachable [OF assms] redelivered_result [OF assms]
  by (intro exI [of _ "redelivered_bus body"]) (simp add: new_row_def)

definition demo_message :: string where
  "demo_message = Marshal_Event \<lparr>ev_Type = EventTicketAssigned, ev_TicketID = 3, ev_Title = [], ev_Status = [],
     ev_TargetUserID = Some 7, ev_TargetRoles = []\<rparr>"

lemma demo_message_target: "stored_for demo_message = Some 7"
  by (simp add: demo_message_def stored_for_def Unmarshal_Marshal event_ok_def clean_event_def)

theorem persist_duplicate_witness:
  "\<exists>s. bus_reachable s \<and> bu_history s = [demo_message] \<and>
    length (filter (\<lambda>r. no_UserID r = 7 \<and> no_Payload r = Some demo_message) (rows (bu_table s))) = 2"
  using persist_duplicate [OF demo_message_target] by blast

theorem persist_at_least_once_witness: "has_row (redelivered_bus demo_message) (0, demo_message)"
  using persist_at_least_once [OF redelivered_reachable [OF demo_message_target]]
  by (simp add: redelivered_result [OF demo_message_target] demo_message_target)

theorem persist_rows_bounded_witness:
  "length (filter (\<lambda>k. k = 0) (bu_log (redelivered_bus demo_message))) \<le> 2"
  using conjunct1 [OF conjunct2 [OF persist_rows_bounded [OF redelivered_reachable [OF demo_message_target]]]]
  by (simp add: redelivered_result [OF demo_message_target] numeral_2_eq_2)

text \<open>The state right after publishing: one message waits.\<close>

theorem bus_can_drain_witness:
  "\<exists>s'. bus_reaches (publish_step demo_message initial_bus) s' \<and> has_row s' (0, demo_message)"
proof -
  let ?s = "publish_step demo_message initial_bus"
  have "bus_reachable ?s" by (rule bus_more [OF bus_refl publish])
  moreover have "known ?s (0, demo_message)" by (simp add: known_def publish_step_def initial_bus_def)
  moreover have "\<not> doomed ?s (0, demo_message)"
    using demo_message_target
    by (auto simp: doomed_def publish_step_def initial_bus_def stored_for_def split: option.splits)
  ultimately show ?thesis using bus_can_drain [of ?s] demo_message_target by fastforce
qed

end
