(* ===== verification/ClientIP.thy ===== *)
theory ClientIP
  imports Http "HOL-Library.Word"
begin

section \<open>Whom a WebSocket request is rate-limited as (internal/delivery/ws/clientip.go)\<close>

text \<open>
  \<open>clientIP\<close> decides whether to believe \<open>X-Forwarded-For\<close>: only when the TCP peer is a
  configured proxy, and then it reads the header from the right. The parts of package \<open>net\<close> it
  rests on are modelled on bytes: \<open>ParseIP\<close>, \<open>ParseCIDR\<close>, \<open>IPNet.Contains\<close> with its treatment of
  IPv4 addresses inside IPv6, and \<open>SplitHostPort\<close>.
\<close>

unbundle bit_operations_syntax

type_synonym byte = "8 word"
type_synonym IP = "byte list"  \<comment> \<open>4 or 16 bytes\<close>

subsection \<open>Addresses as text: net/netip\<close>

text \<open>One octet: decimal digits, no leading zero, at most 255.\<close>

definition octet :: "string \<Rightarrow> byte option" where
  "octet f = (if f \<noteq> [] \<and> list_all is_digit f \<and> (length f = 1 \<or> hd f \<noteq> CHR ''0'') \<and> dec_val 0 f \<le> 255
     then Some (of_nat (dec_val 0 f)) else None)"

definition parse_IPv4 :: "string \<Rightarrow> IP option" where
  "parse_IPv4 s = (case map octet (Split (CHR ''.'') s) of
     [Some a, Some b, Some c, Some d] \<Rightarrow> Some [a, b, c, d] | _ \<Rightarrow> None)"

definition hex_val :: "char \<Rightarrow> nat option" where
  "hex_val c = (let n = of_char c in
     if 48 \<le> n \<and> n \<le> 57 then Some (n - 48) else if 97 \<le> n \<and> n \<le> 102 then Some (n - 87)
     else if 65 \<le> n \<and> n \<le> 70 then Some (n - 55) else None)"

fun hex_acc :: "32 word \<Rightarrow> string \<Rightarrow> 32 word" where
  "hex_acc acc [] = acc"
| "hex_acc acc (c # cs) = hex_acc (push_bit 4 acc + (case hex_val c of None \<Rightarrow> 0 | Some d \<Rightarrow> of_nat d)) cs"

text \<open>
  The loop over the groups of an IPv6 address. Each round adds two bytes (or four, at the end),
  so the first argument, the rounds left, stands for the loop condition \<open>i < 16\<close>; \<open>ell\<close> is
  where the \<open>::\<close> was.
\<close>

fun v6_loop :: "nat \<Rightarrow> string \<Rightarrow> IP \<Rightarrow> nat option \<Rightarrow> (IP \<times> nat option) option" where
  "v6_loop 0 s ip ell = (if s = [] then Some (ip, ell) else None)"
| "v6_loop (Suc n) s ip ell =
     (let digits = takeWhile (\<lambda>c. hex_val c \<noteq> None) s; rest = drop (length digits) s; acc = hex_acc 0 digits;
          ip' = ip @ [ucast (drop_bit 8 acc), ucast acc]
      in if length digits = 0 \<or> length digits > 4 then None
         else if rest \<noteq> [] \<and> hd rest = CHR ''.'' then
           (if ell = None \<and> length ip \<noteq> 12 then None
            else if length ip + 4 > 16 then None
            else case parse_IPv4 s of None \<Rightarrow> None | Some v4 \<Rightarrow> Some (ip @ v4, ell))
         else if rest = [] then Some (ip', ell)
         else if hd rest \<noteq> CHR '':'' then None
         else if length rest = 1 then None
         else if hd (tl rest) = CHR '':'' then
           (if ell \<noteq> None then None
            else if tl (tl rest) = [] then Some (ip', Some (length ip'))
            else v6_loop n (tl (tl rest)) ip' (Some (length ip')))
         else v6_loop n (tl rest) ip' ell)"

text \<open>The zeros a \<open>::\<close> stands for; it must stand for at least one group.\<close>

definition v6_expand :: "IP \<times> nat option \<Rightarrow> IP option" where
  "v6_expand r = (case r of (ip, ell) \<Rightarrow>
     if length ip < 16 then
       (case ell of None \<Rightarrow> None | Some e \<Rightarrow> Some (take e ip @ replicate (16 - length ip) 0 @ drop e ip))
     else if ell \<noteq> None then None else Some ip)"

definition parse_IPv6 :: "string \<Rightarrow> IP option" where
  "parse_IPv6 s =
     (let ell = (if is_prefix ''::'' s then Some 0 else None); s' = (if is_prefix ''::'' s then drop 2 s else s)
      in if ell \<noteq> None \<and> s' = [] then Some (replicate 16 0)
         else case v6_loop 8 s' [] ell of None \<Rightarrow> None | Some r \<Rightarrow> v6_expand r)"

text \<open>
  \<open>netip.ParseAddr\<close>: the first of the three characters decides. An address with a zone is
  refused by both callers, \<open>ParseIP\<close> and \<open>ParseCIDR\<close>, so it is no address here.
\<close>

definition ParseAddr :: "string \<Rightarrow> IP option" where
  "ParseAddr s =
     (if CHR ''%'' \<in> set s then None
      else case List.find (\<lambda>c. c = CHR ''.'' \<or> c = CHR '':'') s of
             None \<Rightarrow> None
           | Some c \<Rightarrow> if c = CHR ''.'' then parse_IPv4 s else parse_IPv6 s)"

subsection \<open>Package net\<close>

definition v4InV6Prefix :: "IP" where
  "v4InV6Prefix = replicate 10 0 @ [255, 255]"

definition As16 :: "IP \<Rightarrow> IP" where
  "As16 ip = (if length ip = 4 then v4InV6Prefix @ ip else ip)"

definition To4 :: "IP \<Rightarrow> IP option" where
  "To4 ip = (if length ip = 4 then Some ip
     else if length ip = 16 \<and> take 12 ip = v4InV6Prefix then Some (drop 12 ip) else None)"

definition ParseIP :: "string \<Rightarrow> IP option" where
  "ParseIP s = map_option As16 (ParseAddr s)"

record IPNet =
  net_IP :: IP
  net_Mask :: IP

definition CIDRMask :: "nat \<Rightarrow> nat \<Rightarrow> IP" where
  "CIDRMask ones bits = map (\<lambda>i. if 8 * Suc i \<le> ones then 255 else if ones \<le> 8 * i then 0 else NOT (drop_bit (ones - 8 * i) 255))
     [0..<bits div 8]"

definition and_bytes :: "IP \<Rightarrow> IP \<Rightarrow> IP" where
  "and_bytes a b = map2 (\<lambda>x y. x AND y) a b"

text \<open>The text before and after the first slash.\<close>

definition Cut :: "char \<Rightarrow> string \<Rightarrow> (string \<times> string) option" where
  "Cut sep s = (if sep \<in> set s then Some (takeWhile (\<lambda>c. c \<noteq> sep) s, tl (dropWhile (\<lambda>c. c \<noteq> sep) s)) else None)"

text \<open>
  \<open>ParseCIDR\<close>: a prefix length in decimal, at most the length of the address as written (32 or
  128); the network of an IPv4 address keeps its four bytes.
\<close>

definition ParseCIDR :: "string \<Rightarrow> IPNet option" where
  "ParseCIDR s =
     (case Cut (CHR ''/'') s of
        None \<Rightarrow> None
      | Some (addr, len) \<Rightarrow>
          (case ParseAddr addr of
             None \<Rightarrow> None
           | Some ip \<Rightarrow>
               if len = [] \<or> \<not> list_all is_digit len \<or> dec_val 0 len > 8 * length ip then None
               else (let m = CIDRMask (dec_val 0 len) (8 * length ip) in Some \<lparr>net_IP = and_bytes ip m, net_Mask = m\<rparr>)))"

definition networkNumberAndMask :: "IPNet \<Rightarrow> (IP \<times> IP) option" where
  "networkNumberAndMask n =
     (case (case To4 (net_IP n) of Some ip \<Rightarrow> Some ip | None \<Rightarrow> if length (net_IP n) \<noteq> 16 then None else Some (net_IP n)) of
        None \<Rightarrow> None
      | Some ip \<Rightarrow>
          if length (net_Mask n) = 4 then (if length ip \<noteq> 4 then None else Some (ip, net_Mask n))
          else if length (net_Mask n) = 16 then Some (ip, if length ip = 4 then drop 12 (net_Mask n) else net_Mask n)
          else None)"

definition Contains :: "IPNet \<Rightarrow> IP \<Rightarrow> bool" where
  "Contains n ip =
     (case networkNumberAndMask n of
        None \<Rightarrow> length ip = 0
      | Some (nn, m) \<Rightarrow>
          (let ip = (case To4 ip of Some x \<Rightarrow> x | None \<Rightarrow> ip)
           in length ip = length nn \<and> and_bytes nn m = and_bytes ip m))"

text \<open>\<open>SplitHostPort\<close>, as far as its host; \<open>None\<close> is an error.\<close>

definition SplitHost :: "string \<Rightarrow> string option" where
  "SplitHost hp =
     (if CHR '':'' \<notin> set hp then None
      else
        (let port = rev (takeWhile (\<lambda>c. c \<noteq> CHR '':'') (rev hp)); i = length hp - length port - 1 in
         if hd hp = CHR ''['' then
           (if CHR '']'' \<notin> set hp then None
            else
              (let close = length (takeWhile (\<lambda>c. c \<noteq> CHR '']'') hp) in
               if close + 1 \<noteq> i then None
               else if CHR ''['' \<in> set (drop 1 hp) \<or> CHR '']'' \<in> set (drop (close + 1) hp) then None
               else Some (drop 1 (take close hp))))
         else
           (let host = take i hp in
            if CHR '':'' \<in> set host then None
            else if CHR ''['' \<in> set hp \<or> CHR '']'' \<in> set hp then None
            else Some host)))"

subsection \<open>clientip.go\<close>

type_synonym proxies = "IPNet list"

text \<open>An entry of the configuration as a CIDR: a bare address gets the prefix of a single host.\<close>

definition proxy_cidr :: "string \<Rightarrow> string" where
  "proxy_cidr c =
     (if CHR ''/'' \<notin> set c then
        c @ (case ParseIP c of
               Some ip \<Rightarrow> if To4 ip \<noteq> None then ''/32'' else ''/128''
             | None \<Rightarrow> ''/128'')
      else c)"

text \<open>\<open>SetTrustedProxies\<close>: the networks it installs, or the entry that is invalid.\<close>

fun SetTrustedProxies :: "string list \<Rightarrow> string + proxies" where
  "SetTrustedProxies [] = Inr []"
| "SetTrustedProxies (c # cs) =
     (let c' = TrimSpace c in
      if c' = [] then SetTrustedProxies cs
      else case ParseCIDR (proxy_cidr c') of
             None \<Rightarrow> Inl (proxy_cidr c')
           | Some n \<Rightarrow> map_sum id ((#) n) (SetTrustedProxies cs))"

definition isTrusted :: "proxies \<Rightarrow> string \<Rightarrow> bool" where
  "isTrusted trustedProxies ip =
     (case ParseIP ip of None \<Rightarrow> False | Some parsed \<Rightarrow> \<exists>n\<in>set trustedProxies. Contains n parsed)"

text \<open>The loop over the entries from the right; \<open>outermost\<close> is the first entry of the header.\<close>

fun walk_hops :: "proxies \<Rightarrow> string \<Rightarrow> string \<Rightarrow> string list \<Rightarrow> string" where
  "walk_hops ps peer outermost [] = TrimSpace outermost"
| "walk_hops ps peer outermost (p # hops) =
     (let ip = TrimSpace p in
      if ParseIP ip = None then peer
      else if \<not> isTrusted ps ip then ip
      else walk_hops ps peer outermost hops)"

definition clientIP :: "proxies \<Rightarrow> request \<Rightarrow> string" where
  "clientIP ps r =
     (let peer = (case SplitHost (rq_ip r) of Some h \<Rightarrow> h | None \<Rightarrow> rq_ip r) in
      if \<not> isTrusted ps peer then peer
      else
        (let xff = GetHeader ''X-Forwarded-For'' r in
         if xff = [] then peer
         else (let parts = Split (CHR '','') xff in walk_hops ps peer (hd parts) (rev parts))))"


subsection \<open>Addresses have their length\<close>

lemma length_parse_IPv4: "parse_IPv4 s = Some ip \<Longrightarrow> length ip = 4"
  by (auto simp: parse_IPv4_def split: list.splits option.splits)

lemma v6_loop_Suc:
  assumes "v6_loop (Suc n) s ip ell = Some r"
  shows "(\<exists>v4. length v4 = 4 \<and> length ip + 4 \<le> 16 \<and> r = (ip @ v4, ell)) \<or>
    (\<exists>x y. r = (ip @ [x, y], ell) \<or> r = (ip @ [x, y], Some (length ip + 2)) \<or>
      (\<exists>s'. v6_loop n s' (ip @ [x, y]) ell = Some r \<or> v6_loop n s' (ip @ [x, y]) (Some (length ip + 2)) = Some r))"
  using assms by (auto simp: Let_def split: if_splits option.splits dest!: length_parse_IPv4)

definition inside :: "nat option \<Rightarrow> IP \<Rightarrow> bool" where
  "inside ell ip \<longleftrightarrow> (case ell of None \<Rightarrow> True | Some e \<Rightarrow> e \<le> length ip)"

lemma inside_longer: "inside ell ip \<Longrightarrow> inside ell (ip @ x)"
  by (simp add: inside_def split: option.splits)

lemma inside_here: "inside (Some (length ip + 2)) (ip @ [x, y])"
  by (simp add: inside_def)

lemma v6_loop_length:
  "v6_loop n s ip ell = Some r \<Longrightarrow> length ip + 2 * n = 16 \<Longrightarrow> inside ell ip \<Longrightarrow> length (fst r) \<le> 16 \<and> inside (snd r) (fst r)"
proof (induction n arbitrary: s ip ell)
  case (Suc n)
  have step: "length (fst r) \<le> 16 \<and> inside (snd r) (fst r)"
    if "v6_loop n s' (ip @ [x, y]) ell' = Some r" "inside ell' (ip @ [x, y])" for x y s' ell'
    using Suc.IH [OF that(1) _ that(2)] Suc.prems(2) by simp
  have here: "inside ell (ip @ [x, y])" "inside (Some (length ip + 2)) (ip @ [x, y])" for x y
    using inside_longer [OF Suc.prems(3)] inside_here by blast+
  from v6_loop_Suc [OF Suc.prems(1)] consider
      v4 where "length v4 = 4" "length ip + 4 \<le> 16" "r = (ip @ v4, ell)"
    | x y where "r = (ip @ [x, y], ell)" | x y where "r = (ip @ [x, y], Some (length ip + 2))"
    | x y s' where "v6_loop n s' (ip @ [x, y]) ell = Some r" | x y s' where "v6_loop n s' (ip @ [x, y]) (Some (length ip + 2)) = Some r"
    by blast
  then show ?case
  proof cases
    case 1 then show ?thesis using inside_longer [OF Suc.prems(3)] by simp
  next
    case 2 then show ?thesis using here Suc.prems(2) by simp
  next
    case 3 then show ?thesis using here Suc.prems(2) by simp
  next
    case 4 then show ?thesis using step here by blast
  next
    case 5 then show ?thesis using step here by blast
  qed
qed (auto simp: inside_def split: if_splits option.splits)

lemma length_parse_IPv6: "parse_IPv6 s = Some ip \<Longrightarrow> length ip = 16"
proof -
  have "length ip = 16" if "v6_loop 8 s' [] ell = Some r" "v6_expand r = Some ip" "ell \<in> {None, Some 0}" for s' ell r
    using v6_loop_length [OF that(1)] that(2,3)
    by (cases r) (auto simp: v6_expand_def inside_def split: if_splits option.splits)
  then show "parse_IPv6 s = Some ip \<Longrightarrow> length ip = 16"
    by (auto simp: parse_IPv6_def Let_def split: if_splits option.splits)
qed

lemma length_ParseAddr: "ParseAddr s = Some ip \<Longrightarrow> length ip = 4 \<or> length ip = 16"
  by (auto simp: ParseAddr_def split: if_splits option.splits dest: length_parse_IPv4 length_parse_IPv6)

lemma length_ParseIP: "ParseIP s = Some ip \<Longrightarrow> length ip = 16"
  using length_ParseAddr [of s] by (auto simp: ParseIP_def As16_def v4InV6Prefix_def)

lemma To4_16: "length ip = 16 \<Longrightarrow> To4 ip = Some x \<longleftrightarrow> ip = v4InV6Prefix @ x \<and> length x = 4"
proof -
  assume "length ip = 16"
  moreover have "ip = v4InV6Prefix @ drop 12 ip" if "take 12 ip = v4InV6Prefix" using that append_take_drop_id [of 12 ip] by simp
  moreover have "length v4InV6Prefix = 12" by (simp add: v4InV6Prefix_def)
  ultimately show ?thesis by (auto simp: To4_def)
qed

subsection \<open>Which hosts an entry of the configuration trusts\<close>

lemma and_bytes_ones: "length a = n \<Longrightarrow> and_bytes a (replicate n 255) = a"
proof (induction a arbitrary: n)
  case (Cons x xs)
  have "(255 :: byte) = - 1" by simp
  then have "x AND 255 = x" by (simp only: and.right_neutral)
  with Cons show ?case by (cases n) (auto simp: and_bytes_def)
qed (simp add: and_bytes_def)

lemma and_bytes_zeros: "length a = n \<Longrightarrow> and_bytes a (replicate n 0) = replicate n 0"
  by (induction a arbitrary: n) (auto simp: and_bytes_def)

lemma and_bytes_append: "length a = length m \<Longrightarrow> and_bytes (a @ b) (m @ k) = and_bytes a m @ and_bytes b k"
  by (simp add: and_bytes_def)

lemma host_masks:
  "CIDRMask 32 32 = replicate 4 255" "CIDRMask 128 128 = replicate 16 255" "CIDRMask 32 128 = replicate 4 255 @ replicate 12 0"
  by code_simp+

lemma ParseCIDR_host:
  assumes "ParseAddr c = Some a" "CHR ''/'' \<notin> set c" "len \<in> {''32'', ''128''}" "dec_val 0 len \<le> 8 * length a"
  shows "ParseCIDR (c @ ''/'' @ len) =
    Some \<lparr>net_IP = and_bytes a (CIDRMask (dec_val 0 len) (8 * length a)), net_Mask = CIDRMask (dec_val 0 len) (8 * length a)\<rparr>"
proof -
  have "Cut (CHR ''/'') (c @ ''/'' @ len) = Some (c, len)"
    using assms(2) by (auto simp: Cut_def takeWhile_append dropWhile_append)
  moreover have "len \<noteq> []" "list_all is_digit len" using assms(3) by (auto simp: is_digit_def)
  ultimately show ?thesis using assms(1,4) by (simp add: ParseCIDR_def Let_def)
qed

lemma Contains_16:
  assumes "length ip = 16" "networkNumberAndMask n = Some (nn, m)"
  shows "Contains n ip \<longleftrightarrow>
    (case To4 ip of Some x \<Rightarrow> length nn = 4 \<and> and_bytes nn m = and_bytes x m | None \<Rightarrow> length nn = 16 \<and> and_bytes nn m = and_bytes ip m)"
proof (cases "To4 ip")
  case None
  with assms show ?thesis by (auto simp: Contains_def)
next
  case (Some x)
  then have "length x = 4" using To4_16 [OF assms(1)] by simp
  with Some assms show ?thesis by (auto simp: Contains_def)
qed

lemma To4_mapped [simp]: "length a = 4 \<Longrightarrow> To4 (v4InV6Prefix @ a) = Some a"
  by (subst To4_16) (simp_all add: v4InV6Prefix_def)

text \<open>A network of one host, and the network a mapped address is turned into.\<close>

lemma Contains_host:
  assumes "length a = 4 \<or> length a = 16 \<and> To4 a = None" "length ip = 16"
  shows "Contains \<lparr>net_IP = a, net_Mask = replicate (length a) 255\<rparr> ip \<longleftrightarrow> ip = As16 a"
proof -
  let ?n = "\<lparr>net_IP = a, net_Mask = replicate (length a) 255\<rparr>"
  have n: "networkNumberAndMask ?n = Some (a, replicate (length a) 255)"
    using assms(1) by (auto simp: networkNumberAndMask_def To4_def)
  show ?thesis
  proof (cases "length a = 4")
    case True
    have "and_bytes x (replicate 4 255) = x" if "length x = 4" for x :: IP using and_bytes_ones [OF that] .
    with True show ?thesis
      unfolding Contains_16 [OF assms(2) n]
      by (cases "To4 ip") (auto simp: As16_def To4_16 [OF assms(2)])
  next
    case False
    with assms(1) have "length a = 16" "To4 a = None" by auto
    then show ?thesis
      unfolding Contains_16 [OF assms(2) n] using and_bytes_ones [of a 16] and_bytes_ones [of ip 16] assms(2)
      by (cases "To4 ip") (auto simp: As16_def)
  qed
qed

lemma Contains_mapped:
  assumes "length ip = 16"
  shows "Contains \<lparr>net_IP = replicate 16 0, net_Mask = replicate 4 255 @ replicate 12 0\<rparr> ip \<longleftrightarrow> To4 ip = None \<and> take 4 ip = replicate 4 0"
proof -
  let ?m = "replicate 4 255 @ replicate 12 0 :: IP"
  have t: "To4 (replicate 16 0) = None" by code_simp
  have n: "networkNumberAndMask \<lparr>net_IP = replicate 16 0, net_Mask = ?m\<rparr> = Some (replicate 16 0, ?m)"
    by (simp only: networkNumberAndMask_def IPNet.simps t) simp
  have m: "and_bytes x ?m = take 4 x @ replicate 12 0" if "length x = 16" for x
  proof -
    have "and_bytes (take 4 x @ drop 4 x) ?m = and_bytes (take 4 x) (replicate 4 255) @ and_bytes (drop 4 x) (replicate 12 0)"
      using that by (intro and_bytes_append) simp
    then show ?thesis using that and_bytes_ones [of "take 4 x" 4] and_bytes_zeros [of "drop 4 x" 12] by simp
  qed
  have "and_bytes (replicate 16 0) ?m = replicate 4 0 @ replicate 12 0" by (subst m) simp_all
  then show ?thesis
    unfolding Contains_16 [OF assms n] using m [OF assms] by (auto split: option.splits)
qed

lemma single_proxy:
  assumes "TrimSpace c = c" "c \<noteq> []" "ParseCIDR (proxy_cidr c) = Some n"
  shows "SetTrustedProxies [c] = Inr [n]"
  using assms by (simp add: Let_def)

lemma isTrusted_single: "isTrusted [n] s \<longleftrightarrow> (\<exists>ip. ParseIP s = Some ip \<and> Contains n ip)"
  by (simp add: isTrusted_def split: option.splits)

text \<open>
  A bare address in TRUSTED_PROXIES trusts that host and no other, as the configuration
  promises, for IPv4 and IPv6 alike. The exception is an IPv4 address written as a mapped IPv6
  one (::ffff:10.0.0.1): the prefix /32 it gets is read against 128 bits, so it does not trust
  that host but all IPv6 addresses that begin with 32 zero bits, ::1 among them.
\<close>
theorem bare_proxy_hosts:
  assumes "TrimSpace c = c" and "c \<noteq> []" and "CHR ''/'' \<notin> set c" and "ParseAddr c = Some a"
  shows "\<exists>n. SetTrustedProxies [c] = Inr [n] \<and>
    (\<forall>s. isTrusted [n] s \<longleftrightarrow>
      (if length a = 16 \<and> To4 a \<noteq> None then \<exists>ip. ParseIP s = Some ip \<and> To4 ip = None \<and> take 4 ip = replicate 4 0
       else ParseIP s = Some (As16 a)))"
proof -
  have pa: "ParseIP c = Some (As16 a)" using assms(4) by (simp add: ParseIP_def)
  have len: "length a = 4 \<or> length a = 16" by (rule length_ParseAddr [OF assms(4)])
  consider (v4) "length a = 4" | (mapped) x where "length a = 16" "To4 a = Some x" | (v6) "length a = 16" "To4 a = None"
    using len by fastforce
  then show ?thesis
  proof cases
    case v4
    let ?n = "\<lparr>net_IP = a, net_Mask = replicate (length a) 255\<rparr>"
    have "proxy_cidr c = c @ ''/'' @ ''32''"
      using assms(3) v4 by (simp add: proxy_cidr_def pa As16_def To4_def v4InV6Prefix_def)
    moreover have "ParseCIDR (c @ ''/'' @ ''32'') = Some ?n"
      using ParseCIDR_host [OF assms(4,3), of "''32''"] v4 by (simp add: digit_val_def host_masks and_bytes_ones)
    ultimately have "SetTrustedProxies [c] = Inr [?n]" using single_proxy [OF assms(1,2)] by simp
    moreover have "isTrusted [?n] s \<longleftrightarrow> ParseIP s = Some (As16 a)" for s
      using Contains_host [of a] v4 length_ParseIP by (auto simp: isTrusted_single)
    ultimately show ?thesis using v4 by (intro exI [of _ ?n]) simp
  next
    case (mapped x)
    let ?n = "\<lparr>net_IP = replicate 16 0, net_Mask = replicate 4 255 @ replicate 12 0\<rparr>"
    have a: "a = v4InV6Prefix @ x" "length x = 4" using mapped To4_16 by auto
    have "proxy_cidr c = c @ ''/'' @ ''32''"
      using assms(3) mapped by (simp add: proxy_cidr_def pa As16_def)
    moreover have "and_bytes a (replicate 4 255 @ replicate 12 0) = replicate 16 0"
    proof -
      have "a = replicate 4 0 @ drop 4 a" by (simp add: a v4InV6Prefix_def numeral_eq_Suc)
      then have "and_bytes a (replicate 4 255 @ replicate 12 0) =
          and_bytes (replicate 4 0) (replicate 4 255) @ and_bytes (drop 4 a) (replicate 12 0)"
        using and_bytes_append [of "replicate 4 0" "replicate 4 255" "drop 4 a" "replicate 12 0"] by simp
      also have "\<dots> = replicate 4 0 @ replicate 12 0"
        using mapped(1) by (simp add: and_bytes_ones and_bytes_zeros)
      finally show ?thesis by (simp flip: replicate_add)
    qed
    then have "ParseCIDR (c @ ''/'' @ ''32'') = Some ?n"
      using ParseCIDR_host [OF assms(4,3), of "''32''"] mapped(1) by (simp add: digit_val_def host_masks)
    ultimately have "SetTrustedProxies [c] = Inr [?n]" using single_proxy [OF assms(1,2)] by simp
    moreover have "isTrusted [?n] s \<longleftrightarrow> (\<exists>ip. ParseIP s = Some ip \<and> To4 ip = None \<and> take 4 ip = replicate 4 0)" for s
      using Contains_mapped length_ParseIP by (auto simp: isTrusted_single)
    ultimately show ?thesis using mapped by (intro exI [of _ ?n]) simp
  next
    case v6
    let ?n = "\<lparr>net_IP = a, net_Mask = replicate (length a) 255\<rparr>"
    have "proxy_cidr c = c @ ''/'' @ ''128''"
      using assms(3) v6 by (simp add: proxy_cidr_def pa As16_def)
    moreover have "ParseCIDR (c @ ''/'' @ ''128'') = Some ?n"
      using ParseCIDR_host [OF assms(4,3), of "''128''"] v6 by (simp add: digit_val_def host_masks and_bytes_ones)
    ultimately have "SetTrustedProxies [c] = Inr [?n]" using single_proxy [OF assms(1,2)] by simp
    moreover have "isTrusted [?n] s \<longleftrightarrow> ParseIP s = Some (As16 a)" for s
      using Contains_host [of a] v6 length_ParseIP by (auto simp: isTrusted_single)
    ultimately show ?thesis using v6 by (intro exI [of _ ?n]) simp
  qed
qed

subsection \<open>What a client can do with the header\<close>

definition peer_host :: "request \<Rightarrow> string" where
  "peer_host r = (case SplitHost (rq_ip r) of Some h \<Rightarrow> h | None \<Rightarrow> rq_ip r)"

text \<open>What proxies append to the header: a comma and the address each of them saw.\<close>

definition appended :: "string list \<Rightarrow> string" where
  "appended hops = concat (map (\<lambda>h. CHR '','' # h) hops)"

lemma Split_append: "Split sep (a @ sep # b) = Split sep a @ Split sep b"
  by (induction a) (auto split: list.splits)

lemma Split_one: "sep \<notin> set a \<Longrightarrow> Split sep a = [a]"
  by (induction a) auto

lemma Split_appended:
  "CHR '','' \<notin> set a \<Longrightarrow> \<forall>h\<in>set hops. CHR '','' \<notin> set h \<Longrightarrow> Split (CHR '','') (a @ appended hops) = a # hops"
proof (induction hops arbitrary: a)
  case (Cons h hops)
  then show ?case by (simp add: appended_def Split_append Split_one)
qed (simp add: appended_def Split_one)

lemma walk_trusted:
  "\<forall>h\<in>set hops. isTrusted ps (TrimSpace h) \<Longrightarrow> walk_hops ps peer outermost (hops @ rest) = walk_hops ps peer outermost rest"
  by (induction hops) (auto simp: Let_def isTrusted_def split: option.splits)

lemma TrimSpace_Nil: "TrimSpace [] = []"
  by code_simp

lemma ParseIP_Nil: "ParseIP [] = None"
  by (simp add: ParseIP_def ParseAddr_def)

text \<open>
  C28. A client cannot choose the address it is rate-limited as. A request that does not come from a
  trusted proxy counts as its TCP peer, whatever it puts into any header. Behind trusted proxies,
  each of which appended the address it saw, it counts as the first of those addresses that is no
  proxy, the client as the outermost proxy saw it, whatever the client itself put in front; and when
  that entry is no address, as the proxy that sent it.
\<close>
theorem client_ip_unspoofable:
  "(\<not> isTrusted ps (peer_host r) \<longrightarrow> clientIP ps r = peer_host r) \<and>
   (isTrusted ps (peer_host r) \<and> CHR '','' \<notin> set client \<and> \<not> isTrusted ps (TrimSpace client) \<and>
    (\<forall>h\<in>set hops. CHR '','' \<notin> set h \<and> isTrusted ps (TrimSpace h)) \<and>
    GetHeader ''X-Forwarded-For'' r \<in> {client @ appended hops, claimed @ CHR '','' # client @ appended hops} \<longrightarrow>
    clientIP ps r = (if ParseIP (TrimSpace client) = None then peer_host r else TrimSpace client))"
proof (intro conjI impI)
  show "clientIP ps r = peer_host r" if "\<not> isTrusted ps (peer_host r)"
    using that by (simp add: clientIP_def Let_def peer_host_def)
next
  let ?h = "GetHeader ''X-Forwarded-For'' r"
  assume a: "isTrusted ps (peer_host r) \<and> CHR '','' \<notin> set client \<and> \<not> isTrusted ps (TrimSpace client) \<and>
    (\<forall>h\<in>set hops. CHR '','' \<notin> set h \<and> isTrusted ps (TrimSpace h)) \<and>
    ?h \<in> {client @ appended hops, claimed @ CHR '','' # client @ appended hops}"
  then have seen: "Split (CHR '','') (client @ appended hops) = client # hops"
    using Split_appended by blast
  have stop: "walk_hops ps peer outer (rev hops @ client # later) = (if ParseIP (TrimSpace client) = None then peer else TrimSpace client)"
    for peer outer later
    using walk_trusted [of "rev hops" ps peer outer "client # later"] a by (simp add: Let_def)
  show "clientIP ps r = (if ParseIP (TrimSpace client) = None then peer_host r else TrimSpace client)"
  proof (cases "?h = []")
    case True
    then have "client = []" using a by auto
    with True a show ?thesis by (simp add: clientIP_def Let_def peer_host_def TrimSpace_Nil ParseIP_Nil)
  next
    case False
    obtain later where "rev (Split (CHR '','') ?h) = rev hops @ client # later"
      using a seen by (auto simp: Split_append)
    with False a stop show ?thesis by (simp add: clientIP_def Let_def peer_host_def)
  qed
qed

text \<open>The example of the tests: a proxy in 10.244.0.0/16, a client that sent 1.1.1.1.\<close>

definition demo_proxies :: proxies where
  "demo_proxies = [\<lparr>net_IP = [10, 244, 0, 0], net_Mask = [255, 255, 0, 0]\<rparr>]"

definition demo_wsreq :: request where
  "demo_wsreq = \<lparr>rq_method = ''GET'', rq_path = ''/ws'',
     rq_headers = (\<lambda>h. if h = ''X-Forwarded-For'' then ''1.1.1.1, 203.0.113.7'' else []),
     rq_query = (\<lambda>_. []), rq_ip = ''10.244.0.7:4000'', rq_body = None\<rparr>"

lemma demo_proxies_configured: "SetTrustedProxies [''10.244.0.0/16''] = Inr demo_proxies"
  by code_simp

text \<open>The same request, sent directly with a header of the client's choice.\<close>

definition demo_direct :: request where
  "demo_direct = demo_wsreq\<lparr>rq_headers := (\<lambda>h. if h = ''X-Forwarded-For'' then ''garbage'' else []), rq_ip := ''203.0.113.7:4000''\<rparr>"

theorem client_ip_unspoofable_witness:
  "clientIP demo_proxies demo_wsreq = ''203.0.113.7'' \<and> clientIP demo_proxies demo_direct = ''203.0.113.7''"
proof -
  have t: "TrimSpace '' 203.0.113.7'' = ''203.0.113.7''" by code_simp
  have "isTrusted demo_proxies (peer_host demo_wsreq)" by code_simp
  moreover have "ParseIP (TrimSpace '' 203.0.113.7'') \<noteq> None" "\<not> isTrusted demo_proxies (TrimSpace '' 203.0.113.7'')"
    unfolding t by code_simp+
  moreover have "GetHeader ''X-Forwarded-For'' demo_wsreq = ''1.1.1.1'' @ CHR '','' # '' 203.0.113.7'' @ appended []"
    by (simp add: demo_wsreq_def GetHeader_def appended_def)
  ultimately have "clientIP demo_proxies demo_wsreq = ''203.0.113.7''"
    using client_ip_unspoofable [of demo_proxies demo_wsreq "'' 203.0.113.7''" "[]" "''1.1.1.1''"] by (auto simp: t)
  moreover have "\<not> isTrusted demo_proxies (peer_host demo_direct)" "peer_host demo_direct = ''203.0.113.7''" by code_simp+
  then have "clientIP demo_proxies demo_direct = ''203.0.113.7''"
    using client_ip_unspoofable [of demo_proxies demo_direct] by simp
  ultimately show ?thesis ..
qed

theorem bare_proxy_hosts_witness:
  "\<exists>n. SetTrustedProxies [''::ffff:10.0.0.1''] = Inr [n] \<and> isTrusted [n] ''::1'' \<and> \<not> isTrusted [n] ''10.0.0.1''"
proof -
  have a: "ParseAddr ''::ffff:10.0.0.1'' = Some (v4InV6Prefix @ [10, 0, 0, 1])" by code_simp
  have t: "TrimSpace ''::ffff:10.0.0.1'' = ''::ffff:10.0.0.1''" by code_simp
  have m: "length (v4InV6Prefix @ [10, 0, 0, 1]) = 16 \<and> To4 (v4InV6Prefix @ [10, 0, 0, 1]) \<noteq> None"
    by (simp add: v4InV6Prefix_def To4_def)
  have "''::ffff:10.0.0.1'' \<noteq> []" "CHR ''/'' \<notin> set ''::ffff:10.0.0.1''" by simp_all
  from bare_proxy_hosts [OF t this a] obtain n where n: "SetTrustedProxies [''::ffff:10.0.0.1''] = Inr [n]"
    "\<forall>s. isTrusted [n] s \<longleftrightarrow> (\<exists>ip. ParseIP s = Some ip \<and> To4 ip = None \<and> take 4 ip = replicate 4 0)"
    unfolding if_P [OF m] by blast
  moreover have "ParseIP ''::1'' = Some (replicate 15 0 @ [1])" "To4 (replicate 15 0 @ [1]) = None" by code_simp+
  moreover have "ParseIP ''10.0.0.1'' = Some (v4InV6Prefix @ [10, 0, 0, 1])" by code_simp
  ultimately have "isTrusted [n] ''::1''" "\<not> isTrusted [n] ''10.0.0.1''" by (simp_all add: numeral_eq_Suc)
  with n(1) show ?thesis by blast
qed

end
