(* ===== verification/WsHub.thy ===== *)
theory WsHub
  imports ClientIP Events Jwt RateLimit "HOL-Library.Multiset"
begin

section \<open>Live notifications over WebSocket (internal/delivery/ws)\<close>

text \<open>
  The hub of \<open>ws.go\<close>: the table of connected clients, the queue of outgoing messages, admission
  of new connections, delivery; and the consumer that feeds it (\<open>consumeBroadcast\<close>). The functions
  follow the code; the goroutines of handlers, readers and the dispatcher interleave in a step
  relation. The connection itself (upgrade, reading, writing) is an outcome of the environment.
\<close>

subsection \<open>Admission\<close>

record ws_config =
  wc_jwt :: Jwt
  wc_jwtSecret :: string
  wc_oob :: "float64 \<Rightarrow> uint"
  wc_allowedOrigins :: "string list"
  wc_maxConnections :: int
  wc_proxies :: proxies

definition checkOrigin :: "string list \<Rightarrow> request \<Rightarrow> bool" where
  "checkOrigin allowedOrigins r =
     (let origin = GetHeader ''Origin'' r in
      if origin = [] then True else \<exists>o'\<in>set allowedOrigins. o' = ''*'' \<or> o' = origin)"

text \<open>An \<open>http.Error\<close>: its status and text.\<close>

type_synonym http_error = "nat \<times> string"

text \<open>
  The first half of \<open>HandleConnections\<close>: the identity in the token. A missing or mistyped claim
  is the zero value.
\<close>

definition ws_identity :: "ws_config \<Rightarrow> time \<Rightarrow> request \<Rightarrow> http_error + string \<times> uint" where
  "ws_identity cfg now r =
     (let tokenString = rq_query r ''token'' in
      if tokenString = [] then Inl (401, ''missing token'')
      else case jwt_Parse (wc_jwt cfg) now (keyfunc (wc_jwtSecret cfg)) tokenString of
             None \<Rightarrow> Inl (401, ''unauthorized'')
           | Some tok \<Rightarrow>
               if \<not> tk_Valid tok then Inl (401, ''unauthorized'')
               else case tk_Claims tok of
                      None \<Rightarrow> Inl (401, ''unauthorized'')
                    | Some claims \<Rightarrow>
                        Inr ((case claim ''role'' claims of JStr s \<Rightarrow> s | _ \<Rightarrow> []),
                             (case claim ''user_id'' claims of JNum f \<Rightarrow> uint_of_f64 (wc_oob cfg) f | _ \<Rightarrow> 0)))"

text \<open>The check under the read lock.\<close>

definition ws_full :: "ws_config \<Rightarrow> nat \<Rightarrow> bool" where
  "ws_full cfg n \<longleftrightarrow> int n \<ge> wc_maxConnections cfg"

text \<open>\<open>HandleConnections\<close> up to the upgrade, which refuses an origin that is not allowed.\<close>

definition ws_upgrade :: "ws_config \<Rightarrow> time \<Rightarrow> nat \<Rightarrow> request \<Rightarrow> http_error + string \<times> uint" where
  "ws_upgrade cfg now n r =
     (case ws_identity cfg now r of
        Inl e \<Rightarrow> Inl e
      | Inr i \<Rightarrow>
          if ws_full cfg n then Inl (503, ''too many connections'')
          else if \<not> checkOrigin (wc_allowedOrigins cfg) r then Inl (403, ''Forbidden'')
          else Inr i)"

text \<open>\<open>RateLimit\<close>: the wrapper around a handler \<open>nxt\<close>, by the address of the client.\<close>

definition ws_RateLimit ::
  "bool \<Rightarrow> time \<Rightarrow> proxies \<Rightarrow> (request \<Rightarrow> http_error + 'a) \<Rightarrow> request \<Rightarrow> Limiter \<Rightarrow> (http_error + 'a) \<times> Limiter" where
  "ws_RateLimit redis_down now ps nxt r rl =
     (case Limiter_allow redis_down now (clientIP ps r) rl of
        (ok, rl') \<Rightarrow> (if \<not> ok then Inl (429, ''too many requests'') else nxt r, rl'))"

definition ws_admit ::
  "ws_config \<Rightarrow> bool \<Rightarrow> time \<Rightarrow> request \<Rightarrow> nat \<Rightarrow> Limiter \<Rightarrow> (http_error + string \<times> uint) \<times> Limiter" where
  "ws_admit cfg redis_down now r n rl = ws_RateLimit redis_down now (wc_proxies cfg) (ws_upgrade cfg now n) r rl"

lemmas ws_admission = ws_admit_def ws_RateLimit_def ws_upgrade_def

subsection \<open>Clients and messages\<close>

record client =
  cl_conn :: nat
  cl_role :: string
  cl_userID :: uint

record outbound =
  ob_payload :: string
  ob_targetUserID :: "uint option"
  ob_targetRoles :: "string list"

definition matches :: "client \<Rightarrow> outbound \<Rightarrow> bool" where
  "matches c out =
     (case ob_targetUserID out of
        Some u \<Rightarrow> cl_userID c = u
      | None \<Rightarrow> \<exists>r\<in>set (ob_targetRoles out). cl_role c = r)"

text \<open>The channel holds 256 messages; what does not fit is dropped.\<close>

definition broadcast_cap :: nat where "broadcast_cap = 256"

definition enqueue :: "outbound \<Rightarrow> outbound list \<Rightarrow> outbound list" where
  "enqueue out q = (if length q < broadcast_cap then q @ [out] else q)"

definition SendToUser :: "uint \<Rightarrow> string \<Rightarrow> outbound list \<Rightarrow> outbound list" where
  "SendToUser userID payload = enqueue \<lparr>ob_payload = payload, ob_targetUserID = Some userID, ob_targetRoles = []\<rparr>"

definition SendToRoles :: "string list \<Rightarrow> string \<Rightarrow> outbound list \<Rightarrow> outbound list" where
  "SendToRoles roles payload = enqueue \<lparr>ob_payload = payload, ob_targetUserID = None, ob_targetRoles = roles\<rparr>"

text \<open>One delivery of \<open>consumeBroadcast\<close>: whether it is acknowledged, and the queue.\<close>

definition broadcast_delivery :: "string \<Rightarrow> outbound list \<Rightarrow> bool \<times> outbound list" where
  "broadcast_delivery raw q =
     (case Unmarshal_event raw of
        None \<Rightarrow> (False, q)
      | Some evt \<Rightarrow>
          (True,
           case ev_TargetUserID evt of
             Some u \<Rightarrow> SendToUser u raw q
           | None \<Rightarrow> if length (ev_TargetRoles evt) > 0 then SendToRoles (ev_TargetRoles evt) raw q else q))"

text \<open>
  One message in \<open>HandleMessages\<close>: the clients in the order in which the map is iterated, what
  each write does, the clients that stay and those that got the message. A write that panics ends
  the loop; the deferred \<open>recover\<close> keeps the dispatcher alive.
\<close>

datatype write_result = W_ok | W_error | W_panic

fun HandleMessage :: "(nat \<Rightarrow> write_result) \<Rightarrow> outbound \<Rightarrow> client list \<Rightarrow> client list \<times> client list" where
  "HandleMessage w out [] = ([], [])"
| "HandleMessage w out (c # cs) =
     (if \<not> matches c out then (case HandleMessage w out cs of (stay, got) \<Rightarrow> (c # stay, got))
      else case w (cl_conn c) of
             W_ok \<Rightarrow> (case HandleMessage w out cs of (stay, got) \<Rightarrow> (c # stay, c # got))
           | W_error \<Rightarrow> HandleMessage w out cs
           | W_panic \<Rightarrow> (c # cs, []))"

subsection \<open>The hub\<close>

text \<open>
  \<open>hu_handshakes\<close> are the handlers between the check and the registration: each has its
  connection (numbered as they are admitted) and the role and user id its own request gave it, the
  local variables of \<open>HandleConnections\<close>. Three fields record history: \<open>hu_opened\<close> the request
  behind every connection, \<open>hu_received\<close> what came from the bus, \<open>hu_delivered\<close> what each client got.
\<close>

type_synonym handshake = "nat \<times> string \<times> uint"

record Hub =
  hu_clients :: "client list"
  hu_queue :: "outbound list"
  hu_handshakes :: "handshake list"
  hu_next :: nat
  hu_limiter :: Limiter
  hu_opened :: "(nat \<times> time \<times> request) list"
  hu_received :: "string list"
  hu_delivered :: "(client \<times> string) list"

definition initial_hub :: "Limiter \<Rightarrow> Hub" where
  "initial_hub rl = \<lparr>hu_clients = [], hu_queue = [], hu_handshakes = [], hu_next = 0, hu_limiter = rl, hu_opened = [], hu_received = [], hu_delivered = []\<rparr>"

definition request_step :: "ws_config \<Rightarrow> bool \<Rightarrow> time \<Rightarrow> request \<Rightarrow> Hub \<Rightarrow> Hub" where
  "request_step cfg redis_down now r s =
     (case ws_admit cfg redis_down now r (length (hu_clients s)) (hu_limiter s) of
        (Inl e, rl') \<Rightarrow> s\<lparr>hu_limiter := rl'\<rparr>
      | (Inr i, rl') \<Rightarrow> s\<lparr>hu_limiter := rl', hu_handshakes := hu_handshakes s @ [(hu_next s, i)],
          hu_next := Suc (hu_next s), hu_opened := hu_opened s @ [(hu_next s, now, r)]\<rparr>)"

text \<open>The registration of the handler's own connection, with the role and user id it holds.\<close>

definition client_of :: "handshake \<Rightarrow> client" where
  "client_of h = (case h of (conn, role, userID) \<Rightarrow> \<lparr>cl_conn = conn, cl_role = role, cl_userID = userID\<rparr>)"

definition register_step :: "handshake \<Rightarrow> Hub \<Rightarrow> Hub" where
  "register_step h s = s\<lparr>hu_clients := hu_clients s @ [client_of h], hu_handshakes := remove1 h (hu_handshakes s)\<rparr>"

definition reader_ends :: "nat \<Rightarrow> Hub \<Rightarrow> Hub" where
  "reader_ends conn s = s\<lparr>hu_clients := filter (\<lambda>c. cl_conn c \<noteq> conn) (hu_clients s)\<rparr>"

definition receive_step :: "string \<Rightarrow> Hub \<Rightarrow> Hub" where
  "receive_step raw s = s\<lparr>hu_received := hu_received s @ [raw], hu_queue := snd (broadcast_delivery raw (hu_queue s))\<rparr>"

definition dispatch_step :: "(nat \<Rightarrow> write_result) \<Rightarrow> client list \<Rightarrow> outbound \<Rightarrow> outbound list \<Rightarrow> Hub \<Rightarrow> Hub" where
  "dispatch_step w order out rest s =
     (case HandleMessage w out order of
        (stay, got) \<Rightarrow> s\<lparr>hu_queue := rest, hu_clients := stay, hu_delivered := hu_delivered s @ map (\<lambda>c. (c, ob_payload out)) got\<rparr>)"

definition CloseAll :: "Hub \<Rightarrow> Hub" where
  "CloseAll s = s\<lparr>hu_clients := []\<rparr>"

text \<open>At most \<open>k\<close> handlers are between check and registration at a time.\<close>

inductive hub_step :: "ws_config \<Rightarrow> nat \<Rightarrow> Hub \<Rightarrow> Hub \<Rightarrow> bool" for cfg k s where
  request: "length (hu_handshakes (request_step cfg rd now r s)) \<le> k \<Longrightarrow> hub_step cfg k s (request_step cfg rd now r s)"
| upgrade_failed: "h \<in> set (hu_handshakes s) \<Longrightarrow> hub_step cfg k s (s\<lparr>hu_handshakes := remove1 h (hu_handshakes s)\<rparr>)"
| register: "h \<in> set (hu_handshakes s) \<Longrightarrow> hub_step cfg k s (register_step h s)"
| disconnect: "hub_step cfg k s (reader_ends conn s)"
| receive: "hub_step cfg k s (receive_step raw s)"
| dispatch: "hu_queue s = out # rest \<Longrightarrow> mset order = mset (hu_clients s) \<Longrightarrow> hub_step cfg k s (dispatch_step w order out rest s)"
| close_all: "hub_step cfg k s (CloseAll s)"

inductive hub_reachable :: "ws_config \<Rightarrow> nat \<Rightarrow> Hub \<Rightarrow> bool" for cfg k where
  hub_init: "hub_reachable cfg k (initial_hub rl)"
| hub_more: "hub_reachable cfg k s \<Longrightarrow> hub_step cfg k s s' \<Longrightarrow> hub_reachable cfg k s'"

subsection \<open>Delivery\<close>

lemma HandleMessage_sub:
  "HandleMessage w out cs = (stay, got) \<Longrightarrow> mset stay \<subseteq># mset cs \<and> (\<forall>c\<in>set got. c \<in> set cs \<and> matches c out \<and> w (cl_conn c) = W_ok)"
proof (induction cs arbitrary: stay got)
  case (Cons c cs)
  obtain st gt where h: "HandleMessage w out cs = (st, gt)" by fastforce
  from Cons.IH [OF h] Cons.prems h show ?case
    by (cases "w (cl_conn c)") (auto split: if_splits intro: subset_mset.order_trans)
qed simp

lemma HandleMessage_all:
  "\<forall>c\<in>set cs. w (cl_conn c) \<noteq> W_panic \<Longrightarrow> HandleMessage w out cs =
    (filter (\<lambda>c. \<not> (matches c out \<and> w (cl_conn c) = W_error)) cs, filter (\<lambda>c. matches c out \<and> w (cl_conn c) = W_ok) cs)"
proof (induction cs)
  case (Cons c cs)
  then show ?case by (cases "w (cl_conn c)") auto
qed simp

text \<open>The clients a message from the bus is meant for.\<close>

definition addressed :: "string \<Rightarrow> client \<Rightarrow> bool" where
  "addressed raw c \<longleftrightarrow> (case Unmarshal_event raw of None \<Rightarrow> False
     | Some evt \<Rightarrow> (case ev_TargetUserID evt of Some u \<Rightarrow> cl_userID c = u | None \<Rightarrow> cl_role c \<in> set (ev_TargetRoles evt)))"

definition outbound_of :: "string \<Rightarrow> outbound \<Rightarrow> bool" where
  "outbound_of raw out \<longleftrightarrow> ob_payload out = raw \<and> (\<forall>c. matches c out \<longleftrightarrow> addressed raw c)"

lemma broadcast_queue:
  "broadcast_delivery raw q = (ok, q') \<Longrightarrow> q' = q \<or> (\<exists>out. q' = q @ [out] \<and> outbound_of raw out \<and> length q < broadcast_cap)"
  by (auto simp: broadcast_delivery_def SendToUser_def SendToRoles_def enqueue_def outbound_of_def matches_def addressed_def
      split: option.splits if_splits)

lemma broadcast_enqueued:
  assumes "addressed raw c" and "length q < broadcast_cap"
  shows "\<exists>out. broadcast_delivery raw q = (True, q @ [out]) \<and> outbound_of raw out"
  using assms
  by (auto simp: broadcast_delivery_def SendToUser_def SendToRoles_def enqueue_def outbound_of_def matches_def addressed_def
      split: option.splits)

text \<open>A client is genuine: its connection was opened by a request whose own token holds its identity.\<close>

definition genuine :: "ws_config \<Rightarrow> Hub \<Rightarrow> client \<Rightarrow> bool" where
  "genuine cfg s c \<longleftrightarrow> (\<exists>(n, now, r)\<in>set (hu_opened s). n = cl_conn c \<and> ws_identity cfg now r = Inr (cl_role c, cl_userID c))"

definition hub_ok :: "ws_config \<Rightarrow> Hub \<Rightarrow> bool" where
  "hub_ok cfg s \<longleftrightarrow>
     (\<forall>out\<in>set (hu_queue s). \<exists>raw\<in>set (hu_received s). outbound_of raw out) \<and> length (hu_queue s) \<le> broadcast_cap \<and>
     (\<forall>d\<in>set (hu_delivered s). snd d \<in> set (hu_received s) \<and> addressed (snd d) (fst d)) \<and>
     (\<forall>c\<in>client_of ` set (hu_handshakes s) \<union> set (hu_clients s) \<union> fst ` set (hu_delivered s). genuine cfg s c) \<and>
     distinct (map fst (hu_handshakes s) @ map cl_conn (hu_clients s)) \<and>
     distinct (map fst (hu_opened s)) \<and> (\<forall>x\<in>set (hu_opened s). fst x < hu_next s)"

lemma genuine_same [simp]:
  "genuine cfg (s\<lparr>hu_clients := cs\<rparr>) = genuine cfg s" "genuine cfg (s\<lparr>hu_handshakes := hs\<rparr>) = genuine cfg s"
  "genuine cfg (s\<lparr>hu_queue := q\<rparr>) = genuine cfg s" "genuine cfg (s\<lparr>hu_limiter := rl\<rparr>) = genuine cfg s"
  "genuine cfg (s\<lparr>hu_received := rs\<rparr>) = genuine cfg s" "genuine cfg (s\<lparr>hu_delivered := ds\<rparr>) = genuine cfg s"
  by (simp_all add: genuine_def fun_eq_iff)

lemma hub_ok_genuine:
  "hub_ok cfg s \<Longrightarrow> \<forall>c\<in>client_of ` set (hu_handshakes s) \<union> set (hu_clients s) \<union> fst ` set (hu_delivered s). genuine cfg s c"
  by (simp add: hub_ok_def)

lemma hub_ok_distinct: "hub_ok cfg s \<Longrightarrow> distinct (map fst (hu_handshakes s) @ map cl_conn (hu_clients s))"
  by (simp add: hub_ok_def)

text \<open>The part of the invariant that a change of clients and handshakes leaves alone.\<close>

lemma hub_ok_change:
  assumes "hub_ok cfg s" "distinct (map fst hs @ map cl_conn cs)" "\<forall>c\<in>client_of ` set hs \<union> set cs. genuine cfg s c"
  shows "hub_ok cfg (s\<lparr>hu_clients := cs, hu_handshakes := hs\<rparr>)"
  using assms by (simp add: hub_ok_def ball_Un)

lemma ws_admit_identity: "ws_admit cfg rd now r n rl = (Inr i, rl') \<Longrightarrow> ws_identity cfg now r = Inr i"
  by (auto simp: ws_admission split: prod.splits if_splits sum.splits)

lemma ws_admit_room: "ws_admit cfg rd now r n rl = (Inr i, rl') \<Longrightarrow> int n < wc_maxConnections cfg"
  by (auto simp: ws_admission ws_full_def split: prod.splits if_splits sum.splits)

lemma distinct_sub:
  assumes "mset xs \<subseteq># mset ys" "distinct ys"
  shows "distinct xs"
proof -
  have "count (mset xs) a \<le> count (mset ys) a" for a using assms(1) by (rule mset_subset_eq_count)
  moreover have "count (mset ys) a \<le> 1" for a using assms(2) by (simp add: distinct_count_atmost_1)
  ultimately have "count (mset xs) a \<le> 1" for a using order_trans by blast
  moreover have "0 < count (mset xs) a" if "a \<in> set xs" for a using that by simp
  ultimately have "count (mset xs) a = (if a \<in> set xs then 1 else 0)" for a
    by (cases "a \<in> set xs") (simp add: le_antisym Suc_leI, simp add: count_eq_zero_iff)
  then show ?thesis by (simp add: distinct_count_atmost_1)
qed

lemma hub_ok_fewer:
  assumes "hub_ok cfg s" "mset cs \<subseteq># mset (hu_clients s)" "mset hs \<subseteq># mset (hu_handshakes s)"
  shows "hub_ok cfg (s\<lparr>hu_clients := cs, hu_handshakes := hs\<rparr>)"
proof -
  have "mset (map fst hs @ map cl_conn cs) \<subseteq># mset (map fst (hu_handshakes s) @ map cl_conn (hu_clients s))"
    using assms(2,3) by (simp add: subset_mset.add_mono image_mset_subseteq_mono)
  then have d: "distinct (map fst hs @ map cl_conn cs)" by (rule distinct_sub [OF _ hub_ok_distinct [OF assms(1)]])
  have "set cs \<subseteq> set (hu_clients s)" "set hs \<subseteq> set (hu_handshakes s)"
    using assms(2,3) by (metis set_mset_mset set_mset_mono)+
  then have "\<forall>c\<in>client_of ` set hs \<union> set cs. genuine cfg s c" using hub_ok_genuine [OF assms(1)] by blast
  from hub_ok_change [OF assms(1) d this] show ?thesis .
qed

lemma hub_ok_request:
  assumes "hub_ok cfg s"
  shows "hub_ok cfg (request_step cfg rd now r s)"
proof (cases "ws_admit cfg rd now r (length (hu_clients s)) (hu_limiter s)")
  case (Pair res rl')
  show ?thesis
  proof (cases res)
    case (Inl e)
    with Pair assms show ?thesis by (simp add: request_step_def hub_ok_def)
  next
    case (Inr i)
    let ?s = "request_step cfg rd now r s"
    have s: "?s = s\<lparr>hu_limiter := rl', hu_handshakes := hu_handshakes s @ [(hu_next s, i)],
          hu_next := Suc (hu_next s), hu_opened := hu_opened s @ [(hu_next s, now, r)]\<rparr>"
      using Pair Inr by (simp add: request_step_def)
    have "ws_identity cfg now r = Inr i" using Pair Inr ws_admit_identity by blast
    then have new: "genuine cfg ?s (client_of (hu_next s, i))" by (cases i) (simp add: s genuine_def client_of_def)
    have old: "genuine cfg ?s c" if "genuine cfg s c" for c using that by (auto simp: s genuine_def)
    have lt: "cl_conn c < hu_next s" if "genuine cfg s c" for c
      using that assms unfolding genuine_def hub_ok_def by auto
    have "\<forall>h\<in>set (hu_handshakes s). fst h < hu_next s" "\<forall>c\<in>set (hu_clients s). cl_conn c < hu_next s"
      using assms lt unfolding hub_ok_def by (fastforce simp: client_of_def split: prod.splits)+
    then have d: "distinct (map fst (hu_handshakes ?s) @ map cl_conn (hu_clients ?s))"
      using assms unfolding hub_ok_def s by auto
    have o: "distinct (map fst (hu_opened ?s)) \<and> (\<forall>x\<in>set (hu_opened ?s). fst x < hu_next ?s)"
      using assms unfolding hub_ok_def s by (auto simp: less_Suc_eq)
    have g: "\<forall>c\<in>client_of ` set (hu_handshakes ?s) \<union> set (hu_clients ?s) \<union> fst ` set (hu_delivered ?s). genuine cfg ?s c"
      using assms new old unfolding hub_ok_def by (auto simp: s)
    show ?thesis using assms d o g unfolding hub_ok_def by (simp add: s)
  qed
qed

lemma hub_ok_register:
  assumes "hub_ok cfg s" and "h \<in> set (hu_handshakes s)"
  shows "hub_ok cfg (register_step h s)"
proof -
  have "mset (hu_handshakes s) = add_mset h (mset (remove1 h (hu_handshakes s)))" using assms(2) by simp
  from arg_cong [OF this, of "image_mset fst"]
  have m: "image_mset fst (mset (hu_handshakes s)) = add_mset (fst h) (image_mset fst (mset (remove1 h (hu_handshakes s))))" by simp
  have "mset (map fst (hu_handshakes s) @ map cl_conn (hu_clients s)) =
      mset (map fst (remove1 h (hu_handshakes s)) @ map cl_conn (hu_clients s @ [client_of h]))"
    using m by (simp add: client_of_def split: prod.splits)
  then have "mset (map fst (remove1 h (hu_handshakes s)) @ map cl_conn (hu_clients s @ [client_of h])) \<subseteq>#
      mset (map fst (hu_handshakes s) @ map cl_conn (hu_clients s))" by simp
  then have d: "distinct (map fst (remove1 h (hu_handshakes s)) @ map cl_conn (hu_clients s @ [client_of h]))"
    by (rule distinct_sub [OF _ hub_ok_distinct [OF assms(1)]])
  have "\<forall>c\<in>client_of ` set (remove1 h (hu_handshakes s)) \<union> set (hu_clients s @ [client_of h]). genuine cfg s c"
    using hub_ok_genuine [OF assms(1)] assms(2) set_remove1_subset [of h "hu_handshakes s"] by auto
  from hub_ok_change [OF assms(1) d this] show ?thesis by (simp add: register_step_def)
qed

lemma hub_step_ok:
  assumes "hub_ok cfg s" and "hub_step cfg k s s'"
  shows "hub_ok cfg s'"
  using assms(2)
proof (cases rule: hub_step.cases)
  case (request rd now r)
  then show ?thesis using hub_ok_request [OF assms(1)] by simp
next
  case (upgrade_failed h)
  have "hub_ok cfg (s\<lparr>hu_clients := hu_clients s, hu_handshakes := remove1 h (hu_handshakes s)\<rparr>)"
    using assms(1) by (rule hub_ok_fewer) (simp_all add: diff_subset_eq_self)
  then show ?thesis using upgrade_failed by simp
next
  case (register h)
  then show ?thesis using hub_ok_register [OF assms(1)] by simp
next
  case (disconnect conn)
  have "hub_ok cfg (s\<lparr>hu_clients := filter (\<lambda>c. cl_conn c \<noteq> conn) (hu_clients s), hu_handshakes := hu_handshakes s\<rparr>)"
    using assms(1) by (rule hub_ok_fewer) (simp_all add: multiset_filter_subset)
  then show ?thesis using disconnect by (simp add: reader_ends_def)
next
  case (receive raw)
  obtain ok q where b: "broadcast_delivery raw (hu_queue s) = (ok, q)" by fastforce
  from broadcast_queue [OF this] assms(1) show ?thesis
    by (auto simp: receive receive_step_def b hub_ok_def broadcast_cap_def)
next
  case (dispatch out rest order w)
  obtain stay got where h: "HandleMessage w out order = (stay, got)" by fastforce
  note sub = HandleMessage_sub [OF h]
  have "hub_ok cfg (s\<lparr>hu_clients := stay, hu_handshakes := hu_handshakes s\<rparr>)"
    using assms(1) by (rule hub_ok_fewer) (use sub dispatch(3) in simp_all)
  moreover obtain raw where raw: "raw \<in> set (hu_received s)" "outbound_of raw out"
    using assms(1) dispatch(2) by (auto simp: hub_ok_def)
  moreover have "c \<in> set (hu_clients s) \<and> addressed raw c" if "c \<in> set got" for c
    using sub that raw(2) dispatch(3) by (auto simp: outbound_of_def dest: mset_eq_setD)
  ultimately show ?thesis
    using assms(1) dispatch(2) unfolding hub_ok_def dispatch(1) dispatch_step_def h
    by (auto simp: outbound_of_def)
next
  case close_all
  have "hub_ok cfg (s\<lparr>hu_clients := [], hu_handshakes := hu_handshakes s\<rparr>)"
    using assms(1) by (rule hub_ok_fewer) simp_all
  then show ?thesis using close_all by (simp add: CloseAll_def)
qed

lemma hub_is_ok: "hub_reachable cfg k s \<Longrightarrow> hub_ok cfg s"
proof (induction rule: hub_reachable.induct)
  case hub_init show ?case by (simp add: hub_ok_def initial_hub_def)
next
  case hub_more then show ?case by (blast intro: hub_step_ok)
qed

text \<open>
  C29. Live notifications reach only those they are meant for. Whatever connections come and go,
  whatever the bus delivers and which writes fail: everything a connection ever received came from
  the bus and was addressed to the user id or role in the token of the very request that opened
  this connection, a token signed with the secret of the services; there is exactly one such
  request per connection, so no connection ever acts under another's identity; and the queue never
  holds more than 256 messages.
\<close>
theorem ws_only_addressed:
  assumes "hub_reachable cfg k s"
  shows "(\<forall>(c, payload)\<in>set (hu_delivered s). payload \<in> set (hu_received s) \<and> addressed payload c \<and>
      (\<exists>(n, now, r)\<in>set (hu_opened s). n = cl_conn c \<and> ws_identity cfg now r = Inr (cl_role c, cl_userID c))) \<and>
    (\<forall>c\<in>set (hu_clients s). \<exists>(n, now, r)\<in>set (hu_opened s). n = cl_conn c \<and> ws_identity cfg now r = Inr (cl_role c, cl_userID c)) \<and>
    distinct (map fst (hu_opened s)) \<and> length (hu_queue s) \<le> broadcast_cap"
proof -
  note ok = hub_is_ok [OF assms]
  have "\<forall>(c, payload)\<in>set (hu_delivered s). payload \<in> set (hu_received s) \<and> addressed payload c \<and> genuine cfg s c"
    using ok by (auto simp: hub_ok_def split_beta)
  moreover have "\<forall>c\<in>set (hu_clients s). genuine cfg s c" using hub_ok_genuine [OF ok] by blast
  ultimately show ?thesis using ok by (simp add: genuine_def hub_ok_def)
qed

text \<open>
  C30. Nobody is left out: an event that finds room in the queue is, when its turn comes, written to
  every client it is addressed to that is connected then (all connections of a user, not a single
  one), in whatever order the map is iterated; a client whose write fails is removed and keeps
  nobody else from getting the message. Every write is taken to return, which the code does not
  enforce: there is no deadline.
\<close>
theorem ws_delivery:
  assumes "addressed raw c" and "length (hu_queue s) < broadcast_cap"
  shows "\<exists>out. hu_queue (receive_step raw s) = hu_queue s @ [out] \<and>
    (\<forall>w order q s'. c \<in> set (hu_clients s') \<longrightarrow> mset order = mset (hu_clients s') \<longrightarrow> (\<forall>n. w n \<noteq> W_panic) \<longrightarrow>
      (w (cl_conn c) = W_ok \<longrightarrow> (c, raw) \<in> set (hu_delivered (dispatch_step w order out q s'))) \<and>
      (c \<in> set (hu_clients (dispatch_step w order out q s')) \<longleftrightarrow> w (cl_conn c) \<noteq> W_error))"
proof -
  obtain out where out: "broadcast_delivery raw (hu_queue s) = (True, hu_queue s @ [out])" "outbound_of raw out"
    using broadcast_enqueued [OF assms] by blast
  have m: "matches c out" "ob_payload out = raw" using out(2) assms(1) by (auto simp: outbound_of_def)
  have "(w (cl_conn c) = W_ok \<longrightarrow> (c, raw) \<in> set (hu_delivered (dispatch_step w order out q s'))) \<and>
      (c \<in> set (hu_clients (dispatch_step w order out q s')) \<longleftrightarrow> w (cl_conn c) \<noteq> W_error)"
    if "c \<in> set (hu_clients s')" "mset order = mset (hu_clients s')" "\<forall>n. w n \<noteq> W_panic" for w order q s'
  proof -
    have "c \<in> set order" using that(1,2) by (metis mset_eq_setD)
    moreover have "HandleMessage w out order = (filter (\<lambda>c. \<not> (matches c out \<and> w (cl_conn c) = W_error)) order,
        filter (\<lambda>c. matches c out \<and> w (cl_conn c) = W_ok) order)"
      by (rule HandleMessage_all) (use that(3) in blast)
    ultimately show ?thesis using m by (auto simp: dispatch_step_def)
  qed
  then show ?thesis using out(1) by (intro exI [of _ out]) (simp add: receive_step_def)
qed

text \<open>
  The connection limit is enforced up to a race: the check and the registration are two steps,
  so with up to k handshakes in progress at a time at most max + k - 1 clients are connected; with
  one at a time the limit is exact.
\<close>
theorem ws_connection_limit:
  assumes "hub_reachable cfg k s" and "1 \<le> wc_maxConnections cfg" and "1 \<le> k"
  shows "int (length (hu_clients s) + length (hu_handshakes s)) \<le> wc_maxConnections cfg + int k - 1"
  using assms(1)
proof (induction rule: hub_reachable.induct)
  case (hub_init rl)
  show ?case using assms(2,3) by (simp add: initial_hub_def)
next
  case (hub_more s s')
  let ?n = "\<lambda>s. length (hu_clients s) + length (hu_handshakes s)"
  have fewer: ?case if "?n s' \<le> ?n s" using hub_more.IH that by linarith
  from hub_more.hyps(2) show ?case
  proof (cases rule: hub_step.cases)
    case (request rd now r)
    show ?thesis
    proof (cases "ws_admit cfg rd now r (length (hu_clients s)) (hu_limiter s)")
      case (Pair res rl')
      show ?thesis
      proof (cases res)
        case (Inl e)
        with Pair request show ?thesis by (intro fewer) (simp add: request_step_def)
      next
        case (Inr i)
        have "int (length (hu_clients s)) < wc_maxConnections cfg" using ws_admit_room Pair Inr by metis
        moreover have "length (hu_handshakes s) + 1 \<le> k" "?n s' = ?n s + 1"
          using Pair Inr request by (simp_all add: request_step_def)
        ultimately show ?thesis by linarith
      qed
    qed
  next
    case (register h)
    have "length (hu_handshakes s) = Suc (length (remove1 h (hu_handshakes s)))"
      using filter_remove1 [OF register(2), of "\<lambda>_. True"] by simp
    then show ?thesis using register by (intro fewer) (simp add: register_step_def)
  next
    case (dispatch out rest order w)
    obtain stay got where h: "HandleMessage w out order = (stay, got)" by fastforce
    have "length stay \<le> length (hu_clients s)"
      using HandleMessage_sub [OF h] dispatch(3) by (metis size_mset size_mset_mono)
    then show ?thesis using dispatch(1) h by (intro fewer) (simp add: dispatch_step_def)
  qed ((rule fewer; simp add: reader_ends_def receive_step_def CloseAll_def length_remove1)+)
qed

text \<open>A hub for one connection with two handshakes at a time, both of user 7.\<close>

definition demo_ws :: ws_config where
  "demo_ws = \<lparr>wc_jwt = demo_jwt ''k'' [(''A'', \<lparr>tc_user_id = 7, tc_role = ''user'', tc_exp = 7200, tc_jti = None\<rparr>)],
     wc_jwtSecret = ''k'', wc_oob = (\<lambda>_. 0), wc_allowedOrigins = [], wc_maxConnections = 1, wc_proxies = []\<rparr>"

definition demo_ws_request :: request where
  "demo_ws_request = \<lparr>rq_method = ''GET'', rq_path = ''/ws'', rq_headers = (\<lambda>_. []),
     rq_query = (\<lambda>k. if k = ''token'' then ''A'' else []), rq_ip = ''1'', rq_body = None\<rparr>"

definition demo_limiter :: Limiter where
  "demo_limiter = InMemory (NewRateLimiter 1 5)"

lemma demo_ws_identity: "ws_identity demo_ws 0 demo_ws_request = Inr (''user'', 7)"
  by (simp add: ws_identity_def demo_ws_def demo_ws_request_def demo_jwt_def keyfunc_def SigningMethodHMAC_def Let_def)

lemma demo_ws_admit:
  assumes "fst (Limiter_allow False 0 (clientIP [] demo_ws_request) rl)"
  shows "request_step demo_ws False 0 demo_ws_request (s\<lparr>hu_clients := [], hu_limiter := rl\<rparr>) =
    s\<lparr>hu_clients := [], hu_limiter := snd (Limiter_allow False 0 (clientIP [] demo_ws_request) rl), hu_handshakes := hu_handshakes s @ [(hu_next s, ''user'', 7)],
      hu_next := Suc (hu_next s), hu_opened := hu_opened s @ [(hu_next s, 0, demo_ws_request)]\<rparr>"
proof -
  obtain ok rl' where l: "Limiter_allow False 0 (clientIP [] demo_ws_request) rl = (ok, rl')" by fastforce
  have "wc_proxies demo_ws = []" "wc_maxConnections demo_ws = 1" "GetHeader ''Origin'' demo_ws_request = []"
    by (simp_all add: demo_ws_def demo_ws_request_def GetHeader_def)
  with assms l show ?thesis
    by (simp add: request_step_def ws_admission demo_ws_identity ws_full_def checkOrigin_def)
qed

lemma clientIP_direct: "clientIP [] r = peer_host r"
  by (simp add: clientIP_def isTrusted_def peer_host_def Let_def split: option.splits)

lemma demo_limiter_allows:
  "fst (Limiter_allow False 0 k demo_limiter)"
  "fst (Limiter_allow False 0 k (snd (Limiter_allow False 0 k demo_limiter)))"
  by (simp_all add: demo_limiter_def NewRateLimiter_def RateLimiter_allow_def Let_def)

text \<open>Two handshakes pass the check before either registers.\<close>

definition demo_hub :: Hub where
  "demo_hub = register_step (0, ''user'', 7) (register_step (1, ''user'', 7)
     (request_step demo_ws False 0 demo_ws_request (request_step demo_ws False 0 demo_ws_request (initial_hub demo_limiter))))"

lemma demo_hub_handshakes:
  defines "k \<equiv> clientIP [] demo_ws_request"
  defines "rl1 \<equiv> snd (Limiter_allow False 0 k demo_limiter)"
  defines "s1 \<equiv> request_step demo_ws False 0 demo_ws_request (initial_hub demo_limiter)"
  defines "s2 \<equiv> request_step demo_ws False 0 demo_ws_request s1"
  shows "hu_handshakes s1 = [(0, ''user'', 7)]" "hu_handshakes s2 = [(0, ''user'', 7), (1, ''user'', 7)]"
    "hu_clients s2 = []" "hu_queue s2 = []" "hu_received s2 = []" "hu_opened s2 = [(0, 0, demo_ws_request), (1, 0, demo_ws_request)]"
proof -
  have i: "initial_hub demo_limiter = (initial_hub demo_limiter)\<lparr>hu_clients := [], hu_limiter := demo_limiter\<rparr>"
    by (simp add: initial_hub_def)
  have s1: "s1 = (initial_hub demo_limiter)\<lparr>hu_clients := [], hu_limiter := rl1, hu_handshakes := [(0, ''user'', 7)],
      hu_next := 1, hu_opened := [(0, 0, demo_ws_request)]\<rparr>"
    unfolding s1_def by (subst i, subst demo_ws_admit) (simp_all add: demo_limiter_allows rl1_def k_def initial_hub_def)
  then have "s1 = s1\<lparr>hu_clients := [], hu_limiter := rl1\<rparr>" by simp
  moreover have "fst (Limiter_allow False 0 (clientIP [] demo_ws_request) rl1)" unfolding rl1_def k_def by (rule demo_limiter_allows)
  ultimately have s2: "s2 = s1\<lparr>hu_clients := [], hu_limiter := snd (Limiter_allow False 0 k rl1),
      hu_handshakes := hu_handshakes s1 @ [(hu_next s1, ''user'', 7)], hu_next := Suc (hu_next s1),
      hu_opened := hu_opened s1 @ [(hu_next s1, 0, demo_ws_request)]\<rparr>"
    using demo_ws_admit [of rl1 s1] by (simp add: k_def s2_def)
  show "hu_handshakes s1 = [(0, ''user'', 7)]" by (simp add: s1)
  show "hu_handshakes s2 = [(0, ''user'', 7), (1, ''user'', 7)]" "hu_clients s2 = []" "hu_queue s2 = []"
    "hu_received s2 = []" "hu_opened s2 = [(0, 0, demo_ws_request), (1, 0, demo_ws_request)]"
    unfolding s2 by (simp_all add: s1 initial_hub_def)
qed

lemma demo_hub_reachable: "hub_reachable demo_ws 2 demo_hub"
proof -
  let ?r = "request_step demo_ws False 0 demo_ws_request"
  have "hub_reachable demo_ws 2 (?r (initial_hub demo_limiter))"
    by (rule hub_more [OF hub_init], rule request) (simp add: demo_hub_handshakes)
  then have "hub_reachable demo_ws 2 (?r (?r (initial_hub demo_limiter)))"
    by (rule hub_more, intro request) (simp add: demo_hub_handshakes)
  then have "hub_reachable demo_ws 2 (register_step (1, ''user'', 7) (?r (?r (initial_hub demo_limiter))))"
    by (rule hub_more, intro register) (simp add: demo_hub_handshakes)
  then show ?thesis unfolding demo_hub_def
    by (rule hub_more, intro register) (simp add: demo_hub_handshakes register_step_def)
qed

lemma demo_hub_clients:
  "hu_clients demo_hub = [\<lparr>cl_conn = 1, cl_role = ''user'', cl_userID = 7\<rparr>, \<lparr>cl_conn = 0, cl_role = ''user'', cl_userID = 7\<rparr>]"
  "hu_handshakes demo_hub = []" "hu_queue demo_hub = []" "hu_received demo_hub = []"
  "hu_opened demo_hub = [(0, 0, demo_ws_request), (1, 0, demo_ws_request)]"
  by (simp_all add: demo_hub_def register_step_def client_of_def demo_hub_handshakes)

text \<open>The bound is reached: two clients although the limit is one.\<close>

theorem ws_connection_limit_witness:
  "int (length (hu_clients demo_hub)) = wc_maxConnections demo_ws + 1 \<and>
   int (length (hu_clients demo_hub) + length (hu_handshakes demo_hub)) \<le> wc_maxConnections demo_ws + int 2 - 1"
  using ws_connection_limit [OF demo_hub_reachable] by (simp add: demo_hub_clients demo_ws_def)

definition demo_push :: string where
  "demo_push = Marshal_Event \<lparr>ev_Type = EventTicketAssigned, ev_TicketID = 3, ev_Title = [], ev_Status = [],
     ev_TargetUserID = Some 7, ev_TargetRoles = []\<rparr>"

lemma demo_push_addressed: "addressed demo_push c \<longleftrightarrow> cl_userID c = 7"
  by (simp add: addressed_def demo_push_def Unmarshal_Marshal event_ok_def clean_event_def)

text \<open>Both connections of user 7 get it.\<close>

theorem ws_delivery_witness:
  "\<exists>out. (\<lparr>cl_conn = 1, cl_role = ''user'', cl_userID = 7\<rparr>, demo_push)
     \<in> set (hu_delivered (dispatch_step (\<lambda>_. W_ok) (hu_clients demo_hub) out [] (receive_step demo_push demo_hub)))"
proof -
  let ?c = "\<lparr>cl_conn = 1, cl_role = ''user'', cl_userID = 7\<rparr>"
  let ?s = "receive_step demo_push demo_hub"
  have s: "length (hu_queue demo_hub) < broadcast_cap" "?c \<in> set (hu_clients ?s)" "mset (hu_clients demo_hub) = mset (hu_clients ?s)"
    by (simp_all add: demo_hub_clients receive_step_def broadcast_cap_def)
  have "addressed demo_push ?c" by (simp add: demo_push_addressed)
  from ws_delivery [OF this s(1)] obtain out where
    d: "\<forall>w order q s'. ?c \<in> set (hu_clients s') \<longrightarrow> mset order = mset (hu_clients s') \<longrightarrow> (\<forall>n. w n \<noteq> W_panic) \<longrightarrow>
      w (cl_conn ?c) = W_ok \<longrightarrow> (?c, demo_push) \<in> set (hu_delivered (dispatch_step w order out q s'))" by blast
  have "(?c, demo_push) \<in> set (hu_delivered (dispatch_step (\<lambda>_. W_ok) (hu_clients demo_hub) out [] ?s))"
    using d [rule_format, OF s(2,3), of "\<lambda>_. W_ok"] by simp
  then show ?thesis by blast
qed

text \<open>The event addressed to user 7 has reached both of his connections, and connection 1 is his.\<close>

definition demo_served :: Hub where
  "demo_served = (let s = receive_step demo_push demo_hub in
     dispatch_step (\<lambda>_. W_ok) (hu_clients s) (hd (hu_queue s)) (tl (hu_queue s)) s)"

lemma demo_push_queued:
  "hu_queue (receive_step demo_push demo_hub) = [\<lparr>ob_payload = demo_push, ob_targetUserID = Some 7, ob_targetRoles = []\<rparr>]"
  by (simp add: receive_step_def demo_hub_clients broadcast_delivery_def demo_push_def Unmarshal_Marshal event_ok_def clean_event_def
      SendToUser_def enqueue_def broadcast_cap_def)

lemma demo_served_reachable: "hub_reachable demo_ws 2 demo_served"
  unfolding demo_served_def Let_def
  by (rule hub_more [OF hub_more [OF demo_hub_reachable receive]], rule dispatch) (simp_all add: demo_push_queued)

lemma demo_served_delivered:
  "hu_delivered demo_served = hu_delivered demo_hub @
    [(\<lparr>cl_conn = 1, cl_role = ''user'', cl_userID = 7\<rparr>, demo_push), (\<lparr>cl_conn = 0, cl_role = ''user'', cl_userID = 7\<rparr>, demo_push)]"
  "hu_opened demo_served = [(0, 0, demo_ws_request), (1, 0, demo_ws_request)]"
  by (simp_all add: demo_served_def Let_def demo_push_queued dispatch_step_def)
    (simp_all add: demo_hub_clients receive_step_def matches_def)

theorem ws_only_addressed_witness:
  "(\<lparr>cl_conn = 1, cl_role = ''user'', cl_userID = 7\<rparr>, demo_push) \<in> set (hu_delivered demo_served) \<and>
   addressed demo_push \<lparr>cl_conn = 1, cl_role = ''user'', cl_userID = 7\<rparr> \<and>
   (\<exists>now r. (1, now, r) \<in> set (hu_opened demo_served) \<and> ws_identity demo_ws now r = Inr (''user'', 7))"
proof -
  have d: "(\<lparr>cl_conn = 1, cl_role = ''user'', cl_userID = 7\<rparr>, demo_push) \<in> set (hu_delivered demo_served)"
    by (simp add: demo_served_delivered)
  with ws_only_addressed [OF demo_served_reachable] show ?thesis by fastforce
qed

end
