(* ===== verification/EndToEnd.thy ===== *)
theory EndToEnd
  imports Gateway AuthService TicketSafety MessageBus WsHub
begin

section \<open>The services together\<close>

text \<open>
  Properties of requests and messages that cross services: client to gateway to auth-service, the
  tokens of auth-service at the gateway and at notification-service, and an event from the request
  that causes it to the list and the connections of the user it is for.
\<close>

subsection \<open>Client, gateway, auth-service\<close>

text \<open>
  A request with what the gateway sees of its environment (Redis, time, fresh request id) and what
  auth-service does; the reply of auth-service, when the gateway asked it.
\<close>

type_synonym edge_request = "(bool \<times> time \<times> string) \<times> (bool \<times> AuthEnv) \<times> request"

fun edge_auth :: "'d GatewayConfig \<Rightarrow> AuthHandler \<Rightarrow> string \<Rightarrow> edge_request \<Rightarrow> Limiter \<times> AuthServer \<Rightarrow>
    auth_data response option \<times> Limiter \<times> AuthServer" where
  "edge_auth cfg h secret ((redis_down, now, gen), (rd, env), r) (rl, srv) =
     (case gateway_handle cfg redis_down now gen r rl of
        (Forward AuthUpstream r', rl') \<Rightarrow> (case auth_handle h secret rd env r' srv of (reply, srv') \<Rightarrow> (Some reply, rl', srv'))
      | (_, rl') \<Rightarrow> (None, rl', srv))"

text \<open>The request carries a valid token whose role prints as admin.\<close>

definition admin_token :: "'d GatewayConfig \<Rightarrow> time \<Rightarrow> request \<Rightarrow> bool" where
  "admin_token cfg now r \<longleftrightarrow> (\<exists>claims.
     jwt_Parse (gw_jwt cfg) now (keyfunc (gw_jwtSecret cfg)) (bearer_token r) = Some \<lparr>tk_Valid = True, tk_Claims = Some claims\<rparr> \<and>
     Sprint_v (claim ''role'' claims) = ''admin'')"

lemma forwarded_no_staff:
  assumes "gateway_handle cfg redis_down now gen r rl = (Forward AuthUpstream r', rl')" and "\<not> admin_token cfg now r"
  shows "GetHeader ''X-User-ROLE'' r' \<noteq> ''admin'' \<or> rq_path r' \<noteq> ''/admin/staff''"
proof -
  note f = gateway_forwards [OF assms(1)]
  show ?thesis
  proof (cases "rq_path r \<in> {''/auth/login'', ''/auth/register'', ''/auth/refresh''}")
    case True
    have "rq_path r' = drop 5 (rq_path r)" using f by simp
    with True have "rq_path r' \<noteq> ''/admin/staff''" by auto
    then show ?thesis ..
  next
    case False
    with f have "identified (gw_jwt cfg) now (gw_jwtSecret cfg) r r'" by blast
    then obtain claims where
      "jwt_Parse (gw_jwt cfg) now (keyfunc (gw_jwtSecret cfg)) (bearer_token r) = Some \<lparr>tk_Valid = True, tk_Claims = Some claims\<rparr>"
      "GetHeader ''X-User-ROLE'' r' = Sprint_v (claim ''role'' claims) \<or> GetHeader ''X-User-ROLE'' r' = []"
      unfolding identified_def by blast
    with assms(2) have "GetHeader ''X-User-ROLE'' r' \<noteq> ''admin''" unfolding admin_token_def by (metis list.distinct(1))
    then show ?thesis ..
  qed
qed

lemma edge_step_kept:
  assumes "auth_ok h (av_state (snd s))" and "\<not> admin_token cfg (fst (snd (fst rq))) (snd (snd rq))"
  shows "auth_ok h (av_state (snd (snd (edge_auth cfg h secret rq s)))) \<and>
    role_source {''user''} (as_users (av_state (snd s))) (as_users (av_state (snd (snd (edge_auth cfg h secret rq s)))))"
proof -
  obtain redis_down now gen rd env r rl srv where rq: "rq = ((redis_down, now, gen), (rd, env), r)" and s: "s = (rl, srv)"
    by (metis prod.collapse)
  obtain out rl' where g: "gateway_handle cfg redis_down now gen r rl = (out, rl')" by fastforce
  show ?thesis
  proof (cases "\<exists>r'. out = Forward AuthUpstream r'")
    case False
    then show ?thesis using assms(1) unfolding rq s by (auto simp: g split: outcome.split upstream.split)
  next
    case True
    then obtain r' where o: "out = Forward AuthUpstream r'" by blast
    obtain reply srv' where a: "auth_handle h secret rd env r' srv = (reply, srv')" by fastforce
    have "auth_ok h (av_state srv')"
      using auth_step_ok [of h srv secret "(rd, env, r')"] assms(1) s by (simp add: auth_step_def a)
    moreover have "role_source {''user''} (as_users (av_state srv)) (as_users (av_state srv'))"
      using auth_handle_roles [OF _ a] forwarded_no_staff [OF g [unfolded o]] assms s by (simp add: auth_ok_def rq)
    ultimately show ?thesis unfolding rq s by (simp add: g o a)
  qed
qed

lemma edge_run_kept:
  assumes "auth_ok h (av_state (snd s))" and "\<forall>rq\<in>set rqs. \<not> admin_token cfg (fst (snd (fst rq))) (snd (snd rq))"
  shows "role_source {''user''} (as_users (av_state (snd s))) (as_users (av_state (snd (run_steps (edge_auth cfg h secret) rqs s))))"
  using assms
proof (induction rqs arbitrary: s)
  case (Cons rq rqs)
  have "auth_ok h (av_state (snd (snd (edge_auth cfg h secret rq s))))"
    "role_source {''user''} (as_users (av_state (snd s))) (as_users (av_state (snd (snd (edge_auth cfg h secret rq s)))))"
    using edge_step_kept [OF Cons.prems(1), of cfg rq secret] Cons.prems(2) by simp_all
  moreover from this Cons.IH Cons.prems(2) have
    "role_source {''user''} (as_users (av_state (snd (snd (edge_auth cfg h secret rq s)))))
      (as_users (av_state (snd (run_steps (edge_auth cfg h secret) rqs (snd (edge_auth cfg h secret rq s))))))" by simp
  ultimately show ?case unfolding run_steps.simps by (blast intro: role_source_trans)
qed simp

text \<open>
  C1. Staff accounts come from admins only, through the whole edge: whatever requests clients send
  to the gateway, with any headers, in any order and with any failures behind it, as long as none
  of them carries a valid token with the role admin, every account auth-service had is still there
  with the role it had, and every account it has made since has the role "user".
\<close>
theorem staff_needs_admin_token:
  fixes cfg :: "'d GatewayConfig"
  assumes "auth_ok h (av_state srv)" and "\<forall>rq\<in>set rqs. \<not> admin_token cfg (fst (snd (fst rq))) (snd (snd rq))"
    and "db' = as_users (av_state (snd (run_steps (edge_auth cfg h secret) rqs (rl, srv))))"
  shows "case lookup_user (as_users (av_state srv)) i of
      Some u0 \<Rightarrow> \<exists>u. lookup_user db' i = Some u \<and> us_Role u = us_Role u0
    | None \<Rightarrow> (case lookup_user db' i of None \<Rightarrow> True | Some u \<Rightarrow> us_Role u = ''user'')"
  using edge_run_kept [of h "(rl, srv)" rqs cfg secret] assms
  by (auto simp: role_source_def split: option.split dest!: spec [of _ i])

text \<open>A client that is not an admin and sends the headers of one asks for a staff account, twice.\<close>

definition demo_forger :: request where
  "demo_forger = \<lparr>rq_method = ''POST'', rq_path = ''/auth/admin/staff'',
     rq_headers = (\<lambda>k. if k = ''Authorization'' then ''Bearer A1'' else if k = ''X-User-ROLE'' then ''admin'' else []),
     rq_query = (\<lambda>_. []), rq_ip = ''10.0.0.1'',
     rq_body = Some (Raw_obj [(''email'', Raw_str ''e''), (''password'', Raw_str ''12345678''), (''role'', Raw_str ''admin'')])\<rparr>"

theorem staff_needs_admin_token_witness:
  "{i. \<exists>u. lookup_user (as_users (av_state (snd (run_steps (edge_auth demo_gateway demo_auth ''s'')
      [((False, 0, ''a''), (False, demo_env), demo_forger), ((False, 1, ''b''), (False, demo_env), demo_forger)]
      (InMemory (NewRateLimiter 1 5), demo_server))))) i = Some u \<and> us_Role u = ''admin''} = {}"
proof -
  let ?rqs = "[((False, 0, ''a''), (False, demo_env), demo_forger), ((False, 1, ''b''), (False, demo_env), demo_forger)]"
  have ok: "auth_ok demo_auth (av_state demo_server)" "as_users (av_state demo_server) = demo_users"
    using demo_state_ok by (simp_all add: demo_server_def demo_state_def)
  have "\<not> admin_token demo_gateway now demo_forger" for now
    by (simp add: admin_token_def demo_gateway_def demo_forger_def bearer_token_def GetHeader_def demo_jwt_def keyfunc_def
        SigningMethodHMAC_def claim_def decoded_def)
  then have no: "\<forall>rq\<in>set ?rqs. \<not> admin_token demo_gateway (fst (snd (fst rq))) (snd (snd rq))" by simp
  define db' where "db' = as_users (av_state (snd (run_steps (edge_auth demo_gateway demo_auth ''s'') ?rqs
    (InMemory (NewRateLimiter 1 5), demo_server))))"
  have "us_Role u \<noteq> ''admin''" if "lookup_user db' i = Some u" for i u
  proof -
    have "us_Role u = ''agent''" if "lookup_user demo_users i = Some u" for u
      using that by (auto simp: lookup_user_def demo_users_def split: if_splits)
    with staff_needs_admin_token [OF ok(1) no db'_def, of i] that show ?thesis
      unfolding ok(2) by (auto split: option.splits)
  qed
  then show ?thesis unfolding db'_def by blast
qed

subsection \<open>Tokens\<close>

text \<open>
  C3. A refresh token is as good as an access token: the refresh token of a login opens, as
  bearer token, the routes of the gateway and of notification-service for the user who logged in,
  with that user's role, until it expires after seven days. Neither service asks whether it is
  the token of a session, so it does so after a logout, a rotation or a change of the password.
\<close>
theorem refresh_token_opens_routes:
  assumes "jwt_ok (ah_jwt h)" and "users_ok (as_users s)"
    and "\<forall>u\<in>set (rows (as_users s)). us_ID u \<le> 2 ^ 53 \<and> us_Role u \<noteq> []"
    and "AuthHandler_Login h env r s = (Success (D_tokens access refresh), s')" and "refresh \<noteq> []"
    and "GetHeader ''Authorization'' q = ''Bearer '' @ refresh"
    and "now < (ae_now env + refreshTokenTTL) div second * second"
    and "nc_jwt ncfg = ah_jwt h" and "nc_jwtSecret ncfg = ah_jwtSecret h"
  shows "\<exists>email password u. bind_LoginRequest h (rq_body r) = Some (email, password) \<and>
    lookup_user (as_users s) (us_ID u) = Some u \<and> us_Email u = email \<and>
    (authMiddleware (ah_jwt h) now (ah_jwtSecret h) q :: 'd response + request) =
      Inr (SetHeader ''X-User-ROLE'' (us_Role u) (SetHeader ''X-User-ID'' (fmtG (f64_of_nat (us_ID u))) q)) \<and>
    requireAuth ncfg now q = Some (us_ID u)"
  using assms(4)
proof (cases rule: Login_cases)
  case (ok email password u access' refresh')
  then have same: "refresh' = refresh" by simp
  have lookup: "lookup_user (as_users s) (us_ID u) = Some u" "us_Email u = email"
    using users.login_Inr [OF assms(2) ok(2)] by simp_all
  then have u: "us_ID u \<le> 2 ^ 53" "us_Role u \<noteq> []"
    using assms(3) by (auto simp: lookup_user_def dest: find_SomeD)
  let ?c = "refresh_claims env (us_ID u) (us_Role u)"
  have sign: "jwt_Sign (ah_jwt h) (ah_jwtSecret h) ?c = Some refresh"
    using ok(3) same by (cases rule: issueSession_cases) auto
  have c: "tc_user_id ?c = us_ID u" "tc_role ?c = us_Role u" "now < tc_exp ?c * second"
    using assms(7) by (simp_all add: refresh_claims_def)
  have "authMiddleware (ah_jwt h) now (ah_jwtSecret h) q =
      (Inr (SetHeader ''X-User-ROLE'' (us_Role u) (SetHeader ''X-User-ID'' (fmtG (f64_of_nat (us_ID u))) q)) :: 'd response + request)"
    using authMiddleware_signed [OF assms(1) sign _ _ c(3) assms(6,5)] u c(1,2) by simp
  moreover have "requireAuth ncfg now q = Some (us_ID u)"
    using jwt_okD [OF assms(1) sign _ c(3)] u c(1) assms(6,8,9)
    by (simp add: requireAuth_def Let_def TrimPrefix_def)
  ultimately show ?thesis using ok(1) lookup by blast
qed simp

text \<open>Six days after the login, with the refresh token.\<close>

definition demo_login :: request where
  "demo_login = demo_request ''POST'' ''/login'' [(''email'', Raw_str ''a@x''), (''password'', Raw_str ''secret12'')]"

definition demo_bearer :: "string \<Rightarrow> request" where
  "demo_bearer tok = \<lparr>rq_method = ''GET'', rq_path = ''/notifications'', rq_headers = (\<lambda>k. if k = ''Authorization'' then ''Bearer '' @ tok else []),
     rq_query = (\<lambda>_. []), rq_ip = ''10.0.0.1'', rq_body = None\<rparr>"

lemma demo_login_reply:
  "fst (AuthHandler_Login demo_auth demo_env demo_login demo_state) = Success (D_tokens ''A1'' ''R2'')"
proof -
  have "bind_LoginRequest demo_auth (rq_body demo_login) = Some (''a@x'', ''secret12'')" by code_simp
  moreover have "AuthUsecase_Login (ah_bcrypt demo_auth) userRepository (ae_users_ft demo_env) ''a@x'' ''secret12'' (as_users demo_state) =
      Inr (hd (rows demo_users))" by code_simp
  moreover have "us_ID (hd (rows demo_users)) = 1" "us_Role (hd (rows demo_users)) = ''agent''" by (simp_all add: demo_users_def)
  moreover have "fst (issueSession demo_auth demo_env 1 ''agent'' (as_sessions demo_state)) = Inr (''A1'', ''R2'')" by code_simp
  ultimately show ?thesis
    by (cases "issueSession demo_auth demo_env 1 ''agent'' (as_sessions demo_state)") (simp add: AuthHandler_Login_def)
qed

theorem refresh_token_opens_routes_witness:
  "fst (AuthHandler_Login demo_auth demo_env demo_login demo_state) = Success (D_tokens ''A1'' ''R2'') \<and>
   requireAuth \<lparr>nc_jwt = ah_jwt demo_auth, nc_jwtSecret = ''k'', nc_oob = (\<lambda>_. 0)\<rparr> (518400 * second) (demo_bearer ''R2'') = Some 1"
proof
  let ?n = "\<lparr>nc_jwt = ah_jwt demo_auth, nc_jwtSecret = ''k'', nc_oob = (\<lambda>_. 0)\<rparr>"
  show "fst (AuthHandler_Login demo_auth demo_env demo_login demo_state) = Success (D_tokens ''A1'' ''R2'')"
    by (rule demo_login_reply)
  note l = step_pair [OF demo_login_reply]
  have "GetHeader ''Authorization'' (demo_bearer ''R2'') = ''Bearer '' @ ''R2''"
    by (simp add: demo_bearer_def GetHeader_def)
  moreover have "518400 * second < (ae_now demo_env + refreshTokenTTL) div second * second" by code_simp
  moreover have "\<forall>u\<in>set (rows (as_users demo_state)). us_ID u \<le> 2 ^ 53 \<and> us_Role u \<noteq> []" "users_ok (as_users demo_state)"
    by (auto simp: demo_state_def demo_users_ok) (simp_all add: demo_users_def)
  ultimately obtain u where "lookup_user (as_users demo_state) (us_ID u) = Some u"
    "requireAuth ?n (518400 * second) (demo_bearer ''R2'') = Some (us_ID u)"
    using refresh_token_opens_routes [where ncfg = ?n, OF demo_auth_jwt _ _ l, of "demo_bearer ''R2''" "518400 * second"]
    by (auto simp: demo_auth_def)
  then show "requireAuth ?n (518400 * second) (demo_bearer ''R2'') = Some 1"
    by (auto simp: lookup_user_def demo_state_def demo_users_def split: if_splits)
qed

subsection \<open>An event, from the request to the list and the connections\<close>

text \<open>Whom an event is for, and the keys that fit the columns.\<close>

definition event_for :: "Event \<Rightarrow> uint \<Rightarrow> string \<Rightarrow> bool" where
  "event_for e userID role \<longleftrightarrow> (case ev_TargetUserID e of Some u \<Rightarrow> userID = u | None \<Rightarrow> role \<in> set (ev_TargetRoles e))"

definition ids_fit :: "TicketDb \<Rightarrow> bool" where
  "ids_fit d \<longleftrightarrow> (\<forall>t\<in>set (rows (db_tickets d)). ti_ID t < 2 ^ 64 \<and> ti_UserID t < 2 ^ 64 \<and>
     (\<forall>a. ti_AssignedAgentID t = Some a \<longrightarrow> a < 2 ^ 64))"

lemma valid_roles: "to_valid ''admin'' = ''admin''" "to_valid ''agent'' = ''agent''"
  by code_simp+

lemma target_event:
  assumes "event_target_ok d role e" and "ids_fit d"
  shows "event_ok e" and "map to_valid (ev_TargetRoles e) = ev_TargetRoles e" and "\<exists>u role'. event_for e u role'"
proof -
  obtain t where t: "get_ticket (ev_TicketID e) d = Some t"
    and target: "ev_TargetUserID e = None \<and> ev_TargetRoles e = [''admin'', ''agent''] \<or>
      ev_TargetUserID e = ti_AssignedAgentID t \<and> ev_TargetUserID e \<noteq> None \<and> ev_TargetRoles e = [] \<or>
      ev_TargetUserID e = Some (ti_UserID t) \<and> ev_TargetRoles e = [] \<or>
      ev_TargetUserID e = ti_AssignedAgentID t \<and> ev_TargetRoles e = (if ti_AssignedAgentID t = None then [''admin''] else [])"
    using assms(1) unfolding event_target_ok_def by (metis (no_types))
  have "t \<in> set (rows (db_tickets d))" "ti_ID t = ev_TicketID e"
    using t by (auto simp: get_ticket_def dest: find_SomeD)
  then show "event_ok e" using assms(2) target by (auto simp: event_ok_def ids_fit_def)
  show "map to_valid (ev_TargetRoles e) = ev_TargetRoles e" using target by (auto simp: valid_roles)
  show "\<exists>u role'. event_for e u role'"
    using target by (cases "ti_AssignedAgentID t") (auto simp: event_for_def intro: exI [of _ "''admin''"])
qed

lemma newest_first:
  assumes "\<forall>n\<in>set (rows t). no_CreatedAt n < now" and "0 < limit"
  shows "\<exists>ns. Notifications_FindByUser (\<lambda>_. False) tie u False limit 0 (insert_row (new_row now u body) t) =
    Inr (loaded (new_row now u body (seq t)) # ns)"
proof -
  let ?new = "new_row now u body (seq t)" and ?key = "\<lambda>n. (- no_CreatedAt n, tie (no_ID n))"
  let ?own = "filter (\<lambda>n. no_UserID n = u) (rows (insert_row (new_row now u body) t))"
  have own: "set ?own \<subseteq> insert ?new (set (rows t))" "?new \<in> set ?own" by (auto simp: insert_row_def new_row_def)
  then have "sort_key ?key ?own \<noteq> []" by (simp only: sort_key_Nil) (rule in_set_nonempty)
  then obtain x xs where s: "sort_key ?key ?own = x # xs" by (cases "sort_key ?key ?own") simp_all
  have set: "set (sort_key ?key ?own) = set ?own" by (rule set_sort)
  then have "x \<in> set ?own" unfolding s by auto
  moreover have "?key x \<le> ?key n" if "n \<in> set ?own" for n
  proof -
    have "n \<in> set (x # xs)" using that set unfolding s by blast
    moreover have "sorted (map ?key (x # xs))" unfolding s [symmetric] by (rule sorted_sort_key)
    ultimately show ?thesis by auto
  qed
  ultimately have "x = ?new" using own assms(1) by (force simp: new_row_def)
  then show ?thesis
    using s assms(2) by (auto simp: Notifications_FindByUser_def select_page_def take_Cons' )
qed

lemma others_unchanged:
  "v \<noteq> u \<Longrightarrow> Notifications_FindByUser ft tie v unread limit offset (insert_row (new_row now u body) t) =
    Notifications_FindByUser ft tie v unread limit offset t"
  by (simp add: Notifications_FindByUser_def select_page_def insert_row_def new_row_def)

lemma event_arrives:
  assumes "event_target_ok d role e" and "ids_fit d"
  shows "addressed (Marshal_Event e) c \<longleftrightarrow> event_for e (cl_userID c) (cl_role c)"
    and "length q < broadcast_cap \<Longrightarrow> \<exists>out. broadcast_delivery (Marshal_Event e) q = (True, q @ [out]) \<and> outbound_of (Marshal_Event e) out"
    and "persist_delivery (\<lambda>_. False) False now (Marshal_Event e) t =
      (True, case ev_TargetUserID e of None \<Rightarrow> t | Some u \<Rightarrow> insert_row (new_row now u (Marshal_Event e)) t)"
proof -
  note te = target_event [OF assms]
  have decoded: "Unmarshal_event (Marshal_Event e) = Some (clean_event e)" by (rule Unmarshal_Marshal [OF te(1)])
  have clean: "ev_TargetUserID (clean_event e) = ev_TargetUserID e" "ev_TargetRoles (clean_event e) = ev_TargetRoles e"
    using te(2) by (simp_all add: clean_event_def)
  show a: "addressed (Marshal_Event e) c \<longleftrightarrow> event_for e (cl_userID c) (cl_role c)" for c
    by (simp add: addressed_def event_for_def decoded clean split: option.split)
  show "\<exists>out. broadcast_delivery (Marshal_Event e) q = (True, q @ [out]) \<and> outbound_of (Marshal_Event e) out" if "length q < broadcast_cap"
  proof -
    obtain u role' where "event_for e u role'" using te(3) by blast
    then have "addressed (Marshal_Event e) \<lparr>cl_conn = 0, cl_role = role', cl_userID = u\<rparr>" by (simp add: a)
    then show ?thesis using that by (rule broadcast_enqueued)
  qed
  show "persist_delivery (\<lambda>_. False) False now (Marshal_Event e) t =
      (True, case ev_TargetUserID e of None \<Rightarrow> t | Some u \<Rightarrow> insert_row (new_row now u (Marshal_Event e)) t)"
  proof (cases "ev_TargetUserID e")
    case None
    then show ?thesis by (simp add: persist_delivery_def persist_body_def decoded clean)
  next
    case (Some u)
    then have "stored_for (Marshal_Event e) = Some u" by (simp add: stored_for_def decoded clean)
    then show ?thesis using Some by (simp add: persist_stored)
  qed
qed

text \<open>
  What the lists show of a message stored at a time: the user it is for finds it first, unread, if
  it is newer than the other rows; everybody else's list is the same as before. The requests are
  for the first page with the default limit.
\<close>

definition listed_for :: "uint option \<Rightarrow> string \<Rightarrow> time \<Rightarrow> notifications \<Rightarrow> notifications \<Rightarrow> bool" where
  "listed_for target m now t t' \<longleftrightarrow> (\<forall>ncfg nenv nr v.
     requireAuth ncfg (ne_now nenv) nr = Some v \<and> ne_ft nenv = (\<lambda>_. False) \<and> rq_query nr = (\<lambda>_. []) \<longrightarrow>
       (if target = Some v
        then (\<forall>n\<in>set (rows t). no_CreatedAt n < now) \<longrightarrow>
          (\<exists>x xs. fst (NotificationHandler_List ncfg nenv nr t') = Success (N_list (x # xs)) \<and>
             no_Payload x = m \<and> no_UserID x = v \<and> \<not> no_Read x)
        else fst (NotificationHandler_List ncfg nenv nr t') = fst (NotificationHandler_List ncfg nenv nr t)))"

lemma first_page:
  assumes "requireAuth ncfg (ne_now nenv) nr = Some v" and "ne_ft nenv = (\<lambda>_. False)" and "rq_query nr = (\<lambda>_. [])"
  shows "fst (NotificationHandler_List ncfg nenv nr t) =
    (case Notifications_FindByUser (\<lambda>_. False) (ne_tie nenv) v False 20 0 t of
       Inl _ \<Rightarrow> Error 500 ''failed to list notifications'' ''INTERNAL_ERROR'' | Inr ns \<Rightarrow> Success (N_list ns))"
  using assms by (simp add: NotificationHandler_List_def notif_limit_def notif_offset_def positive_param_def
      notif_defaultPageLimit_def notif_maxPageLimit_def Let_def split: sum.split)

lemma stored_is_listed:
  "listed_for target m now t (case target of None \<Rightarrow> t | Some u \<Rightarrow> insert_row (new_row now u m) t)"
proof (cases target)
  case None
  then show ?thesis by (simp add: listed_for_def)
next
  case (Some u)
  show ?thesis unfolding listed_for_def
  proof (intro allI impI, elim conjE)
    fix ncfg and nenv :: NotifEnv and nr :: request and v
    assume "requireAuth ncfg (ne_now nenv) nr = Some v" "ne_ft nenv = (\<lambda>_. False)" "rq_query nr = (\<lambda>_. [])"
    note page = first_page [OF this]
    show "if target = Some v
        then (\<forall>n\<in>set (rows t). no_CreatedAt n < now) \<longrightarrow>
          (\<exists>x xs. fst (NotificationHandler_List ncfg nenv nr (case target of None \<Rightarrow> t | Some u \<Rightarrow> insert_row (new_row now u m) t)) =
             Success (N_list (x # xs)) \<and> no_Payload x = m \<and> no_UserID x = v \<and> \<not> no_Read x)
        else fst (NotificationHandler_List ncfg nenv nr (case target of None \<Rightarrow> t | Some u \<Rightarrow> insert_row (new_row now u m) t)) =
          fst (NotificationHandler_List ncfg nenv nr t)"
      using newest_first [of t now 20 "ne_tie nenv" u m] Some
      by (auto simp: page others_unchanged loaded_def new_row_def)
  qed
qed

text \<open>
  C2. A message reaches whom it is for, from the request to the screen. Whatever request makes
  ticket-service publish a message, that message is an event about an existing ticket with the
  target the event contract asks for; every replica of notification-service queues it, while there
  is room, for exactly the connections of the target user or roles; the persist consumer, when the
  database answers, stores it once if it has a target user; it is then the first entry, unread, of
  that user's list (being newer than the other rows), and nobody else's list changes.
\<close>
theorem event_reaches_its_target:
  assumes "service_ok (tv_db srv)" and "ticket_handle cfg rd env r srv = (reply, srv')" and "ids_fit (tv_db srv')"
    and "tv_published srv' = tv_published srv @ [m]"
  shows "\<exists>e. m = Marshal_Event e \<and> event_target_ok (tv_db srv') (GetHeader ''X-User-ROLE'' r) e \<and>
    (\<forall>c. addressed m c \<longleftrightarrow> event_for e (cl_userID c) (cl_role c)) \<and>
    (\<forall>q. length q < broadcast_cap \<longrightarrow> (\<exists>out. broadcast_delivery m q = (True, q @ [out]) \<and> outbound_of m out)) \<and>
    (\<forall>now t. \<exists>t'. persist_delivery (\<lambda>_. False) False now m t = (True, t') \<and>
       length (rows t') = length (rows t) + (if ev_TargetUserID e = None then 0 else 1) \<and>
       listed_for (ev_TargetUserID e) m now t t')"
proof -
  obtain e where e: "m = Marshal_Event e" "event_target_ok (tv_db srv') (GetHeader ''X-User-ROLE'' r) e"
    using handle_publishes [OF assms(1,2)] assms(4) by auto
  note arrives = event_arrives [OF e(2) assms(3), folded e(1)]
  show ?thesis
  proof (intro exI [of _ e] conjI allI)
    fix now and t :: notifications
    show "\<exists>t'. persist_delivery (\<lambda>_. False) False now m t = (True, t') \<and>
        length (rows t') = length (rows t) + (if ev_TargetUserID e = None then 0 else 1) \<and> listed_for (ev_TargetUserID e) m now t t'"
      using stored_is_listed [of "ev_TargetUserID e" m now t] unfolding arrives(3)
      by (auto simp: insert_row_def split: option.split)
  qed (use e arrives in auto)
qed

text \<open>A comment of agent 9 on a ticket of user 5.\<close>

definition demo_comment :: request where
  "demo_comment = demo_treq ''POST'' ''/tickets/1/comments'' ''9'' ''agent'' (Some (Raw_obj [(''body'', Raw_str ''on it'')]))"

lemma demo_comment_handled:
  "ticket_handle demo_tconfig False demo_tenv demo_comment srv = run_handler (CommentHandler_Create demo_tconfig demo_tenv demo_comment ''1'') srv"
  by (simp add: ticket_handle_def ticket_health_def ticket_routes_def demo_comment_def demo_treq_def demo_tconfig_def
      InternalOnlyMiddleware_def GetHeader_def Let_def)

lemma demo_comment_published:
  "length (tv_published (snd (ticket_handle demo_tconfig False demo_tenv demo_comment (demo_tserver demo_db)))) = 1"
  "ids_fit (tv_db (snd (ticket_handle demo_tconfig False demo_tenv demo_comment (demo_tserver demo_db))))"
proof -
  let ?c = "CommentUsecase_Create (te_ft demo_tenv) (te_now demo_tenv) 1 9 ''agent'' ''on it'' False demo_db"
  have u: "requireUser demo_comment = Inr (9, ''agent'')" "id_param ''1'' = Some 1"
    "bind_CreateCommentRequest (rq_body demo_comment) = Some (''on it'', False)" by code_simp+
  have "case fst ?c of Inr (c, t) \<Rightarrow> \<not> co_IsInternal c | Inl e \<Rightarrow> False" by code_simp
  then obtain c t d' where c: "?c = (Inr (c, t), d')" "\<not> co_IsInternal c"
    by (cases ?c) (auto split: sum.splits)
  have "map (\<lambda>t. (ti_ID t, ti_UserID t, ti_AssignedAgentID t)) (rows (db_tickets (snd ?c))) = [(1, 5, Some 9)]" by code_simp
  then have "\<forall>t\<in>set (rows (db_tickets d')). (ti_ID t, ti_UserID t, ti_AssignedAgentID t) = (1, 5, Some 9)"
    unfolding c by (auto simp: map_eq_Cons_conv)
  then have fit: "ids_fit d'" by (auto simp: ids_fit_def)
  have "CommentHandler_Create demo_tconfig demo_tenv demo_comment ''1'' demo_db =
      (Success (T_comment c), publishEvent True (activity_event EventTicketCommented 1 ''on it'' t ''agent''), d')"
    using c by (simp add: CommentHandler_Create_def with_ticket_def u demo_tconfig_def del: One_nat_def)
  then show "length (tv_published (snd (ticket_handle demo_tconfig False demo_tenv demo_comment (demo_tserver demo_db)))) = 1"
    "ids_fit (tv_db (snd (ticket_handle demo_tconfig False demo_tenv demo_comment (demo_tserver demo_db))))"
    using fit by (simp_all add: demo_comment_handled run_handler_def demo_tserver_def publishEvent_def)
qed

theorem event_reaches_its_target_witness:
  "\<exists>m. tv_published (snd (ticket_handle demo_tconfig False demo_tenv demo_comment (demo_tserver demo_db))) = [m] \<and>
     (\<forall>now t. \<exists>u t'. persist_delivery (\<lambda>_. False) False now m t = (True, t') \<and> listed_for u m now t t')"
proof -
  obtain reply srv' where h: "ticket_handle demo_tconfig False demo_tenv demo_comment (demo_tserver demo_db) = (reply, srv')" by fastforce
  then obtain m where m: "tv_published srv' = [m]"
    using demo_comment_published(1) by (auto simp: length_Suc_conv)
  have "service_ok (tv_db (demo_tserver demo_db))" "ids_fit (tv_db srv')" "tv_published srv' = tv_published (demo_tserver demo_db) @ [m]"
    using service_ok_demo_db demo_comment_published(2) h m by (simp_all add: demo_tserver_def)
  from event_reaches_its_target [OF this(1) h this(2,3)] show ?thesis using h m by fastforce
qed

end
