(* ===== verification/TicketPrivacy.thy ===== *)
theory TicketPrivacy
  imports TicketSafety
begin

section \<open>Confidentiality, immutability and paging in ticket-service\<close>

text \<open>
  Two runs are compared: databases that differ only in their internal notes look the same to
  every user, and no request of anybody makes them look different. Attachments are never changed
  once they are stored. The pages of a ticket list follow each other without gap or overlap.
\<close>

subsection \<open>Internal notes are invisible to users\<close>

definition hide :: "TicketDb \<Rightarrow> TicketDb" where
  "hide d = d\<lparr>db_comments := delete_where co_IsInternal (db_comments d)\<rparr>"

definition set_comments :: "TicketComment table \<Rightarrow> TicketDb \<Rightarrow> TicketDb" where
  "set_comments c d = d\<lparr>db_comments := c\<rparr>"

text \<open>The operations that do not look at the comments.\<close>

lemma get_ticket_comments [simp]: "get_ticket i (set_comments c d) = get_ticket i d"
  by (simp add: get_ticket_def set_comments_def)

lemma set_comments_sel [simp]:
  "db_tickets (set_comments c d) = db_tickets d" "db_history (set_comments c d) = db_history d"
  "db_comments (set_comments c d) = c" "db_attachments (set_comments c d) = db_attachments d"
  by (simp_all add: set_comments_def)

lemma reads_comments [simp]:
  "Tickets_FindByID ft i (set_comments c d) = Tickets_FindByID ft i d"
  "TicketUsecase_GetTicketByID ft i u role (set_comments c d) = TicketUsecase_GetTicketByID ft i u role d"
  "TicketUsecase_GetTicketHistory fts i u role (set_comments c d) = TicketUsecase_GetTicketHistory fts i u role d"
  "TicketUsecase_GetTickets ft now u role scope f l off (set_comments c d) = TicketUsecase_GetTickets ft now u role scope f l off d"
  "AssignTicket_check ft i u role target (set_comments c d) = AssignTicket_check ft i u role target d"
  "UpdateStatus_check ft i u role st (set_comments c d) = UpdateStatus_check ft i u role st d"
  "AttachmentUsecase_List fts i u role (set_comments c d) = AttachmentUsecase_List fts i u role d"
  "AttachmentUsecase_Get fts i j u role (set_comments c d) = AttachmentUsecase_Get fts i j u role d"
  by (simp_all add: Tickets_FindByID_def TicketUsecase_GetTicketByID_def TicketUsecase_GetTicketHistory_def Tickets_FindHistory_def
      ticket_history_def TicketUsecase_GetTickets_def Tickets_FindAll_def Tickets_FindByUser_def Tickets_FindByAgent_def
      Tickets_FindUnassigned_def find_tickets_def AssignTicket_check_def UpdateStatus_check_def AttachmentUsecase_List_def
      Attachments_FindByTicket_def AttachmentUsecase_Get_def Attachments_FindByID_def get_attachment_def
      cong: sum.case_cong option.case_cong if_cong)

lemma reports_comments [simp]:
  "Reports_SummaryByPeriod period ft from to g (set_comments c d) = Reports_SummaryByPeriod period ft from to g d"
  "Reports_AgentPerformance ft from to (set_comments c d) = Reports_AgentPerformance ft from to d"
  "ReportUsecase_CriticalTrend ft now h (set_comments c d) = ReportUsecase_CriticalTrend ft now h d"
  "Reports_QueueSize ft (set_comments c d) = Reports_QueueSize ft d"
  by (simp_all add: Reports_SummaryByPeriod_def Reports_AgentPerformance_def ReportUsecase_CriticalTrend_def
      Reports_HighPriorityTrend_def Reports_QueueSize_def)

lemma create_comments:
  "TicketUsecase_Create ft now t (set_comments c d) = map_prod id (set_comments c) (TicketUsecase_Create ft now t d)"
  by (simp add: TicketUsecase_Create_def Tickets_Create_def exec_stmt_def)

lemma upload_comments:
  "AttachmentUsecase_Create fts now i u role name ct data (set_comments c d) =
    map_prod id (set_comments c) (AttachmentUsecase_Create fts now i u role name ct data d)"
  by (auto simp: AttachmentUsecase_Create_def Attachments_Create_def exec_stmt_def split: sum.split)

lemma history_comments: "insert_history i s s' u now (set_comments c d) = set_comments c (insert_history i s s' u now d)"
  by (simp add: insert_history_def)

lemma update_comments: "update_ticket i f (set_comments c d) = set_comments c (update_ticket i f d)"
  by (simp add: update_ticket_def)

lemma rollback_comments: "rollback_db (set_comments c d) (set_comments c d') = set_comments c (rollback_db d d')"
  by (simp add: rollback_db_def)

lemma assign_comments:
  "TicketUsecase_AssignTicket fts now i u role target (set_comments c d) =
    map_prod id (set_comments c) (TicketUsecase_AssignTicket fts now i u role target d)"
  by (auto simp: TicketUsecase_AssignTicket_def Tickets_AssignAndTransition_def in_transaction.simps exec_stmt_def Let_def
      history_comments update_comments rollback_comments split: sum.split)

lemma status_comments:
  "TicketUsecase_UpdateStatus fts now i u role st (set_comments c d) =
    map_prod id (set_comments c) (TicketUsecase_UpdateStatus fts now i u role st d)"
  by (auto simp: TicketUsecase_UpdateStatus_def Tickets_TransitionStatus_def in_transaction.simps exec_stmt_def Let_def
      history_comments update_comments rollback_comments split: sum.split)

definition comment_free :: "(TicketDb \<Rightarrow> ticket_reply) \<Rightarrow> bool" where
  "comment_free h \<longleftrightarrow> (\<forall>c d. h (set_comments c d) = (case h d of (reply, msgs, d') \<Rightarrow> (reply, msgs, set_comments c d')))"

lemma comment_free_with_ticket:
  "(\<And>u role i. comment_free (k u role i)) \<Longrightarrow> comment_free (with_ticket r p k)"
  by (simp add: comment_free_def with_ticket_def reply_only_def split: sum.split option.split)

lemma comment_free_handlers:
  "comment_free (TicketHandler_Create cfg env r)" "comment_free (TicketHandler_GetTickets env r)"
  by (auto simp: comment_free_def TicketHandler_Create_def TicketHandler_GetTickets_def reply_only_def create_comments
      split: option.split sum.split prod.split)

lemma comment_free_ticket_handlers:
  "comment_free (TicketHandler_GetByID env r p)" "comment_free (TicketHandler_GetHistory env r p)"
  "comment_free (TicketHandler_Assign cfg env r p)" "comment_free (TicketHandler_UpdateStatus cfg env r p)"
  "comment_free (AttachmentHandler_Create cfg env r p)" "comment_free (AttachmentHandler_List env r p)"
  "comment_free (AttachmentHandler_Download env r p q)"
  unfolding TicketHandler_GetByID_def TicketHandler_GetHistory_def TicketHandler_Assign_def TicketHandler_UpdateStatus_def
    AttachmentHandler_Create_def AttachmentHandler_List_def AttachmentHandler_Download_def
  by (rule comment_free_with_ticket; auto simp: comment_free_def reply_only_def assign_comments status_comments upload_comments Let_def
      split: option.split sum.split prod.split)+

lemma comment_free_reports:
  "comment_free (ReportHandler_Summary cfg env r)" "comment_free (ReportHandler_AgentPerformance env r)"
  "comment_free (ReportHandler_CriticalTrend env r)" "comment_free (ReportHandler_QueueSize env r)"
  unfolding comment_free_def ReportHandler_Summary_def ReportHandler_AgentPerformance_def ReportHandler_CriticalTrend_def ReportHandler_QueueSize_def
  by (simp_all add: with_admin_def reply_only_def split: sum.split prod.split)

text \<open>Two databases that differ in nothing but internal notes.\<close>

lemma hide_sel [simp]:
  "db_tickets (hide d) = db_tickets d" "db_history (hide d) = db_history d"
  "db_comments (hide d) = delete_where co_IsInternal (db_comments d)" "db_attachments (hide d) = db_attachments d"
  by (simp_all add: hide_def)

lemma hide_eq:
  assumes "hide d = hide d'"
  shows "d' = set_comments (db_comments d') d" and "seq (db_comments d') = seq (db_comments d)"
    and "delete_where co_IsInternal (db_comments d') = delete_where co_IsInternal (db_comments d)"
proof -
  have e: "db_tickets d' = db_tickets d" "db_history d' = db_history d" "db_attachments d' = db_attachments d"
    "delete_where co_IsInternal (db_comments d') = delete_where co_IsInternal (db_comments d)"
    using assms by (metis hide_sel)+
  then show "d' = set_comments (db_comments d') d" by (cases d, cases d') (simp add: set_comments_def)
  show "delete_where co_IsInternal (db_comments d') = delete_where co_IsInternal (db_comments d)" by (fact e)
  then show "seq (db_comments d') = seq (db_comments d)" by (metis seq_delete_where)
qed

lemma hide_set_comments:
  "delete_where co_IsInternal c = delete_where co_IsInternal (db_comments d) \<Longrightarrow> hide (set_comments c d) = hide d"
  by (simp add: hide_def set_comments_def)

definition same_view :: "bool \<Rightarrow> ticket_reply \<Rightarrow> ticket_reply \<Rightarrow> bool" where
  "same_view user x y \<longleftrightarrow> (user \<longrightarrow> fst x = fst y) \<and> fst (snd x) = fst (snd y) \<and> hide (snd (snd x)) = hide (snd (snd y))"

lemma comment_free_view:
  assumes "comment_free h" and "hide d = hide d'"
  shows "same_view user (h d) (h d')"
proof -
  note e = hide_eq [OF assms(2)]
  obtain reply msgs d1 where h: "h d = (reply, msgs, d1)" by (cases "h d") auto
  have "d = set_comments (db_comments d) d" by (simp add: set_comments_def)
  then have "h d = (reply, msgs, set_comments (db_comments d) d1)"
    using assms(1) h unfolding comment_free_def by (metis (no_types, lifting) case_prod_conv)
  then have "db_comments d1 = db_comments d" using h by (metis prod.inject set_comments_sel(3))
  moreover have "h d' = (reply, msgs, set_comments (db_comments d') d1)"
    using assms(1) h e(1) unfolding comment_free_def by (metis (no_types, lifting) case_prod_conv)
  ultimately show ?thesis using h e(3) hide_set_comments [of "db_comments d'" d1] by (simp add: same_view_def)
qed

lemma public_comments:
  "filter (\<lambda>c. \<not> co_IsInternal c) (ticket_comments i d) = ticket_comments i (hide d)"
  by (simp add: ticket_comments_def filter_sort) (simp add: filter_filter conj_commute)

lemma insert_hidden:
  "delete_where P (insert_row mk t) = (if P (mk (seq t)) then (delete_where P t)\<lparr>seq := Suc (seq t)\<rparr> else insert_row mk (delete_where P t))"
  by (simp add: delete_where_def insert_row_def)

lemma comment_create_view:
  assumes "hide d = hide d'" and "CommentUsecase_Create fts now i u role body internal d = (z, d1)"
  shows "\<exists>d1'. CommentUsecase_Create fts now i u role body internal d' = (z, d1') \<and> hide d1 = hide d1'"
proof -
  note e = hide_eq [OF assms(1)]
  have g: "TicketUsecase_GetTicketByID (fts 0) i u role d' = TicketUsecase_GetTicketByID (fts 0) i u role d"
    by (subst e(1)) simp
  have "hide (d\<lparr>db_comments := insert_row mk (db_comments d)\<rparr>) = hide (d'\<lparr>db_comments := insert_row mk (db_comments d')\<rparr>)" for mk
  proof -
    have "hide (d'\<lparr>db_comments := insert_row mk (db_comments d')\<rparr>) = d\<lparr>db_comments := delete_where co_IsInternal (insert_row mk (db_comments d'))\<rparr>"
      by (subst (1) e(1)) (simp add: hide_def set_comments_def)
    then show ?thesis using e(2,3) by (simp add: hide_def insert_hidden)
  qed
  with assms g e(2) show ?thesis
    by (auto simp: CommentUsecase_Create_def Comments_Create_def exec_stmt_def split: sum.splits if_splits)
qed

definition staff :: "request \<Rightarrow> bool" where
  "staff r \<longleftrightarrow> GetHeader ''X-User-ROLE'' r \<in> {''agent'', ''admin''}"

lemma comment_handlers_view:
  assumes "hide d = hide d'"
  shows "same_view (\<not> staff r) (CommentHandler_Create cfg env r p d) (CommentHandler_Create cfg env r p d')"
    and "same_view (\<not> staff r) (CommentHandler_List env r p d) (CommentHandler_List env r p d')"
proof -
  note e = hide_eq [OF assms]
  show "same_view (\<not> staff r) (CommentHandler_Create cfg env r p d) (CommentHandler_Create cfg env r p d')"
  proof (cases "requireUser r")
    case (Inr ur)
    obtain u role where "ur = (u, role)" by (cases ur)
    with Inr assms comment_create_view [OF assms] show ?thesis
      by (fastforce simp: same_view_def CommentHandler_Create_def with_ticket_def reply_only_def split: option.split sum.splits prod.splits)
  qed (use assms in \<open>simp add: same_view_def CommentHandler_Create_def with_ticket_def reply_only_def\<close>)
  have "CommentUsecase_List fts i u ''user'' d' = CommentUsecase_List fts i u ''user'' d" for fts i u
    using assms e(1) public_comments [of i d] public_comments [of i d'] reads_comments(2) [of "fts 0" i u "''user''" "db_comments d'" d]
    by (simp add: CommentUsecase_List_def Comments_FindByTicket_def split: sum.split)
  then have l: "CommentUsecase_List fts i u role d' = CommentUsecase_List fts i u role d"
    if "requireUser r = Inr (u, role)" "\<not> staff r" for fts i u role
    using requireUser_role [OF that(1)] that(2) by (auto simp: staff_def)
  show "same_view (\<not> staff r) (CommentHandler_List env r p d) (CommentHandler_List env r p d')"
  proof (cases "staff r")
    case True
    then show ?thesis
      using assms by (auto simp: same_view_def CommentHandler_List_def with_ticket_def reply_only_def split: option.split sum.split)
  next
    case False
    with l show ?thesis
      using assms by (auto simp: same_view_def CommentHandler_List_def with_ticket_def reply_only_def split: option.split sum.split)
  qed
qed

lemma chain_view: "ticket_chain cfg env r h \<Longrightarrow> hide d = hide d' \<Longrightarrow> same_view (\<not> staff r) (h d) (h d')"
  by (erule ticket_chain.cases)
    (simp_all add: comment_handlers_view comment_free_view comment_free_handlers comment_free_ticket_handlers comment_free_reports)

definition same_server :: "TicketServer \<Rightarrow> TicketServer \<Rightarrow> bool" where
  "same_server s s' \<longleftrightarrow> hide (tv_db s) = hide (tv_db s') \<and> tv_limiter s = tv_limiter s' \<and> tv_published s = tv_published s'"

lemma run_handler_view:
  assumes "ticket_chain cfg env r h" and "same_server s s'"
  shows "same_server (snd (run_handler h s)) (snd (run_handler h s')) \<and> (\<not> staff r \<longrightarrow> fst (run_handler h s) = fst (run_handler h s'))"
  using chain_view [OF assms(1), of "tv_db s" "tv_db s'"] assms(2)
  by (auto simp: same_server_def run_handler_def same_view_def split: prod.split)

lemma ticket_handle_view:
  assumes "same_server s s'"
  shows "same_server (snd (ticket_handle cfg rd env r s)) (snd (ticket_handle cfg rd env r s')) \<and>
    (\<not> staff r \<longrightarrow> fst (ticket_handle cfg rd env r s) = fst (ticket_handle cfg rd env r s'))"
proof -
  have l: "same_server (s\<lparr>tv_limiter := rl\<rparr>) (s'\<lparr>tv_limiter := rl\<rparr>)" for rl using assms by (simp add: same_server_def)
  have eq: "tv_limiter s = tv_limiter s'" using assms by (simp add: same_server_def)
  show ?thesis
  proof (cases "find_route (rq_method r) (tl (Split (CHR ''/'') (rq_path r))) (ticket_routes cfg env r)")
    case None
    then show ?thesis using assms by (simp add: ticket_handle_def split: option.split)
  next
    case (Some lh)
    obtain b h where lh: "lh = (b, h)" by (cases lh)
    note v = run_handler_view [OF route_chain [OF Some [unfolded lh]]]
    show ?thesis using Some lh v [OF assms] v [OF l] l assms
      by (simp add: ticket_handle_def eq split: option.split prod.split)
  qed
qed

text \<open>
  C20. Confidentiality of internal notes. Take two runs of the service that start from states
  which differ in nothing but the internal notes of staff (their text, author, number or ticket),
  and send both the same requests, of users, agents and administrators, in the same order: every
  reply to a user is the same in both runs, and so is every message published. Internal notes
  cannot be observed by a user through any route; only the ids of later comments show that the
  sequence of comment ids has moved on.
\<close>
theorem internal_notes_confidential:
  assumes "same_server s s'"
  shows "same_server (run_steps (ticket_serve cfg) reqs s) (run_steps (ticket_serve cfg) reqs s') \<and>
    (\<forall>k<length reqs. \<not> staff (snd (snd (reqs ! k))) \<longrightarrow>
       step_results (ticket_serve cfg) reqs s ! k = step_results (ticket_serve cfg) reqs s' ! k)"
  using assms
proof (induction reqs arbitrary: s s')
  case (Cons rq reqs)
  obtain rd env r where rq: "rq = (rd, env, r)" by (cases rq)
  note v = ticket_handle_view [OF Cons.prems, of cfg rd env r]
  from Cons.IH [OF v [THEN conjunct1]] v show ?case
    by (auto simp: rq nth_Cons split: nat.split)
qed simp

definition note_db :: "string \<Rightarrow> TicketDb" where
  "note_db body = demo_db\<lparr>db_comments := \<lparr>rows = [\<lparr>co_ID = 1, co_TicketID = 1, co_AuthorID = 9, co_AuthorRole = ''agent'', co_Body = body,
     co_IsInternal = True, co_CreatedAt = 40\<rparr>], seq = 2\<rparr>\<rparr>"

theorem internal_notes_confidential_witness:
  "fst (ticket_handle demo_tconfig False demo_tenv (demo_treq ''GET'' ''/tickets/1/comments'' ''5'' ''user'' None) (demo_tserver (note_db ''secret''))) =
   fst (ticket_handle demo_tconfig False demo_tenv (demo_treq ''GET'' ''/tickets/1/comments'' ''5'' ''user'' None) (demo_tserver (note_db ''other'')))"
proof -
  have s: "same_server (demo_tserver (note_db ''secret'')) (demo_tserver (note_db ''other''))"
    by (simp add: same_server_def demo_tserver_def note_db_def hide_def delete_where_def)
  show ?thesis
    using internal_notes_confidential [OF s, of demo_tconfig "[(False, demo_tenv, demo_treq ''GET'' ''/tickets/1/comments'' ''5'' ''user'' None)]"]
    by (simp add: staff_def demo_treq_def GetHeader_def)
qed

subsection \<open>Attachments never change\<close>

lemma attachments_grow:
  assumes "ticket_effect cfg env r d msgs d'"
  shows "\<exists>as. rows (db_attachments d') = rows (db_attachments d) @ as"
  using assms
proof (cases rule: ticket_effect.cases)
  case (commented u role i body internal c t)
  then show ?thesis using comment_create_effect [OF commented(3)] by simp
next
  case (attached u role i name ct data a t)
  then show ?thesis using attachment_create_effect [OF attached(3)] by simp
qed (auto simp: same_rows_def dest: create_extras assign_extras update_extras)

lemma attachments_grow_run:
  "\<exists>as. rows (db_attachments (tv_db (run_steps (ticket_serve cfg) reqs srv))) = rows (db_attachments (tv_db srv)) @ as"
proof (induction reqs arbitrary: srv)
  case (Cons rq reqs)
  obtain rd env r where rq: "rq = (rd, env, r)" by (cases rq)
  obtain reply srv1 where h: "ticket_handle cfg rd env r srv = (reply, srv1)" by fastforce
  then obtain msgs where "ticket_effect cfg env r (tv_db srv) msgs (tv_db srv1)" by (rule ticket_handle_effect)
  then obtain as where "rows (db_attachments (tv_db srv1)) = rows (db_attachments (tv_db srv)) @ as"
    using attachments_grow by blast
  moreover obtain bs where "rows (db_attachments (tv_db (run_steps (ticket_serve cfg) reqs srv1))) = rows (db_attachments (tv_db srv1)) @ bs"
    using Cons.IH by blast
  ultimately show ?case using h rq by simp
qed simp

lemma find_append: "List.find P (xs @ ys) = (case List.find P xs of Some x \<Rightarrow> Some x | None \<Rightarrow> List.find P ys)"
  by (induction xs) auto

lemma attachment_stays:
  "get_attachment j (tv_db srv) = Some a \<Longrightarrow> get_attachment j (tv_db (run_steps (ticket_serve cfg) reqs srv)) = Some a"
  using attachments_grow_run [of cfg reqs srv] by (auto simp: get_attachment_def find_append)

lemma upload_reply:
  assumes "ticket_chain cfg env r h" and "h d = (Success (T_attachment a), msgs, d')"
  obtains f data i u role t a' where "te_file env = Some f" and "fh_data f = Some data" and "a = attachment_json a'"
    and "AttachmentUsecase_Create (te_ft env) (te_now env) i u role (fh_Filename f)
      (if fh_ContentType f = [] then ''application/octet-stream'' else fh_ContentType f) data d = (Inr (a', t), d')"
proof -
  have "\<exists>p. h = AttachmentHandler_Create cfg env r p"
    using assms
    by (cases rule: ticket_chain.cases) (auto simp: TicketHandler_Create_def TicketHandler_Assign_def TicketHandler_UpdateStatus_def
        TicketHandler_GetTickets_def TicketHandler_GetByID_def TicketHandler_GetHistory_def CommentHandler_Create_def CommentHandler_List_def
        AttachmentHandler_List_def AttachmentHandler_Download_def report_handlers with_ticket_def reply_only_def map_sum_eq_Inr
        split: option.splits sum.splits prod.splits if_splits)
  then obtain p where h: "AttachmentHandler_Create cfg env r p d = (Success (T_attachment a), msgs, d')" using assms(2) by blast
  show ?thesis
    using h
    by (auto simp: AttachmentHandler_Create_def with_ticket_def reply_only_def Let_def
        split: option.splits sum.splits prod.splits if_splits intro: that)
qed

text \<open>
  The name of a downloaded file as its receiver reads it: net/http writes a header value with its
  newlines as spaces and its ends trimmed, and the value of the parameter is a quoted string (RFC 6266, RFC 9110), which
  ends at the first quote that no backslash precedes.
\<close>

definition TrimString :: "string \<Rightarrow> string" where
  "TrimString s =
     (let space = (\<lambda>c. c \<in> {CHR '' '', CHR 0x09, CHR 0x0A, CHR 0x0D}) in rev (dropWhile space (rev (dropWhile space s))))"

definition header_value :: "string \<Rightarrow> string" where
  "header_value v = TrimString (map (\<lambda>c. if c = CHR 0x0D \<or> c = CHR 0x0A then CHR '' '' else c) v)"

fun quoted_string :: "string \<Rightarrow> string option" where
  "quoted_string [] = None"
| "quoted_string (c # cs) =
     (if c = CHR 0x22 then Some []
      else if c = CHR 0x5C then (case cs of [] \<Rightarrow> None | d # ds \<Rightarrow> map_option ((#) d) (quoted_string ds))
      else map_option ((#) c) (quoted_string cs))"

definition read_filename :: "string \<Rightarrow> string option" where
  "read_filename v =
     (let start = ''attachment; filename='' @ [CHR 0x22] in
      if take (length start) v = start then quoted_string (drop (length start) v) else None)"

definition plain_name :: "string \<Rightarrow> bool" where
  "plain_name name \<longleftrightarrow> set name \<inter> {CHR 0x22, CHR 0x5C, CHR 0x0D, CHR 0x0A} = {}"

lemma quoted_string_shorter: "quoted_string s = Some t \<Longrightarrow> length t < length s"
proof (induction s arbitrary: t rule: quoted_string.induct)
  case (2 c cs)
  then show ?case by (cases cs) (fastforce split: if_splits)+
qed simp

lemma quoted_string_plain:
  "quoted_string (map (\<lambda>c. if c = CHR 0x0D \<or> c = CHR 0x0A then CHR '' '' else c) name @ [CHR 0x22]) = Some name \<longleftrightarrow> plain_name name"
proof (induction name)
  case Nil
  show ?case by (simp add: plain_name_def)
next
  case (Cons c name)
  let ?f = "map (\<lambda>c. if c = CHR 0x0D \<or> c = CHR 0x0A then CHR '' '' else c)"
  show ?case
  proof (cases "c = CHR 0x5C")
    case True
    have "map_option ((#) d) (quoted_string ds) \<noteq> Some (c # name)" if "?f name @ [CHR 0x22] = d # ds" for d ds
    proof
      assume "map_option ((#) d) (quoted_string ds) = Some (c # name)"
      then have "quoted_string ds = Some name" by auto
      moreover have "length ds = length name" using arg_cong [OF that, of length] by simp
      ultimately show False using quoted_string_shorter by fastforce
    qed
    with True show ?thesis by (auto simp: plain_name_def split: list.split)
  next
    case False
    with Cons.IH show ?thesis by (auto simp: plain_name_def)
  qed
qed

lemma header_value_disposition:
  "header_value (content_disposition name) = ''attachment; filename='' @ [CHR 0x22] @
     map (\<lambda>c. if c = CHR 0x0D \<or> c = CHR 0x0A then CHR '' '' else c) name @ [CHR 0x22]"
  by (simp add: header_value_def content_disposition_def TrimString_def)

lemma read_filename_plain:
  "read_filename (header_value (content_disposition name)) = Some name \<longleftrightarrow> plain_name name"
  using quoted_string_plain by (simp add: read_filename_def header_value_disposition)

text \<open>
  C21. Attachments: once an upload is acknowledged, its download returns exactly the uploaded
  bytes with their content type, at any later time, after any requests of anybody; but only under
  the ticket it was uploaded to and only to those who may see that ticket at that time. Under any
  other ticket the same id is "not found". The file name is put between quotes as it is, and comes
  back as it was uploaded exactly when it has no quote, backslash or line break in it.
\<close>
theorem attachment_download:
  assumes "service_ok (tv_db srv)" and "ticket_handle cfg rd env r srv = (Success (T_attachment a), srv1)"
    and "srv2 = run_steps (ticket_serve cfg) reqs srv1"
    and "requireUser r' = Inr (u, role)" and "id_param p = Some i" and "id_param q = Some (at_ID a)" and "\<forall>k j. \<not> te_ft env' k j"
  shows "\<exists>f data. te_file env = Some f \<and> fh_data f = Some data \<and>
    fst (AttachmentHandler_Download env' r' p q (tv_db srv2)) =
      (if i = at_TicketID a \<and> (\<exists>t. get_ticket i (tv_db srv2) = Some t \<and>
           (role = ''admin'' \<or> role = ''agent'' \<and> ti_AssignedAgentID t = Some u \<or> role = ''user'' \<and> ti_UserID t = u))
       then Success (T_file (if fh_ContentType f = [] then ''application/octet-stream'' else fh_ContentType f)
         (content_disposition (fh_Filename f)) data)
       else Error 404 ''attachment not found'' ''NOT_FOUND'') \<and>
    (read_filename (header_value (content_disposition (fh_Filename f))) = Some (fh_Filename f) \<longleftrightarrow>
      set (fh_Filename f) \<inter> {CHR 0x22, CHR 0x5C, CHR 0x0D, CHR 0x0A} = {})"
proof (cases rule: ticket_handle_cases [OF assms(2)])
  case 1
  then show ?thesis by (auto simp: ticket_health_def split: if_splits)
next
  case (2 h msgs)
  obtain f data i0 u0 role0 t0 a' where f: "te_file env = Some f" "fh_data f = Some data" and a: "a = attachment_json a'"
    and up: "AttachmentUsecase_Create (te_ft env) (te_now env) i0 u0 role0 (fh_Filename f)
      (if fh_ContentType f = [] then ''application/octet-stream'' else fh_ContentType f) data (tv_db srv) = (Inr (a', t0), tv_db srv1)"
    by (rule upload_reply [OF 2(1,2)])
  note e = attachment_create_effect [OF up]
  have "keys_ok at_ID (db_attachments (tv_db srv1))"
    using attachment_create_ok [of "tv_db srv"] up assms(1) by (metis service_ok_def extras_ok_def snd_conv)
  moreover have "a' \<in> set (rows (db_attachments (tv_db srv1)))" using e by simp
  ultimately have "get_attachment (at_ID a') (tv_db srv1) = Some a'"
    using find_by_key [of at_ID "db_attachments (tv_db srv1)" a'] by (simp add: get_attachment_def)
  then have "get_attachment (at_ID a') (tv_db srv2) = Some a'"
    unfolding assms(3) by (rule attachment_stays)
  moreover have "at_ContentType a' = (if fh_ContentType f = [] then ''application/octet-stream'' else fh_ContentType f)"
    "at_Filename a' = fh_Filename f" "at_Data a' = data" "at_ID a = at_ID a'" "at_TicketID a = at_TicketID a'"
    using e a by (simp_all add: attachment_json_def)
  ultimately show ?thesis
    using f assms(4-7) requireUser_role [OF assms(4)] read_filename_plain [unfolded plain_name_def, of "fh_Filename f"]
    by (auto simp: AttachmentHandler_Download_def with_ticket_def reply_only_def AttachmentUsecase_Get_def Attachments_FindByID_def
        TicketUsecase_GetTicketByID_def Tickets_FindByID_def split: option.split)
qed

text \<open>A file named a"b: its download names it a.\<close>

definition demo_file :: FileHeader where
  "demo_file = \<lparr>fh_Filename = [CHR ''a'', CHR 0x22, CHR ''b''], fh_ContentType = [], fh_Size = 2, fh_opens = True, fh_data = Some ''ab''\<rparr>"

definition demo_attachment :: TicketAttachment where
  "demo_attachment = \<lparr>at_ID = 1, at_TicketID = 1, at_UploaderID = 5, at_Filename = [CHR ''a'', CHR 0x22, CHR ''b''],
     at_ContentType = ''application/octet-stream'', at_Size = 2, at_Data = [], at_CreatedAt = 10\<rparr>"

definition demo_upload :: "ticket_data response \<times> TicketServer" where
  "demo_upload = ticket_handle (demo_tconfig\<lparr>tg_publisher := False\<rparr>) False (demo_tenv\<lparr>te_file := Some demo_file\<rparr>)
     (demo_treq ''POST'' ''/tickets/1/attachments'' ''5'' ''user'' None) (demo_tserver demo_db)"

lemma demo_upload_reply: "fst demo_upload = Success (T_attachment demo_attachment)"
  by code_simp

theorem attachment_download_witness:
  "fst (AttachmentHandler_Download demo_tenv (demo_treq ''GET'' ''/tickets/1/attachments/1'' ''5'' ''user'' None) ''1'' ''1'' (tv_db (snd demo_upload))) =
     Success (T_file ''application/octet-stream'' (content_disposition (fh_Filename demo_file)) ''ab'') \<and>
   read_filename (header_value (content_disposition (fh_Filename demo_file))) \<noteq> Some (fh_Filename demo_file) \<and>
   read_filename (header_value (content_disposition (fh_Filename demo_file))) = Some ''a''"
proof -
  let ?r = "demo_treq ''GET'' ''/tickets/1/attachments/1'' ''5'' ''user'' None"
  have ok: "service_ok (tv_db (demo_tserver demo_db))" using service_ok_demo_db by (simp add: demo_tserver_def)
  have h: "ticket_handle (demo_tconfig\<lparr>tg_publisher := False\<rparr>) False (demo_tenv\<lparr>te_file := Some demo_file\<rparr>)
     (demo_treq ''POST'' ''/tickets/1/attachments'' ''5'' ''user'' None) (demo_tserver demo_db) =
    (Success (T_attachment demo_attachment), snd demo_upload)"
    using demo_upload_reply by (metis demo_upload_def prod.collapse)
  have u: "requireUser ?r = Inr (5, ''user'')" and i: "id_param ''1'' = Some 1" by code_simp+
  have o: "map_option ti_UserID (get_ticket 1 (tv_db (snd demo_upload))) = Some 5" by code_simp
  have q: "id_param ''1'' = Some (at_ID demo_attachment)" by (simp add: i demo_attachment_def)
  have n: "\<forall>k j. \<not> te_ft demo_tenv k j" by (simp add: demo_tenv_def)
  have s2: "snd demo_upload = run_steps (ticket_serve (demo_tconfig\<lparr>tg_publisher := False\<rparr>)) [] (snd demo_upload)" by simp
  have a: "read_filename (header_value (content_disposition (fh_Filename demo_file))) = Some ''a''" by code_simp
  from attachment_download [OF ok h s2 u i q n] o a show ?thesis
    by (auto simp: demo_file_def demo_attachment_def)
qed

subsection \<open>Paging\<close>

definition ticket_scope :: "uint \<Rightarrow> string \<Rightarrow> string \<Rightarrow> Ticket \<Rightarrow> bool" where
  "ticket_scope u role scope t \<longleftrightarrow>
     (if role = ''admin'' then True
      else if role = ''agent'' then (if scope = ''queue'' then ti_AssignedAgentID t = None else ti_AssignedAgentID t = Some u)
      else ti_UserID t = u)"

lemma GetTickets_scope:
  "TicketUsecase_GetTickets ft now u role scope f l off = find_tickets (ticket_scope u role scope) ft now f l off"
  by (auto simp: fun_eq_iff TicketUsecase_GetTickets_def Tickets_FindAll_def Tickets_FindByUser_def Tickets_FindByAgent_def
      Tickets_FindUnassigned_def ticket_scope_def find_tickets_def)

definition page_request :: "request \<Rightarrow> nat \<Rightarrow> nat \<Rightarrow> request" where
  "page_request r p l = r\<lparr>rq_query := (rq_query r)(''page'' := show_nat p, ''limit'' := show_nat l)\<rparr>"

lemma page_request_frame [simp]:
  "requireUser (page_request r p l) = requireUser r" "filter_of (page_request r p l) = filter_of r"
  "rq_query (page_request r p l) ''scope'' = rq_query r ''scope''"
  by (simp_all add: page_request_def requireUser_def GetHeader_def filter_of_def)

lemma page_limit_request:
  "1 \<le> p \<Longrightarrow> p < 2 ^ 63 \<Longrightarrow> 1 \<le> l \<Longrightarrow> l \<le> 100 \<Longrightarrow> page_limit (page_request r p l) = (int p, int l)"
  by (simp add: page_limit_def page_request_def query_int_def maxPageLimit_def Let_def)

fun tickets_of :: "ticket_data response \<Rightarrow> Ticket list" where
  "tickets_of (Success (T_tickets ts)) = ts"
| "tickets_of _ = []"

text \<open>All tickets of the caller's scope that pass the filter, newest first.\<close>

definition matching_tickets :: "TicketEnv \<Rightarrow> request \<Rightarrow> uint \<Rightarrow> string \<Rightarrow> TicketDb \<Rightarrow> Ticket list" where
  "matching_tickets env r u role d = sort_key (\<lambda>t. - int (ti_ID t))
     (filter (\<lambda>t. ticket_scope u role (rq_query r ''scope'') t \<and> applyFilter (te_now env) (filter_of r) t) (rows (db_tickets d)))"

lemma page_reply:
  assumes "requireUser r = Inr (u, role)" and "\<forall>k j. \<not> te_ft env k j" and "1 \<le> p" and "p < 2 ^ 63" and "1 \<le> l" and "l \<le> 100"
  shows "fst (TicketHandler_GetTickets env (page_request r p l) d) = Success (T_tickets
    (take l (drop (nat (wrap64 ((int p - 1) * int l))) (matching_tickets env r u role d))))"
  using assms page_limit_request [OF assms(3-6), of r]
  by (simp add: TicketHandler_GetTickets_def reply_only_def GetTickets_scope find_tickets_def select_page_def matching_tickets_def page_offset_def)

text \<open>
  C22. Paging: with a page size of 1 to 100 the pages 1, 2, ..., n of a list are, one after the
  other, its first n times l tickets, newest first, without gap or overlap, for the same caller
  and filter, as long as n times l fits into 63 bits. Beyond that the 64-bit offset wraps around:
  the page with number 2^62 + 1 of size 2 is the first page again.
\<close>
theorem ticket_pages:
  assumes "requireUser r = Inr (u, role)" and "\<forall>k j. \<not> te_ft env k j" and "1 \<le> l" and "l \<le> 100" and "n * l < 2 ^ 63"
  shows "concat (map (\<lambda>p. tickets_of (fst (TicketHandler_GetTickets env (page_request r (Suc p) l) d))) [0..<n]) =
      take (n * l) (matching_tickets env r u role d) \<and>
    fst (TicketHandler_GetTickets env (page_request r (2 ^ 62 + 1) 2) d) = fst (TicketHandler_GetTickets env (page_request r 1 2) d)"
proof
  let ?m = "matching_tickets env r u role d"
  have page: "tickets_of (fst (TicketHandler_GetTickets env (page_request r (Suc p) l) d)) = take l (drop (p * l) ?m)" if "p < n" for p
  proof -
    have "p * l < n * l" using that assms(3) by simp
    then have b: "p * l < 2 ^ 63" using assms(5) by (rule less_trans)
    have "p \<le> p * l" using assms(3) by simp
    moreover have "n \<le> n * l" using assms(3) by simp
    ultimately have "Suc p < 2 ^ 63" using that assms(5) by linarith
    moreover have "int (p * l) < 2 ^ 63" using b of_nat_less_iff [of "p * l" "2 ^ 63", where ?'a = int] by simp
    then have "wrap64 (int p * int l) = int (p * l)" by (simp flip: of_nat_mult)
    ultimately show ?thesis
      using page_reply [OF assms(1,2) _ _ assms(3,4), of "Suc p" d] by (simp flip: of_nat_mult)
  qed
  have "concat (map (\<lambda>p. take l (drop (p * l) ?m)) [0..<k]) = take (k * l) ?m" for k
  proof (induction k)
    case (Suc k)
    have "take (Suc k * l) ?m = take (k * l) ?m @ take l (drop (k * l) ?m)"
      using take_add [of "k * l" l ?m] by (simp add: add.commute)
    with Suc show ?case by (simp del: mult_Suc)
  qed simp
  moreover have "map (\<lambda>p. tickets_of (fst (TicketHandler_GetTickets env (page_request r (Suc p) l) d))) [0..<n] =
      map (\<lambda>p. take l (drop (p * l) ?m)) [0..<n]" using page by (intro map_cong) auto
  ultimately show "concat (map (\<lambda>p. tickets_of (fst (TicketHandler_GetTickets env (page_request r (Suc p) l) d))) [0..<n]) = take (n * l) ?m"
    by (simp only:)
  have w: "wrap64 ((int (2 ^ 62 + 1) - 1) * int 2) = - (2 ^ 63)" by (simp add: wrap64_def)
  show "fst (TicketHandler_GetTickets env (page_request r (2 ^ 62 + 1) 2) d) = fst (TicketHandler_GetTickets env (page_request r 1 2) d)"
    using page_reply [OF assms(1,2), of "2 ^ 62 + 1" 2 d] page_reply [OF assms(1,2), of 1 2 d] unfolding w by simp
qed

theorem ticket_pages_witness:
  "concat (map (\<lambda>p. tickets_of (fst (TicketHandler_GetTickets demo_tenv
      (page_request (demo_treq ''GET'' ''/tickets'' ''5'' ''user'' None) (Suc p) 1) demo_summary))) [0..<2]) =
    take 2 (matching_tickets demo_tenv (demo_treq ''GET'' ''/tickets'' ''5'' ''user'' None) 5 ''user'' demo_summary)"
proof -
  have u: "requireUser (demo_treq ''GET'' ''/tickets'' ''5'' ''user'' None) = Inr (5, ''user'')" by code_simp
  have n: "\<forall>k j. \<not> te_ft demo_tenv k j" by (simp add: demo_tenv_def)
  from ticket_pages [OF u n, of 1 2 demo_summary] show ?thesis by simp
qed

end
