(* ===== verification/QueueTopology.thy ===== *)
theory QueueTopology
  imports Prelude "HOL-Library.Multiset"
begin

section \<open>The broker topology both services declare\<close>

text \<open>
  \<open>queueargs.go\<close> (the same in both services), the declarations that the publisher of
  ticket-service (\<open>dialAMQP\<close>) and the two consumers of notification-service (\<open>consumePersist\<close>,
  \<open>consumeBroadcast\<close>) make when they connect, and \<open>dialWithRetry\<close>. The source demands that the
  declarations agree, since RabbitMQ refuses to declare an exchange or queue again with other
  attributes; here that is a theorem. The broker is its documented behaviour: declaring creates
  or compares, binding and consuming need what they name.
\<close>

abbreviation QueueTypeClassic :: string where "QueueTypeClassic \<equiv> ''classic''"
abbreviation QueueTypeQuorum :: string where "QueueTypeQuorum \<equiv> ''quorum''"

abbreviation eventsExchange :: string where "eventsExchange \<equiv> ''ticket_events''"
abbreviation dlxExchange :: string where "dlxExchange \<equiv> ''ticket_events.dlx''"
abbreviation dlqQueue :: string where "dlqQueue \<equiv> ''ticket_events.dlq''"
abbreviation persistQueue :: string where "persistQueue \<equiv> ''ticket_created''"

definition ValidateQueueType :: "string \<Rightarrow> bool" where
  "ValidateQueueType t \<longleftrightarrow> \<not> (t \<noteq> QueueTypeClassic \<and> t \<noteq> QueueTypeQuorum)"

type_synonym amqp_Table = "string \<rightharpoonup> string"

definition mainQueueArgs :: "string \<Rightarrow> amqp_Table" where
  "mainQueueArgs queueType =
     (let args = [''x-dead-letter-exchange'' \<mapsto> dlxExchange]
      in if queueType = QueueTypeQuorum then args(''x-queue-type'' \<mapsto> QueueTypeQuorum) else args)"

definition dlqArgs :: "string \<Rightarrow> amqp_Table" where
  "dlqArgs queueType = (if queueType = QueueTypeQuorum then [''x-queue-type'' \<mapsto> QueueTypeQuorum] else Map.empty)"

subsection \<open>Calls on a channel\<close>

record exchange_attrs =
  ex_kind :: string
  ex_durable :: bool
  ex_autoDelete :: bool
  ex_internal :: bool

record queue_attrs =
  qu_durable :: bool
  qu_autoDelete :: bool
  qu_exclusive :: bool
  qu_args :: amqp_Table

datatype amqp_call =
    ExchangeDeclare string exchange_attrs
  | QueueDeclare string queue_attrs
  | QueueBind string string string  \<comment> \<open>queue, routing key, exchange\<close>
  | Consume string bool  \<comment> \<open>queue, automatic acknowledgement\<close>
  | Confirm

definition durable_fanout :: exchange_attrs where
  "durable_fanout = \<lparr>ex_kind = ''fanout'', ex_durable = True, ex_autoDelete = False, ex_internal = False\<rparr>"

definition durable_queue :: "amqp_Table \<Rightarrow> queue_attrs" where
  "durable_queue args = \<lparr>qu_durable = True, qu_autoDelete = False, qu_exclusive = False, qu_args = args\<rparr>"

definition consumePersist_calls :: "string \<Rightarrow> amqp_call list" where
  "consumePersist_calls queueType =
     [ExchangeDeclare eventsExchange durable_fanout,
      ExchangeDeclare dlxExchange durable_fanout,
      QueueDeclare dlqQueue (durable_queue (dlqArgs queueType)),
      QueueBind dlqQueue [] dlxExchange,
      QueueDeclare persistQueue (durable_queue (mainQueueArgs queueType)),
      QueueBind persistQueue [] eventsExchange,
      Consume persistQueue False]"

text \<open>The queue of a replica has a name the server makes up.\<close>

definition consumeBroadcast_calls :: "string \<Rightarrow> amqp_call list" where
  "consumeBroadcast_calls name =
     [ExchangeDeclare eventsExchange durable_fanout,
      QueueDeclare name \<lparr>qu_durable = False, qu_autoDelete = True, qu_exclusive = True, qu_args = Map.empty\<rparr>,
      QueueBind name [] eventsExchange,
      Consume name False]"

definition publisher_calls :: "string \<Rightarrow> amqp_call list" where
  "publisher_calls queueType =
     [ExchangeDeclare eventsExchange durable_fanout,
      ExchangeDeclare dlxExchange durable_fanout,
      QueueDeclare dlqQueue (durable_queue (dlqArgs queueType)),
      QueueBind dlqQueue [] dlxExchange,
      QueueDeclare persistQueue (durable_queue (mainQueueArgs queueType)),
      QueueBind persistQueue [] eventsExchange,
      Confirm]"

subsection \<open>The broker\<close>

record topology =
  tp_exchanges :: "string \<rightharpoonup> exchange_attrs"
  tp_queues :: "string \<rightharpoonup> queue_attrs"
  tp_bindings :: "(string \<times> string) set"  \<comment> \<open>exchange and queue\<close>

definition empty_topology :: topology where
  "empty_topology = \<lparr>tp_exchanges = Map.empty, tp_queues = Map.empty, tp_bindings = {}\<rparr>"

text \<open>\<open>None\<close>: the broker closes the channel (406 PRECONDITION_FAILED or 404 NOT_FOUND).\<close>

fun broker_call :: "amqp_call \<Rightarrow> topology \<Rightarrow> topology option" where
  "broker_call (ExchangeDeclare n a) t =
     (case tp_exchanges t n of
        None \<Rightarrow> Some (t\<lparr>tp_exchanges := (tp_exchanges t)(n \<mapsto> a)\<rparr>)
      | Some a' \<Rightarrow> if a' = a then Some t else None)"
| "broker_call (QueueDeclare n a) t =
     (case tp_queues t n of
        None \<Rightarrow> Some (t\<lparr>tp_queues := (tp_queues t)(n \<mapsto> a)\<rparr>)
      | Some a' \<Rightarrow> if a' = a then Some t else None)"
| "broker_call (QueueBind q key x) t =
     (if tp_exchanges t x = None \<or> tp_queues t q = None then None
      else Some (t\<lparr>tp_bindings := insert (x, q) (tp_bindings t)\<rparr>))"
| "broker_call (Consume q auto) t = (if tp_queues t q = None then None else Some t)"
| "broker_call Confirm t = Some t"

datatype setup_result = Ready | Refused | Broken

text \<open>
  The calls in order, until one fails: refused by the broker, or because the connection broke
  (\<open>down k\<close> for the k-th call). Each failure ends the setup (\<open>return err\<close>, \<open>fail(err)\<close>).
\<close>

fun run_setup :: "(nat \<Rightarrow> bool) \<Rightarrow> nat \<Rightarrow> amqp_call list \<Rightarrow> topology \<Rightarrow> setup_result \<times> topology" where
  "run_setup down k [] t = (Ready, t)"
| "run_setup down k (c # cs) t =
     (if down k then (Broken, t)
      else case broker_call c t of None \<Rightarrow> (Refused, t) | Some t' \<Rightarrow> run_setup down (Suc k) cs t')"

text \<open>A connection that is set up: who connects, with which queue type, and where it breaks.\<close>

datatype connect = Persist string | Broadcast string | Publish string

fun calls_of :: "connect \<Rightarrow> amqp_call list" where
  "calls_of (Persist qt) = consumePersist_calls qt"
| "calls_of (Broadcast name) = consumeBroadcast_calls name"
| "calls_of (Publish qt) = publisher_calls qt"

fun connect_step :: "connect \<times> (nat \<Rightarrow> bool) \<Rightarrow> topology \<Rightarrow> setup_result \<times> topology" where
  "connect_step (c, down) t = run_setup down 0 (calls_of c) t"

text \<open>
  The exclusive queue of a replica: the server chooses a name that is not in use, and removes
  the queue with its bindings when the connection ends.
\<close>

definition end_broadcast :: "string \<Rightarrow> topology \<Rightarrow> topology" where
  "end_broadcast name t = t\<lparr>tp_queues := (tp_queues t)(name := None), tp_bindings := {b \<in> tp_bindings t. snd b \<noteq> name}\<rparr>"

subsection \<open>Dialling\<close>

text \<open>
  \<open>dialWithRetry\<close>: \<open>dial i\<close> is the outcome of the i-th attempt. The result carries how long the
  function slept. With no attempt at all it returns neither connection nor error.
\<close>

datatype ('c, 'e) dialled = Conn 'c | DialErr "'e option"

fun dialWithRetry :: "(nat \<Rightarrow> 'e + 'c) \<Rightarrow> nat \<Rightarrow> nat \<Rightarrow> duration \<Rightarrow> 'e option \<Rightarrow> ('c, 'e) dialled \<times> duration" where
  "dialWithRetry dial i 0 delay lastErr = (DialErr lastErr, 0)"
| "dialWithRetry dial i (Suc attempts) delay lastErr =
     (case dial i of
        Inr conn \<Rightarrow> (Conn conn, 0)
      | Inl err \<Rightarrow> (case dialWithRetry dial (Suc i) attempts delay (Some err) of (r, slept) \<Rightarrow> (r, delay + slept)))"

lemma dialWithRetry_Conn:
  "(\<exists>c slept. dialWithRetry dial i n delay e = (Conn c, slept)) \<longleftrightarrow> (\<exists>k<n. \<exists>c. dial (i + k) = Inr c)"
proof (induction n arbitrary: i e)
  case (Suc n)
  show ?case
  proof (cases "dial i")
    case (Inl x)
    have "(\<exists>c slept. dialWithRetry dial i (Suc n) delay e = (Conn c, slept)) \<longleftrightarrow>
        (\<exists>c slept. dialWithRetry dial (Suc i) n delay (Some x) = (Conn c, slept))"
      by (cases "dialWithRetry dial (Suc i) n delay (Some x)") (simp add: Inl)
    then show ?thesis using Suc [of "Suc i" "Some x"] by (simp add: Ex_less_Suc2 Inl)
  qed (auto simp: Ex_less_Suc2)
qed simp

lemma dialWithRetry_bounds:
  "0 \<le> delay \<Longrightarrow> dialWithRetry dial i n delay e = (r, slept) \<Longrightarrow> 0 \<le> slept \<and> slept \<le> int n * delay"
proof (induction n arbitrary: i e r slept)
  case (Suc n)
  then show ?case
    by (cases "dial i") (fastforce simp: distrib_right split: prod.splits)+
qed simp

lemma dialWithRetry_error: "dialWithRetry dial i n delay e = (DialErr None, slept) \<Longrightarrow> n = 0 \<and> e = None"
  by (induction n arbitrary: i e slept) (fastforce split: sum.splits prod.splits)+

subsection \<open>Clients connecting at the same time\<close>

text \<open>
  The calls of any number of clients, all configured with one queue type, interleave; a
  connection may break at any point, and a replica may go away. A client is what it connects as
  and the calls it has still to make.
\<close>

definition uses_queue :: "string \<Rightarrow> amqp_call list \<Rightarrow> bool" where
  "uses_queue name cs \<longleftrightarrow> (\<exists>c\<in>set cs. case c of QueueDeclare n a \<Rightarrow> n = name | QueueBind q k x \<Rightarrow> q = name | Consume q a \<Rightarrow> q = name | _ \<Rightarrow> False)"

definition allowed :: "string \<Rightarrow> connect \<Rightarrow> bool" where
  "allowed qt c \<longleftrightarrow> (case c of Persist q \<Rightarrow> q = qt | Publish q \<Rightarrow> q = qt | Broadcast name \<Rightarrow> name \<notin> {dlqQueue, persistQueue})"

inductive setups :: "string \<Rightarrow> topology \<Rightarrow> (connect \<times> amqp_call list) multiset \<Rightarrow> bool" for qt where
  no_clients: "setups qt empty_topology {#}"
| connect: "setups qt t M \<Longrightarrow> allowed qt c \<Longrightarrow> setups qt t (add_mset (c, calls_of c) M)"
| call: "setups qt t (add_mset (c, x # xs) M) \<Longrightarrow> broker_call x t = Some t' \<Longrightarrow> setups qt t' (add_mset (c, xs) M)"
| gone: "setups qt t (add_mset (c, xs) M) \<Longrightarrow> setups qt t M"
| replica_gone: "setups qt t M \<Longrightarrow> name \<notin> {dlqQueue, persistQueue} \<Longrightarrow> \<forall>e\<in>#M. \<not> uses_queue name (calls_of (fst e)) \<Longrightarrow>
    setups qt (end_broadcast name t) M"

text \<open>The attributes every declaration of a name gives it.\<close>

definition queue_decl :: "string \<Rightarrow> string \<Rightarrow> queue_attrs" where
  "queue_decl qt n =
     (if n = dlqQueue then durable_queue (dlqArgs qt)
      else if n = persistQueue then durable_queue (mainQueueArgs qt)
      else \<lparr>qu_durable = False, qu_autoDelete = True, qu_exclusive = True, qu_args = Map.empty\<rparr>)"

definition conforms :: "string \<Rightarrow> topology \<Rightarrow> bool" where
  "conforms qt t \<longleftrightarrow> (\<forall>n a. tp_exchanges t n = Some a \<longrightarrow> a = durable_fanout) \<and> (\<forall>n a. tp_queues t n = Some a \<longrightarrow> a = queue_decl qt n)"

fun call_conforms :: "string \<Rightarrow> amqp_call \<Rightarrow> bool" where
  "call_conforms qt (ExchangeDeclare n a) \<longleftrightarrow> a = durable_fanout"
| "call_conforms qt (QueueDeclare n a) \<longleftrightarrow> a = queue_decl qt n"
| "call_conforms qt _ \<longleftrightarrow> True"

text \<open>What a call leaves in the topology, and what it needs there.\<close>

fun done_call :: "topology \<Rightarrow> amqp_call \<Rightarrow> bool" where
  "done_call t (ExchangeDeclare n a) \<longleftrightarrow> tp_exchanges t n \<noteq> None"
| "done_call t (QueueDeclare n a) \<longleftrightarrow> tp_queues t n \<noteq> None"
| "done_call t (QueueBind q k x) \<longleftrightarrow> (x, q) \<in> tp_bindings t"
| "done_call t _ \<longleftrightarrow> True"

fun needs :: "amqp_call list \<Rightarrow> amqp_call \<Rightarrow> bool" where
  "needs pre (QueueBind q k x) \<longleftrightarrow> (\<exists>a. ExchangeDeclare x a \<in> set pre) \<and> (\<exists>a. QueueDeclare q a \<in> set pre)"
| "needs pre (Consume q auto) \<longleftrightarrow> (\<exists>a. QueueDeclare q a \<in> set pre)"
| "needs pre _ \<longleftrightarrow> True"

fun well_ordered :: "amqp_call list \<Rightarrow> amqp_call list \<Rightarrow> bool" where
  "well_ordered pre [] = True"
| "well_ordered pre (c # cs) = (needs pre c \<and> well_ordered (pre @ [c]) cs)"

lemma calls_conform: "allowed qt c \<Longrightarrow> x \<in> set (calls_of c) \<Longrightarrow> call_conforms qt x"
  by (cases c) (auto simp: allowed_def consumePersist_calls_def consumeBroadcast_calls_def publisher_calls_def queue_decl_def)

lemma calls_ordered: "well_ordered [] (calls_of c)"
  by (cases c) (simp_all add: consumePersist_calls_def consumeBroadcast_calls_def publisher_calls_def)

lemma well_ordered_at: "well_ordered pre (xs @ c # ys) \<Longrightarrow> needs (pre @ xs) c"
  by (induction xs arbitrary: pre) (auto simp: append_eq_append_conv2, metis append.assoc append_Cons append_Nil)

lemma broker_accepts:
  assumes "conforms qt t" "call_conforms qt c" "needs pre c" "\<forall>x\<in>set pre. done_call t x"
  shows "broker_call c t \<noteq> None"
  using assms by (cases c) (force simp: conforms_def split: option.splits)+

lemma broker_effect:
  assumes "broker_call c t = Some t'" "conforms qt t" "call_conforms qt c"
  shows "conforms qt t' \<and> done_call t' c \<and> (\<forall>x. done_call t x \<longrightarrow> done_call t' x)"
proof -
  have "done_call t x \<longrightarrow> done_call t' x" for x
    using assms(1) by (cases c; cases x) (auto split: option.splits if_splits)
  moreover have "done_call t' c" using assms(1) by (cases c) (auto split: option.splits if_splits)
  moreover have "conforms qt t'"
    using assms by (cases c) (auto simp: conforms_def split: option.splits if_splits)
  ultimately show ?thesis by blast
qed

definition client_ok :: "string \<Rightarrow> topology \<Rightarrow> connect \<times> amqp_call list \<Rightarrow> bool" where
  "client_ok qt t e \<longleftrightarrow> allowed qt (fst e) \<and> (\<exists>pre. calls_of (fst e) = pre @ snd e \<and> (\<forall>x\<in>set pre. done_call t x))"

lemma done_end: "done_call t x \<Longrightarrow> \<not> uses_queue name [x] \<Longrightarrow> done_call (end_broadcast name t) x"
  by (cases x) (auto simp: end_broadcast_def uses_queue_def)

lemma uses_queue_append [simp]: "uses_queue name (xs @ ys) \<longleftrightarrow> uses_queue name xs \<or> uses_queue name ys"
  by (auto simp: uses_queue_def)

lemma uses_queue_in: "x \<in> set xs \<Longrightarrow> uses_queue name [x] \<Longrightarrow> uses_queue name xs"
  by (auto simp: uses_queue_def)

lemma setups_ok: "setups qt t M \<Longrightarrow> conforms qt t \<and> (\<forall>e\<in>#M. client_ok qt t e)"
proof (induction rule: setups.induct)
  case no_clients
  show ?case by (simp add: conforms_def empty_topology_def)
next
  case (connect t M c)
  then show ?case by (auto simp: client_ok_def)
next
  case (call t c x xs M t')
  then obtain pre where pre: "allowed qt c" "calls_of c = pre @ x # xs" "\<forall>y\<in>set pre. done_call t y"
    by (auto simp: client_ok_def)
  have "call_conforms qt x" using calls_conform [OF pre(1)] pre(2) by simp
  then have eff: "conforms qt t'" "done_call t' x" "\<And>y. done_call t y \<Longrightarrow> done_call t' y"
    using broker_effect call by blast+
  have "client_ok qt t' e" if "client_ok qt t e" for e
    using that eff(3) by (auto simp: client_ok_def)
  moreover have "client_ok qt t' (c, xs)"
    using pre eff unfolding client_ok_def by (intro conjI exI [of _ "pre @ [x]"]) auto
  ultimately show ?case using call eff(1) by auto
next
  case (gone t c xs M)
  then show ?case by simp
next
  case (replica_gone t M name)
  have "client_ok qt (end_broadcast name t) e" if "e \<in># M" for e
  proof -
    have "client_ok qt t e" using replica_gone.IH that by blast
    then obtain pre where pre: "allowed qt (fst e)" "calls_of (fst e) = pre @ snd e" "\<forall>x\<in>set pre. done_call t x"
      unfolding client_ok_def by blast
    have "\<not> uses_queue name pre" using replica_gone.hyps(3) that pre(2) by force
    then have "\<forall>x\<in>set pre. done_call (end_broadcast name t) x" using pre(3) done_end uses_queue_in by blast
    with pre show ?thesis unfolding client_ok_def by blast
  qed
  moreover have "conforms qt (end_broadcast name t)"
    using replica_gone.IH by (auto simp: conforms_def end_broadcast_def split: if_splits)
  ultimately show ?case by blast
qed

text \<open>
  C26. The services agree on the topology: as long as all of them are configured with the same
  queue type, the broker never refuses a declaration, binding or subscription, whatever publishers
  and consumers connect in whatever order, their calls interleaved, connections breaking at any
  point. Once a publisher or persist consumer has finished connecting, every published event
  reaches the persistent queue and every rejected message the dead-letter queue.
\<close>
theorem topology_agrees:
  assumes "setups qt t (add_mset (c, xs) M)"
  shows "(case xs of [] \<Rightarrow> (case c of Broadcast name \<Rightarrow> (eventsExchange, name) \<in> tp_bindings t
      | _ \<Rightarrow> {(eventsExchange, persistQueue), (dlxExchange, dlqQueue)} \<subseteq> tp_bindings t \<and>
          tp_queues t persistQueue = Some (durable_queue (mainQueueArgs qt)))
    | x # _ \<Rightarrow> broker_call x t \<noteq> None)"
proof -
  have ok: "conforms qt t" "client_ok qt t (c, xs)" using setups_ok [OF assms] by auto
  then obtain pre where pre: "allowed qt c" "calls_of c = pre @ xs" "\<forall>x\<in>set pre. done_call t x"
    by (auto simp: client_ok_def)
  show ?thesis
  proof (cases xs)
    case Nil
    with pre have "\<forall>x\<in>set (calls_of c). done_call t x" by simp
    moreover have "queue_decl qt persistQueue = durable_queue (mainQueueArgs qt)" by (simp add: queue_decl_def)
    then have "tp_queues t persistQueue = Some a \<Longrightarrow> a = durable_queue (mainQueueArgs qt)" for a
      using ok(1) unfolding conforms_def by metis
    ultimately show ?thesis using Nil
      by (cases c) (auto simp: consumePersist_calls_def consumeBroadcast_calls_def publisher_calls_def)
  next
    case (Cons x ys)
    have "needs pre x" using calls_ordered [of c] well_ordered_at [of "[]" pre x ys] pre(2) Cons by simp
    moreover have "call_conforms qt x" using calls_conform [OF pre(1)] pre(2) Cons by simp
    ultimately show ?thesis using broker_accepts ok(1) pre(3) Cons by auto
  qed
qed

text \<open>The persist consumer of a quorum deployment, after its first call and at its second.\<close>

theorem topology_agrees_witness:
  "broker_call (ExchangeDeclare dlxExchange durable_fanout)
     (empty_topology\<lparr>tp_exchanges := [eventsExchange \<mapsto> durable_fanout]\<rparr>) \<noteq> None"
proof -
  let ?t = "empty_topology\<lparr>tp_exchanges := [eventsExchange \<mapsto> durable_fanout]\<rparr>"
  have "setups ''quorum'' empty_topology {#(Persist ''quorum'', calls_of (Persist ''quorum''))#}"
    by (rule connect [OF no_clients]) (simp add: allowed_def)
  then have "setups ''quorum'' empty_topology {#(Persist ''quorum'', ExchangeDeclare eventsExchange durable_fanout # tl (consumePersist_calls ''quorum''))#}"
    by (simp add: consumePersist_calls_def)
  then have "setups ''quorum'' ?t {#(Persist ''quorum'', tl (consumePersist_calls ''quorum''))#}"
    by (rule call) (simp add: empty_topology_def)
  from topology_agrees [OF this] show ?thesis by (simp add: consumePersist_calls_def)
qed

text \<open>With two different queue types the second service is refused for good.\<close>

lemma topology_mismatch:
  "fst (connect_step (Publish ''classic'', \<lambda>_. False) (snd (connect_step (Persist ''quorum'', \<lambda>_. False) empty_topology))) = Refused"
  by (simp add: consumePersist_calls_def publisher_calls_def empty_topology_def durable_queue_def dlqArgs_def)

end
