(* ===== verification/Publisher.thy ===== *)
theory Publisher
  imports QueueTopology
begin

section \<open>The publisher of ticket-service (internal/delivery/messaging/publisher.go)\<close>

text \<open>
  \<open>Publish\<close> runs in every request that produces an event, so many goroutines share one
  \<open>Publisher\<close>. Its blocks under the mutex are functions on the record; what a goroutine does
  around them is a program counter, and the goroutines interleave in a step relation. Sessions
  and channels are numbers. The log lines are left out, and the generation counter is unbounded
  (the source's \<open>uint64\<close> would need \<open>2 ^ 64\<close> reconnects to wrap).
\<close>

subsection \<open>Dialling the broker: dialAMQP\<close>

datatype amqp_resource = R_connection | R_channel

datatype dial_result = D_session | D_error | D_nil_connection

text \<open>The attempts: whether one succeeded and how long the loop slept; none after the last.\<close>

fun dial_attempts :: "(nat \<Rightarrow> bool) \<Rightarrow> nat \<Rightarrow> nat \<Rightarrow> duration \<Rightarrow> bool \<times> duration" where
  "dial_attempts ok i 0 delay = (False, 0)"
| "dial_attempts ok i (Suc left) delay =
     (if ok i then (True, 0)
      else case dial_attempts ok (Suc i) left delay of (r, slept) \<Rightarrow> (r, (if 0 < left then delay else 0) + slept))"

record DialEnv =
  de_dial :: "nat \<Rightarrow> bool"
  de_channel :: bool
  de_down :: "nat \<Rightarrow> bool"

text \<open>The result, the resources left open, the time slept, and the topology of the broker.\<close>

definition dialAMQP ::
  "string \<Rightarrow> DialEnv \<Rightarrow> nat \<Rightarrow> duration \<Rightarrow> topology \<Rightarrow> dial_result \<times> amqp_resource list \<times> duration \<times> topology" where
  "dialAMQP queueType env attempts delay t =
     (case dial_attempts (de_dial env) 0 attempts delay of
        (False, slept) \<Rightarrow> ((if attempts = 0 then D_nil_connection else D_error), [], slept, t)
      | (True, slept) \<Rightarrow>
          (let opened = [R_connection] in
           if \<not> de_channel env then (D_error, remove1 R_connection opened, slept, t)
           else
             (let opened = R_channel # opened;
                  fail = remove1 R_connection (remove1 R_channel opened)
              in case run_setup (de_down env) 0 (publisher_calls queueType) t of
                   (Ready, t') \<Rightarrow> (D_session, opened, slept, t')
                 | (_, t') \<Rightarrow> (D_error, fail, slept, t'))))"

definition maxStartupRetries :: nat where "maxStartupRetries = 15"
definition startupRetryDelay :: duration where "startupRetryDelay = 2 * second"
definition requestReconnectAttempts :: nat where "requestReconnectAttempts = 2"
definition requestReconnectDelay :: duration where "requestReconnectDelay = 500 * millisecond"
definition reconnectWait :: duration where "reconnectWait = 1500 * millisecond"
definition reconnectCooldown :: duration where "reconnectCooldown = 2 * second"

lemma dial_attempts_slept:
  "0 \<le> delay \<Longrightarrow> dial_attempts ok i n delay = (r, slept) \<Longrightarrow> 0 \<le> slept \<and> slept \<le> int (n - 1) * delay"
proof (induction n arbitrary: i r slept)
  case (Suc n)
  show ?case
  proof (cases "ok i")
    case False
    obtain r' s' where d: "dial_attempts ok (Suc i) n delay = (r', s')" by fastforce
    with Suc.IH [OF Suc.prems(1) d] Suc.prems False show ?thesis
      by (cases n) (auto simp: distrib_right)
  qed (use Suc.prems in auto)
qed simp

text \<open>A failed dial leaves nothing open; one made by a request sleeps at most half a second.\<close>

lemma dialAMQP_resources:
  "dialAMQP qt env attempts delay t = (r, opened, slept, t') \<Longrightarrow>
    opened = (if r = D_session then [R_channel, R_connection] else []) \<and> (r = D_nil_connection \<longrightarrow> attempts = 0)"
  by (auto simp: dialAMQP_def Let_def split: prod.splits if_splits setup_result.splits bool.splits)

lemma dialAMQP_request_sleeps:
  assumes "dialAMQP qt env requestReconnectAttempts requestReconnectDelay t = (r, opened, slept, t')"
  shows "slept \<le> requestReconnectDelay"
proof -
  obtain b s where d: "dial_attempts (de_dial env) 0 requestReconnectAttempts requestReconnectDelay = (b, s)" by fastforce
  have "s \<le> int (requestReconnectAttempts - 1) * requestReconnectDelay"
    using dial_attempts_slept [OF _ d] by (simp add: requestReconnectDelay_def)
  with assms d show ?thesis
    by (auto simp: dialAMQP_def Let_def requestReconnectAttempts_def split: prod.splits if_splits setup_result.splits bool.splits)
qed

subsection \<open>The blocks under the mutex\<close>

record Publisher =
  pb_cur :: "nat option"
  pb_gen :: nat
  pb_inflight :: "nat option"
  pb_lastFail :: "time option"  \<comment> \<open>\<open>None\<close>: the zero time, long ago\<close>

definition newPublisher :: Publisher where
  "newPublisher = \<lparr>pb_cur = None, pb_gen = 0, pb_inflight = None, pb_lastFail = None\<rparr>"

text \<open>\<open>NewPublisher\<close>, with what the patient dial at start-up returned: never an error.\<close>

definition NewPublisher :: "nat option \<Rightarrow> Publisher" where
  "NewPublisher dialled =
     (let p = newPublisher in
      case dialled of None \<Rightarrow> p | Some s \<Rightarrow> p\<lparr>pb_cur := Some s, pb_gen := 1\<rparr>)"

definition current :: "Publisher \<Rightarrow> nat option \<times> nat" where
  "current p = (pb_cur p, pb_gen p)"

datatype enter_result = Replaced | WaitFor nat | InCooldown | StartDial

text \<open>\<open>reconnect\<close> up to the dial; \<open>ch\<close> is the channel it makes.\<close>

definition reconnect_enter :: "time \<Rightarrow> nat \<Rightarrow> nat \<Rightarrow> Publisher \<Rightarrow> enter_result \<times> Publisher" where
  "reconnect_enter now failedGen ch p =
     (if pb_cur p \<noteq> None \<and> pb_gen p \<noteq> failedGen then (Replaced, p)
      else case pb_inflight p of
             Some wait \<Rightarrow> (WaitFor wait, p)
           | None \<Rightarrow>
               if (case pb_lastFail p of None \<Rightarrow> False | Some f \<Rightarrow> now - f < reconnectCooldown) then (InCooldown, p)
               else (StartDial, p\<lparr>pb_inflight := Some ch\<rparr>))"

text \<open>After the dial: the new publisher and the session it replaced.\<close>

definition reconnect_swap :: "time \<Rightarrow> nat option \<Rightarrow> Publisher \<Rightarrow> nat option \<times> Publisher" where
  "reconnect_swap now dialled p =
     (case dialled of
        Some s \<Rightarrow> (pb_cur p, p\<lparr>pb_cur := Some s, pb_gen := pb_gen p + 1, pb_inflight := None\<rparr>)
      | None \<Rightarrow> (None, p\<lparr>pb_lastFail := Some now, pb_inflight := None\<rparr>))"

subsection \<open>The goroutines\<close>

text \<open>Which of the two calls of \<open>reconnect\<close> in \<open>Publish\<close>: before the first send, or after it failed.\<close>

datatype call_site = First | Retry

datatype pc =
    Idle
  | Start
  | Sending call_site nat nat  \<comment> \<open>session and generation\<close>
  | Enter call_site nat  \<comment> \<open>\<open>failedGen\<close>\<close>
  | Waiting call_site nat nat time  \<comment> \<open>on a channel, since\<close>
  | Woken call_site nat
  | Dialing call_site nat  \<comment> \<open>the channel it will close\<close>
  | Dialled call_site nat "nat option"
  | Closing call_site nat  \<comment> \<open>the session that was replaced\<close>
  | Refetch call_site
  | Panicked

record PubState =
  ps_pub :: Publisher
  ps_pc :: "nat \<Rightarrow> pc"
  ps_now :: time
  ps_fresh :: nat  \<comment> \<open>the next session or channel\<close>
  ps_open :: "nat set"  \<comment> \<open>sessions that are open\<close>
  ps_ended :: "nat set"  \<comment> \<open>channels that are closed\<close>
  ps_starts :: "time list"  \<comment> \<open>when a dial started\<close>
  ps_fails :: "time list"  \<comment> \<open>when a dial was found to have failed\<close>

definition goto :: "nat \<Rightarrow> pc \<Rightarrow> PubState \<Rightarrow> PubState" where
  "goto g c s = s\<lparr>ps_pc := (ps_pc s)(g := c)\<rparr>"

definition initial_pub :: "time \<Rightarrow> nat option \<Rightarrow> PubState" where
  "initial_pub now dialled = \<lparr>ps_pub = NewPublisher dialled, ps_pc = (\<lambda>_. Idle), ps_now = now,
     ps_fresh = (case dialled of None \<Rightarrow> 0 | Some s \<Rightarrow> Suc s), ps_open = set_option dialled, ps_ended = {},
     ps_starts = [], ps_fails = []\<rparr>"

text \<open>Where a call of \<open>reconnect\<close> leads that found something out under the mutex.\<close>

definition enter_step :: "nat \<Rightarrow> call_site \<Rightarrow> nat \<Rightarrow> PubState \<Rightarrow> PubState" where
  "enter_step g site failedGen s =
     (case reconnect_enter (ps_now s) failedGen (ps_fresh s) (ps_pub s) of
        (Replaced, p) \<Rightarrow> goto g (Refetch site) s
      | (WaitFor w, p) \<Rightarrow> goto g (Waiting site failedGen w (ps_now s)) s
      | (InCooldown, p) \<Rightarrow> goto g Idle s
      | (StartDial, p) \<Rightarrow> goto g (Dialing site (ps_fresh s))
          (s\<lparr>ps_pub := p, ps_fresh := Suc (ps_fresh s), ps_starts := ps_now s # ps_starts s\<rparr>))"

definition swap_step :: "nat \<Rightarrow> call_site \<Rightarrow> nat \<Rightarrow> nat option \<Rightarrow> PubState \<Rightarrow> PubState" where
  "swap_step g site ch dialled s =
     (case reconnect_swap (ps_now s) dialled (ps_pub s) of
        (old, p) \<Rightarrow> goto g
          (case dialled of
             None \<Rightarrow> Idle
           | Some _ \<Rightarrow> (case old of None \<Rightarrow> Refetch site | Some o' \<Rightarrow> Closing site o'))
          (s\<lparr>ps_pub := p, ps_ended := insert ch (ps_ended s),
             ps_fails := (if dialled = None then ps_now s # ps_fails s else ps_fails s)\<rparr>))"

definition dialled_step :: "nat \<Rightarrow> call_site \<Rightarrow> nat \<Rightarrow> bool \<Rightarrow> PubState \<Rightarrow> PubState" where
  "dialled_step g site ch ok s =
     (if ok then goto g (Dialled site ch (Some (ps_fresh s)))
        (s\<lparr>ps_fresh := Suc (ps_fresh s), ps_open := insert (ps_fresh s) (ps_open s)\<rparr>)
      else goto g (Dialled site ch None) s)"

definition woken_step :: "nat \<Rightarrow> call_site \<Rightarrow> nat \<Rightarrow> PubState \<Rightarrow> PubState" where
  "woken_step g site failedGen s =
     (case current (ps_pub s) of (c, gen) \<Rightarrow>
        goto g (if c \<noteq> None \<and> gen \<noteq> failedGen then Refetch site else Idle) s)"

text \<open>\<open>s.publish\<close> on a nil session panics.\<close>

definition start_step :: "nat \<Rightarrow> PubState \<Rightarrow> PubState" where
  "start_step g s =
     (case current (ps_pub s) of
        (None, gen) \<Rightarrow> goto g (Enter First gen) s
      | (Some ses, gen) \<Rightarrow> goto g (Sending First ses gen) s)"

definition refetch_step :: "nat \<Rightarrow> call_site \<Rightarrow> PubState \<Rightarrow> PubState" where
  "refetch_step g site s =
     (case current (ps_pub s) of
        (None, gen) \<Rightarrow> goto g Panicked s
      | (Some ses, gen) \<Rightarrow> goto g (Sending site ses gen) s)"

text \<open>A failed send leads to \<open>reconnect\<close> the first time and to a log line the second time.\<close>

definition send_step :: "nat \<Rightarrow> call_site \<Rightarrow> nat \<Rightarrow> bool \<Rightarrow> PubState \<Rightarrow> PubState" where
  "send_step g site gen ok s = goto g (if \<not> ok \<and> site = First then Enter Retry gen else Idle) s"

text \<open>One step of goroutine \<open>g\<close>.\<close>

inductive pub_step :: "nat \<Rightarrow> PubState \<Rightarrow> PubState \<Rightarrow> bool" for g s where
  first_send: "ps_pc s g = Start \<Longrightarrow> pub_step g s (start_step g s)"
| send: "ps_pc s g = Sending site ses gen \<Longrightarrow> pub_step g s (send_step g site gen ok s)"
| enter: "ps_pc s g = Enter site failedGen \<Longrightarrow> pub_step g s (enter_step g site failedGen s)"
| wake: "ps_pc s g = Waiting site failedGen w since \<Longrightarrow> w \<in> ps_ended s \<Longrightarrow> pub_step g s (goto g (Woken site failedGen) s)"
| timeout: "ps_pc s g = Waiting site failedGen w since \<Longrightarrow> since + reconnectWait \<le> ps_now s \<Longrightarrow> pub_step g s (goto g Idle s)"
| look: "ps_pc s g = Woken site failedGen \<Longrightarrow> pub_step g s (woken_step g site failedGen s)"
| dial: "ps_pc s g = Dialing site ch \<Longrightarrow> pub_step g s (dialled_step g site ch ok s)"
| swap: "ps_pc s g = Dialled site ch d \<Longrightarrow> pub_step g s (swap_step g site ch d s)"
| close_old: "ps_pc s g = Closing site ses \<Longrightarrow> pub_step g s (goto g (Refetch site) (s\<lparr>ps_open := ps_open s - {ses}\<rparr>))"
| refetch: "ps_pc s g = Refetch site \<Longrightarrow> pub_step g s (refetch_step g site s)"

inductive pub_reachable :: "PubState \<Rightarrow> bool" where
  init: "pub_reachable (initial_pub now dialled)"
| run: "pub_reachable s \<Longrightarrow> pub_step g s s' \<Longrightarrow> pub_reachable s'"
| call: "pub_reachable s \<Longrightarrow> ps_pc s g = Idle \<Longrightarrow> pub_reachable (goto g Start s)"
| tick: "pub_reachable s \<Longrightarrow> ps_now s \<le> t \<Longrightarrow> pub_reachable (s\<lparr>ps_now := t\<rparr>)"

subsection \<open>What every reachable state satisfies\<close>

lemma goto_sel [simp]:
  "ps_pc (goto g c s) h = (if h = g then c else ps_pc s h)" "ps_pub (goto g c s) = ps_pub s"
  "ps_now (goto g c s) = ps_now s" "ps_fresh (goto g c s) = ps_fresh s" "ps_open (goto g c s) = ps_open s"
  "ps_ended (goto g c s) = ps_ended s" "ps_starts (goto g c s) = ps_starts s" "ps_fails (goto g c s) = ps_fails s"
  by (simp_all add: goto_def)

lemmas pub_steps = enter_step_def swap_step_def dialled_step_def woken_step_def start_step_def refetch_step_def send_step_def
  reconnect_enter_def reconnect_swap_def current_def

fun dials :: "pc \<Rightarrow> nat option" where
  "dials (Dialing site ch) = Some ch"
| "dials (Dialled site ch d) = Some ch"
| "dials _ = None"

fun owned :: "pc \<Rightarrow> nat set" where
  "owned (Dialled site ch (Some n)) = {n}"
| "owned (Closing site ses) = {ses}"
| "owned _ = {}"

fun needs_session :: "pc \<Rightarrow> bool" where
  "needs_session (Refetch site) = True"
| "needs_session (Closing site ses) = True"
| "needs_session _ = False"

text \<open>The kinds of steps.\<close>

lemma pub_step_cases:
  assumes "pub_step g s s'"
  obtains (plain) c where "s' = goto g c s" "dials (ps_pc s g) = None" "owned (ps_pc s g) = {}" "dials c = None" "owned c = {}"
      "c = Panicked \<longrightarrow> needs_session (ps_pc s g) \<and> pb_cur (ps_pub s) = None" "needs_session c \<longrightarrow> pb_cur (ps_pub s) \<noteq> None"
    | (starts) site where
      "s' = goto g (Dialing site (ps_fresh s)) (s\<lparr>ps_pub := (ps_pub s)\<lparr>pb_inflight := Some (ps_fresh s)\<rparr>,
         ps_fresh := Suc (ps_fresh s), ps_starts := ps_now s # ps_starts s\<rparr>)"
      "dials (ps_pc s g) = None" "owned (ps_pc s g) = {}" "pb_inflight (ps_pub s) = None"
      "\<forall>f. pb_lastFail (ps_pub s) = Some f \<longrightarrow> f + reconnectCooldown \<le> ps_now s"
    | (connected) site ch where "ps_pc s g = Dialing site ch"
      "s' = goto g (Dialled site ch (Some (ps_fresh s))) (s\<lparr>ps_fresh := Suc (ps_fresh s), ps_open := insert (ps_fresh s) (ps_open s)\<rparr>)"
    | (failed) site ch where "ps_pc s g = Dialing site ch" "s' = goto g (Dialled site ch None) s"
    | (swapped) site ch n where "ps_pc s g = Dialled site ch (Some n)"
      "s' = goto g (case pb_cur (ps_pub s) of None \<Rightarrow> Refetch site | Some o' \<Rightarrow> Closing site o')
         (s\<lparr>ps_pub := (ps_pub s)\<lparr>pb_cur := Some n, pb_gen := pb_gen (ps_pub s) + 1, pb_inflight := None\<rparr>,
            ps_ended := insert ch (ps_ended s)\<rparr>)"
    | (gave_up) site ch where "ps_pc s g = Dialled site ch None"
      "s' = goto g Idle (s\<lparr>ps_pub := (ps_pub s)\<lparr>pb_lastFail := Some (ps_now s), pb_inflight := None\<rparr>,
            ps_ended := insert ch (ps_ended s), ps_fails := ps_now s # ps_fails s\<rparr>)"
    | (closed) site ses where "ps_pc s g = Closing site ses"
      "s' = goto g (Refetch site) (s\<lparr>ps_open := ps_open s - {ses}\<rparr>)"
  using assms
proof (cases rule: pub_step.cases)
  case first_send
  then show thesis by (cases "pb_cur (ps_pub s)") (auto intro: plain simp: start_step_def current_def)
next
  case (send site ses gen ok)
  then show thesis by (cases "\<not> ok \<and> site = First") (auto intro: plain simp: send_step_def)
next
  case (enter site failedGen)
  then show thesis
    by (cases "pb_inflight (ps_pub s)"; cases "pb_lastFail (ps_pub s)")
      (auto simp: enter_step_def reconnect_enter_def intro: plain starts split: if_splits)
next
  case (wake site failedGen w since)
  then show thesis by (auto intro!: plain)
next
  case (timeout site failedGen w since)
  then show thesis by (auto intro!: plain)
next
  case (look site failedGen)
  then show thesis
    by (cases "pb_cur (ps_pub s) \<noteq> None \<and> pb_gen (ps_pub s) \<noteq> failedGen") (auto intro: plain simp: woken_step_def current_def)
next
  case (dial site ch ok)
  then show thesis by (cases ok) (auto intro: connected failed simp: dialled_step_def)
next
  case (swap site ch d)
  then show thesis
    by (cases d; cases "pb_cur (ps_pub s)") (auto intro: swapped gave_up simp: swap_step_def reconnect_swap_def)
next
  case (close_old site ses)
  show thesis by (rule closed [OF close_old(2,1)])
next
  case (refetch site)
  then show thesis by (cases "pb_cur (ps_pub s)") (auto intro!: plain simp: refetch_step_def current_def)
qed

lemma pub_invariant:
  assumes "pub_reachable s" and "\<And>now d. I (initial_pub now d)" and "\<And>s g s'. I s \<Longrightarrow> pub_step g s s' \<Longrightarrow> I s'"
    and "\<And>s g. I s \<Longrightarrow> ps_pc s g = Idle \<Longrightarrow> I (goto g Start s)" and "\<And>s t. I s \<Longrightarrow> ps_now s \<le> t \<Longrightarrow> I (s\<lparr>ps_now := t\<rparr>)"
  shows "I s"
  using assms(1)
proof (induction rule: pub_reachable.induct)
  case init show ?case by (rule assms(2))
next
  case run then show ?case by (blast intro: assms(3))
next
  case call then show ?case by (blast intro: assms(4))
next
  case tick then show ?case by (blast intro: assms(5))
qed

text \<open>Single flight: whoever reconnects holds \<open>inflight\<close>.\<close>

definition single_flight :: "PubState \<Rightarrow> bool" where
  "single_flight s \<longleftrightarrow> (\<forall>g. dials (ps_pc s g) = None \<or> dials (ps_pc s g) = pb_inflight (ps_pub s)) \<and>
     (\<forall>g h. g \<noteq> h \<longrightarrow> dials (ps_pc s g) = None \<or> dials (ps_pc s h) = None)"

lemma single_flightI:
  "(\<And>g. dials (ps_pc s g) = None \<or> dials (ps_pc s g) = pb_inflight (ps_pub s)) \<Longrightarrow>
    (\<And>g h. g \<noteq> h \<Longrightarrow> dials (ps_pc s g) = None \<or> dials (ps_pc s h) = None) \<Longrightarrow> single_flight s"
  by (simp add: single_flight_def)

lemma single_flight_step:
  assumes "single_flight s" and "pub_step g s s'"
  shows "single_flight s'"
proof -
  have inf: "dials (ps_pc s h) = None \<or> dials (ps_pc s h) = pb_inflight (ps_pub s)" for h
    using assms(1) by (simp add: single_flight_def)
  have one: "dials (ps_pc s h) = None \<or> dials (ps_pc s h') = None" if "h \<noteq> h'" for h h'
    using assms(1) that by (simp add: single_flight_def)
  note sel = goto_sel dials.simps Publisher.simps PubState.simps option.simps
  from assms(2) show ?thesis
  proof (cases rule: pub_step_cases)
    case (plain c)
    then show ?thesis using inf one by (intro single_flightI) (auto simp: sel)
  next
    case (starts site)
    then have "dials (ps_pc s h) = None" for h using inf [of h] by auto
    with starts show ?thesis by (intro single_flightI) auto
  next
    case (connected site ch)
    then have "dials (ps_pc s h) = None" if "h \<noteq> g" for h using one [OF that] by auto
    with connected inf [of g] show ?thesis by (intro single_flightI) auto
  next
    case (failed site ch)
    then have "dials (ps_pc s h) = None" if "h \<noteq> g" for h using one [OF that] by auto
    with failed inf [of g] show ?thesis by (intro single_flightI) auto
  next
    case (swapped site ch n)
    then have "dials (ps_pc s h) = None" if "h \<noteq> g" for h using one [OF that] by auto
    with swapped show ?thesis by (intro single_flightI) (auto split: option.splits)
  next
    case (gave_up site ch)
    then have "dials (ps_pc s h) = None" if "h \<noteq> g" for h using one [OF that] by auto
    with gave_up show ?thesis by (intro single_flightI) auto
  next
    case (closed site ses)
    then show ?thesis using inf one by (intro single_flightI) auto
  qed
qed

lemma one_reconnect: "pub_reachable s \<Longrightarrow> single_flight s"
proof (erule pub_invariant)
  show "single_flight s \<Longrightarrow> pub_step g s s' \<Longrightarrow> single_flight s'" for s g s' by (rule single_flight_step)
qed (simp_all add: single_flight_def initial_pub_def)

text \<open>No nil session: once there is one, there is always one.\<close>

definition session_there :: "PubState \<Rightarrow> bool" where
  "session_there s \<longleftrightarrow> (\<forall>g. ps_pc s g \<noteq> Panicked) \<and> (pb_cur (ps_pub s) = None \<longrightarrow> (\<forall>g. \<not> needs_session (ps_pc s g)))"

lemma session_there_step:
  assumes "session_there s" and "pub_step g s s'"
  shows "session_there s'"
  using assms(2)
proof (cases rule: pub_step_cases)
  case (plain c)
  have "c \<noteq> Panicked" using plain(6) assms(1) by (auto simp: session_there_def)
  with plain(1,7) assms(1) show ?thesis by (auto simp: session_there_def)
next
  case (closed site ses)
  then have "pb_cur (ps_pub s) \<noteq> None" using assms(1) by (metis needs_session.simps(2) session_there_def)
  with closed assms(1) show ?thesis by (auto simp: session_there_def)
qed (use assms(1) in \<open>simp_all add: session_there_def split: option.splits\<close>)

lemma always_a_session: "pub_reachable s \<Longrightarrow> session_there s"
proof (erule pub_invariant)
  show "session_there s \<Longrightarrow> pub_step g s s' \<Longrightarrow> session_there s'" for s g s' by (rule session_there_step)
qed (simp_all add: session_there_def initial_pub_def)

text \<open>Every open session is the current one or in the hands of one goroutine.\<close>

definition sessions_accounted :: "PubState \<Rightarrow> bool" where
  "sessions_accounted s \<longleftrightarrow>
     ps_open s = set_option (pb_cur (ps_pub s)) \<union> (\<Union>g. owned (ps_pc s g)) \<and>
     (\<forall>g. owned (ps_pc s g) \<inter> set_option (pb_cur (ps_pub s)) = {}) \<and>
     (\<forall>g h. g \<noteq> h \<longrightarrow> owned (ps_pc s g) \<inter> owned (ps_pc s h) = {}) \<and>
     (\<forall>n\<in>ps_open s. n < ps_fresh s)"

lemma sessions_accountedI:
  assumes "\<And>h. h \<noteq> g \<Longrightarrow> ps_pc s' h = ps_pc s h" "sessions_accounted s"
    and "set_option (pb_cur (ps_pub s')) \<union> owned (ps_pc s' g) \<subseteq> set_option (pb_cur (ps_pub s)) \<union> owned (ps_pc s g) \<union> {n. n = ps_fresh s \<and> ps_fresh s' = Suc n}"
    and "set_option (pb_cur (ps_pub s')) \<inter> owned (ps_pc s' g) = {}"
    and "ps_open s' = (ps_open s - (set_option (pb_cur (ps_pub s)) \<union> owned (ps_pc s g))) \<union> set_option (pb_cur (ps_pub s')) \<union> owned (ps_pc s' g)"
    and "ps_fresh s \<le> ps_fresh s'"
  shows "sessions_accounted s'"
proof -
  let ?o = "\<lambda>h. owned (ps_pc s h)" and ?c = "set_option (pb_cur (ps_pub s))"
  have acc: "ps_open s = ?c \<union> (\<Union>h. ?o h)" "\<And>h. ?o h \<inter> ?c = {}" "\<And>h k. h \<noteq> k \<Longrightarrow> ?o h \<inter> ?o k = {}" "\<And>n. n \<in> ps_open s \<Longrightarrow> n < ps_fresh s"
    using assms(2) unfolding sessions_accounted_def by blast+
  have rest: "ps_open s - (?c \<union> ?o g) = (\<Union>h\<in>- {g}. ?o h)"
    using acc(2,3) unfolding acc(1) by blast
  have new: "?o h \<inter> (set_option (pb_cur (ps_pub s')) \<union> owned (ps_pc s' g)) = {}" if "h \<noteq> g" for h
  proof -
    have "ps_fresh s \<notin> ?o h" using acc(4) [of "ps_fresh s"] unfolding acc(1) by blast
    then show ?thesis using assms(3) acc(2) [of h] acc(3) [OF that] by blast
  qed
  have "ps_open s' = set_option (pb_cur (ps_pub s')) \<union> (\<Union>h. owned (ps_pc s' h))"
  proof -
    have "(\<Union>h. owned (ps_pc s' h)) = owned (ps_pc s' g) \<union> (\<Union>h\<in>- {g}. owned (ps_pc s' h))" by auto
    also have "(\<Union>h\<in>- {g}. owned (ps_pc s' h)) = (\<Union>h\<in>- {g}. ?o h)" using assms(1) by simp
    finally show ?thesis unfolding assms(5) rest by blast
  qed
  moreover have "owned (ps_pc s' h) \<inter> set_option (pb_cur (ps_pub s')) = {}" for h
    using new [of h] assms(1,4) by (cases "h = g") (simp_all add: Int_commute, blast)
  moreover have "owned (ps_pc s' h) \<inter> owned (ps_pc s' k) = {}" if "h \<noteq> k" for h k
    using new [of h] new [of k] acc(3) [OF that] assms(1) [of h] assms(1) [of k] that by (cases "h = g"; cases "k = g") auto
  moreover have "n < ps_fresh s'" if n: "n \<in> ps_open s'" for n
  proof -
    have "n \<in> ps_open s \<or> (n = ps_fresh s \<and> ps_fresh s' = Suc n)"
      using n assms(3) unfolding assms(5) acc(1) by blast
    then show ?thesis using acc(4) assms(6) by fastforce
  qed
  ultimately show ?thesis unfolding sessions_accounted_def by blast
qed

lemma sessions_accounted_step:
  assumes "sessions_accounted s" and "pub_step g s s'"
  shows "sessions_accounted s'"
proof -
  have acc: "ps_open s = set_option (pb_cur (ps_pub s)) \<union> (\<Union>h. owned (ps_pc s h))"
    "owned (ps_pc s g) \<inter> set_option (pb_cur (ps_pub s)) = {}" "\<And>n. n \<in> ps_open s \<Longrightarrow> n < ps_fresh s"
    using assms(1) unfolding sessions_accounted_def by blast+
  have sub: "set_option (pb_cur (ps_pub s)) \<union> owned (ps_pc s g) \<subseteq> ps_open s" unfolding acc(1) by blast
  then have fresh: "pb_cur (ps_pub s) \<noteq> Some (ps_fresh s)" using acc(3) [of "ps_fresh s"] by auto
  from assms(2) show ?thesis
    by (cases rule: pub_step_cases; intro sessions_accountedI [OF _ assms(1), of g])
      (use sub acc(2) fresh in \<open>auto split: option.splits\<close>)
qed

lemma no_leak: "pub_reachable s \<Longrightarrow> sessions_accounted s"
proof (erule pub_invariant)
  show "sessions_accounted s \<Longrightarrow> pub_step g s s' \<Longrightarrow> sessions_accounted s'" for s g s' by (rule sessions_accounted_step)
  show "sessions_accounted (goto g Start s)" if "sessions_accounted s" "ps_pc s g = Idle" for s g
    by (rule sessions_accountedI [OF _ that(1), of g]) (use that in \<open>auto simp: sessions_accounted_def\<close>)
qed (auto simp: sessions_accounted_def initial_pub_def NewPublisher_def newPublisher_def Let_def split: option.splits)

text \<open>A failed reconnect keeps everybody from dialling for the cooldown.\<close>

definition dials_spaced :: "PubState \<Rightarrow> bool" where
  "dials_spaced s \<longleftrightarrow>
     (\<forall>f\<in>set (ps_fails s). f \<le> ps_now s) \<and>
     (case pb_lastFail (ps_pub s) of None \<Rightarrow> ps_fails s = [] | Some l \<Rightarrow> \<forall>f\<in>set (ps_fails s). f \<le> l) \<and>
     (\<forall>t\<in>set (ps_starts s). t \<le> ps_now s) \<and>
     (\<forall>f\<in>set (ps_fails s). \<forall>t\<in>set (ps_starts s). t \<le> f \<or> f + reconnectCooldown \<le> t)"

lemma dials_spaced_step:
  assumes "dials_spaced s" and "pub_step g s s'"
  shows "dials_spaced s'"
  using assms(2)
proof (cases rule: pub_step_cases)
  case (starts site)
  have "f + reconnectCooldown \<le> ps_now s" if "f \<in> set (ps_fails s)" for f
    using assms(1) that starts(5) by (cases "pb_lastFail (ps_pub s)") (force simp: dials_spaced_def)+
  with starts assms(1) show ?thesis by (auto simp: dials_spaced_def split: option.splits)
next
  case (gave_up site ch)
  with assms(1) show ?thesis by (auto simp: dials_spaced_def split: option.splits)
qed (use assms(1) in \<open>simp_all add: dials_spaced_def cong: option.case_cong\<close>)

lemma cooldown_kept: "pub_reachable s \<Longrightarrow> dials_spaced s"
proof (erule pub_invariant)
  show "dials_spaced s \<Longrightarrow> pub_step g s s' \<Longrightarrow> dials_spaced s'" for s g s' by (rule dials_spaced_step)
  show "dials_spaced (initial_pub now d)" for now d
    by (auto simp: dials_spaced_def initial_pub_def NewPublisher_def newPublisher_def Let_def split: option.splits)
  show "dials_spaced s \<Longrightarrow> dials_spaced (goto g Start s)" for s g by (simp add: dials_spaced_def cong: option.case_cong)
  show "dials_spaced s \<Longrightarrow> ps_now s \<le> t \<Longrightarrow> dials_spaced (s\<lparr>ps_now := t\<rparr>)" for s t
    unfolding dials_spaced_def by (simp cong: option.case_cong) (meson order_trans)
qed

text \<open>
  C27. The shared connection. However many requests publish at once, whatever sends and dials fail,
  in every state: at most one goroutine reconnects; every open session is the current one, was
  just dialled, or is about to be closed by the one goroutine that replaced it, so none is leaked
  and none is closed twice; no goroutine ever publishes on a nil session; and after a failed
  reconnect nobody starts another for the two seconds of the cooldown.
\<close>
theorem publisher_safe:
  assumes "pub_reachable s"
  shows "(\<forall>g h. dials (ps_pc s g) \<noteq> None \<and> dials (ps_pc s h) \<noteq> None \<longrightarrow> g = h) \<and>
    ps_open s = set_option (pb_cur (ps_pub s)) \<union> (\<Union>g. owned (ps_pc s g)) \<and>
    (\<forall>g h. g \<noteq> h \<longrightarrow> owned (ps_pc s g) \<inter> owned (ps_pc s h) = {}) \<and>
    (\<forall>g. owned (ps_pc s g) \<inter> set_option (pb_cur (ps_pub s)) = {}) \<and>
    (\<forall>g. ps_pc s g \<noteq> Panicked) \<and>
    (\<forall>f\<in>set (ps_fails s). \<forall>t\<in>set (ps_starts s). t \<le> f \<or> f + reconnectCooldown \<le> t)"
proof -
  have "\<forall>g h. dials (ps_pc s g) \<noteq> None \<and> dials (ps_pc s h) \<noteq> None \<longrightarrow> g = h"
    using one_reconnect [OF assms] unfolding single_flight_def by metis
  moreover from no_leak [OF assms]
  have "ps_open s = set_option (pb_cur (ps_pub s)) \<union> (\<Union>g. owned (ps_pc s g))"
    and "\<forall>g h. g \<noteq> h \<longrightarrow> owned (ps_pc s g) \<inter> owned (ps_pc s h) = {}"
    and "\<forall>g. owned (ps_pc s g) \<inter> set_option (pb_cur (ps_pub s)) = {}"
    unfolding sessions_accounted_def by simp_all
  moreover have "\<forall>g. ps_pc s g \<noteq> Panicked" using always_a_session [OF assms] unfolding session_there_def by simp
  moreover have "\<forall>f\<in>set (ps_fails s). \<forall>t\<in>set (ps_starts s). t \<le> f \<or> f + reconnectCooldown \<le> t"
    using cooldown_kept [OF assms] unfolding dials_spaced_def by simp
  ultimately show ?thesis by (intro conjI)
qed

subsection \<open>Publish returns\<close>

text \<open>How far a goroutine is from the end of \<open>Publish\<close>: each of its steps brings it closer.\<close>

fun site_rank :: "call_site \<Rightarrow> nat" where
  "site_rank First = 9"
| "site_rank Retry = 0"

fun rank :: "pc \<Rightarrow> nat" where
  "rank Start = 18"
| "rank (Enter site f) = site_rank site + 8"
| "rank (Waiting site f w t) = site_rank site + 7"
| "rank (Woken site f) = site_rank site + 6"
| "rank (Dialing site ch) = site_rank site + 5"
| "rank (Dialled site ch d) = site_rank site + 4"
| "rank (Closing site ses) = site_rank site + 3"
| "rank (Refetch site) = site_rank site + 2"
| "rank (Sending site ses gen) = site_rank site + 1"
| "rank Idle = 0"
| "rank Panicked = 0"

lemma rank_step:
  assumes "pub_step g s s'"
  shows "rank (ps_pc s' g) < rank (ps_pc s g) \<and> (\<forall>h. h \<noteq> g \<longrightarrow> ps_pc s' h = ps_pc s h)"
  using assms
proof (cases rule: pub_step.cases)
  case (send site ses gen ok)
  then show ?thesis by (cases site) (simp_all add: send_step_def)
next
  case (swap site ch d)
  then show ?thesis by (cases d) (simp_all add: swap_step_def reconnect_swap_def split: option.splits)
next
  case (enter site failedGen)
  then show ?thesis by (auto simp: enter_step_def reconnect_enter_def split: option.splits)
qed (simp_all add: start_step_def woken_step_def dialled_step_def refetch_step_def current_def split: option.splits)

text \<open>A run of one goroutine and everything that happens around it; \<open>n\<close> counts its own steps.\<close>

inductive publish_run :: "nat \<Rightarrow> PubState \<Rightarrow> nat \<Rightarrow> PubState \<Rightarrow> bool" for g s where
  pr_start: "publish_run g s 0 s"
| pr_own: "publish_run g s n s' \<Longrightarrow> pub_step g s' s'' \<Longrightarrow> publish_run g s (Suc n) s''"
| pr_other: "publish_run g s n s' \<Longrightarrow> h \<noteq> g \<Longrightarrow> pub_step h s' s'' \<Longrightarrow> publish_run g s n s''"
| pr_call: "publish_run g s n s' \<Longrightarrow> h \<noteq> g \<Longrightarrow> ps_pc s' h = Idle \<Longrightarrow> publish_run g s n (goto h Start s')"
| pr_tick: "publish_run g s n s' \<Longrightarrow> ps_now s' \<le> t \<Longrightarrow> publish_run g s n (s'\<lparr>ps_now := t\<rparr>)"

lemma publish_run_rank: "publish_run g s n s' \<Longrightarrow> n + rank (ps_pc s' g) \<le> rank (ps_pc s g)"
proof (induction rule: publish_run.induct)
  case (pr_own n s' s'')
  then show ?case using rank_step [OF pr_own(2)] by simp
next
  case (pr_other n s' h s'')
  then show ?case using rank_step [OF pr_other(3)] by simp
qed simp_all

lemma publish_run_reachable: "publish_run g s n s' \<Longrightarrow> pub_reachable s \<Longrightarrow> pub_reachable s'"
  by (induction rule: publish_run.induct) (auto intro: pub_reachable.intros)

text \<open>A goroutine that has not returned can go on, at the latest when its wait has timed out.\<close>

lemma publish_progress:
  assumes "pub_reachable s" and "ps_pc s g \<noteq> Idle" and "ps_now s \<le> t" and "\<forall>site f w since. ps_pc s g = Waiting site f w since \<longrightarrow> since + reconnectWait \<le> t"
  shows "\<exists>s'. pub_step g (s\<lparr>ps_now := t\<rparr>) s'"
proof -
  have "ps_pc s g \<noteq> Panicked" using always_a_session [OF assms(1)] by (simp add: session_there_def)
  moreover define s1 where "s1 = s\<lparr>ps_now := t\<rparr>"
  then have "ps_pc s1 g = ps_pc s g" "ps_now s1 = t" by simp_all
  ultimately have "\<exists>s'. pub_step g s1 s'"
    using assms(2,4) by (cases "ps_pc s1 g") (metis pub_step.intros)+
  then show ?thesis by (simp add: s1_def)
qed

text \<open>
  Publishing always returns. In any run, whatever the other goroutines do and whatever fails, one
  call of Publish makes at most 18 steps of its own, so at most two sends and two reconnects; and
  it is never stuck: it can always take its next step, at the latest when its 1.5 seconds of
  waiting for somebody else's reconnect are over, without any other goroutine having to act.
\<close>
theorem publish_returns:
  assumes "pub_reachable s" and "ps_pc s g = Start" and "publish_run g s n s'"
  shows "n \<le> 18 \<and> (ps_pc s' g \<noteq> Idle \<longrightarrow> (\<exists>t s''. ps_now s' \<le> t \<and> pub_step g (s'\<lparr>ps_now := t\<rparr>) s''))"
proof
  show "n \<le> 18" using publish_run_rank [OF assms(3)] assms(2) by simp
  have r: "pub_reachable s'" using publish_run_reachable assms(1,3) by blast
  show "ps_pc s' g \<noteq> Idle \<longrightarrow> (\<exists>t s''. ps_now s' \<le> t \<and> pub_step g (s'\<lparr>ps_now := t\<rparr>) s'')"
  proof
    assume busy: "ps_pc s' g \<noteq> Idle"
    define t where "t = (case ps_pc s' g of Waiting site f w since \<Rightarrow> max (ps_now s') (since + reconnectWait) | _ \<Rightarrow> ps_now s')"
    have "ps_now s' \<le> t" "\<forall>site f w since. ps_pc s' g = Waiting site f w since \<longrightarrow> since + reconnectWait \<le> t"
      by (auto simp: t_def split: pc.splits)
    with publish_progress [OF r busy] show "\<exists>t s''. ps_now s' \<le> t \<and> pub_step g (s'\<lparr>ps_now := t\<rparr>) s''" by blast
  qed
qed

text \<open>A publisher whose broker was down at start-up, and goroutine 0 that starts to publish.\<close>

definition demo_pub :: PubState where
  "demo_pub = goto 0 Start (initial_pub 0 None)"

lemma demo_pub_reachable: "pub_reachable demo_pub"
  unfolding demo_pub_def by (rule call [OF init]) (simp add: initial_pub_def)

theorem publish_returns_witness: "\<exists>s''. pub_step 0 demo_pub s''"
proof -
  have "ps_pc demo_pub 0 = Start" by (simp add: demo_pub_def)
  from publish_returns [OF demo_pub_reachable this pr_start] this
  have "\<exists>t s''. pub_step 0 (demo_pub\<lparr>ps_now := t\<rparr>) s''" by auto
  then show ?thesis using first_send [OF \<open>ps_pc demo_pub 0 = Start\<close>] by blast
qed

theorem publisher_safe_witness: "ps_open demo_pub = {}"
proof -
  have "ps_open demo_pub = set_option (pb_cur (ps_pub demo_pub)) \<union> (\<Union>g. owned (ps_pc demo_pub g))"
    using publisher_safe [OF demo_pub_reachable] by blast
  also have "\<dots> = {}" by (auto simp: demo_pub_def initial_pub_def NewPublisher_def newPublisher_def Let_def)
  finally show ?thesis .
qed

end
