(* ===== verification/PublishTime.thy ===== *)
theory PublishTime
  imports Publisher
begin

section \<open>How long Publish holds up a request (internal/delivery/messaging/publisher.go)\<close>

text \<open>
  \<open>Publish\<close> runs inside the HTTP handlers, so its waits are waits of the client. The steps of
  \<open>Publisher\<close> get the time a goroutine spends in them: the attempts to dial with the pauses
  between them, the wait for another goroutine's reconnect, the wait for a confirm. How long a call
  of the AMQP library takes is a limit of the model (\<open>TimeLimits\<close>): the library bounds the dial by
  the \<open>dialTimeout\<close> it is given, and a write, a declaration or a close by what the network needs. The
  blocks under the mutex only assign fields and take no time.
\<close>

subsection \<open>Sending a message: amqpSession.publish and waitForConfirm\<close>

definition publishConfirmTimeout :: duration where "publishConfirmTimeout = 3 * second"

text \<open>When the broker answers and whether it acknowledges; \<open>None\<close> when it never does.\<close>

type_synonym confirmation = "(duration \<times> bool) option"

datatype confirm_result = Confirmed | Nacked | Wait_failed

definition waitForConfirm :: "confirmation \<Rightarrow> confirm_result \<times> duration" where
  "waitForConfirm c =
     (case c of
        None \<Rightarrow> (Wait_failed, publishConfirmTimeout)
      | Some (d, acked) \<Rightarrow>
          if publishConfirmTimeout \<le> d then (Wait_failed, publishConfirmTimeout)
          else (if \<not> acked then Nacked else Confirmed, max 0 d))"

text \<open>
  Whether the message was handed over, which is the only thing the caller learns, and the time
  spent waiting: a nack and a missing confirm are no errors.
\<close>

definition amqpSession_publish :: "bool \<Rightarrow> confirmation \<Rightarrow> bool \<times> duration" where
  "amqpSession_publish handed c = (if \<not> handed then (False, 0) else (True, snd (waitForConfirm c)))"

lemma waitForConfirm_bounds: "0 \<le> snd (waitForConfirm c) \<and> snd (waitForConfirm c) \<le> publishConfirmTimeout"
  by (auto simp: waitForConfirm_def publishConfirmTimeout_def split: option.split)

lemma amqpSession_publish_bounds:
  "amqpSession_publish handed c = (ok, d) \<Longrightarrow> 0 \<le> d \<and> d \<le> (if ok then publishConfirmTimeout else 0)"
  using waitForConfirm_bounds [of c] by (auto simp: amqpSession_publish_def split: if_splits)

subsection \<open>The time of a dial\<close>

text \<open>The attempts of \<open>dialAMQP\<close> with what each takes.\<close>

fun dial_spent :: "(nat \<Rightarrow> bool) \<Rightarrow> (nat \<Rightarrow> duration) \<Rightarrow> nat \<Rightarrow> nat \<Rightarrow> duration \<Rightarrow> duration" where
  "dial_spent ok took i 0 delay = 0"
| "dial_spent ok took i (Suc left) delay =
     took i + (if ok i then 0 else (if 0 < left then delay else 0) + dial_spent ok took (Suc i) left delay)"

lemma dial_spent_slept: "dial_spent ok (\<lambda>_. 0) i n delay = snd (dial_attempts ok i n delay)"
  by (induction n arbitrary: i) (simp_all split: prod.split)

lemma dial_spent_bounds:
  assumes "\<And>i. 0 \<le> took i \<and> took i \<le> lim" and "0 \<le> delay" and "0 \<le> lim"
  shows "0 \<le> dial_spent ok took i n delay \<and> dial_spent ok took i n delay \<le> int n * lim + int (n - 1) * delay"
proof (induction n arbitrary: i)
  case (Suc n)
  have nonneg: "0 \<le> int n * lim" "0 \<le> int n * delay" using assms(2,3) by simp_all
  have step: "int (Suc n) * lim = lim + int n * lim" by (simp add: distrib_right)
  show ?case
  proof (cases n)
    case 0
    then show ?thesis using assms(1) [of i] by simp
  next
    case (Suc m)
    then have "int n * delay = delay + int (n - 1) * delay" by (simp add: distrib_right)
    then show ?thesis using assms(1) [of i] Suc.IH [of "Suc i"] nonneg step assms(2) Suc by auto
  qed
qed simp

subsection \<open>Timed steps\<close>

record TimeLimits =
  tl_dial :: duration   \<comment> \<open>one \<open>DialConfig\<close>\<close>
  tl_setup :: duration  \<comment> \<open>opening the channel and declaring the topology\<close>
  tl_write :: duration  \<comment> \<open>handing a message to the connection\<close>
  tl_close :: duration  \<comment> \<open>closing a session\<close>

definition limits_ok :: "TimeLimits \<Rightarrow> bool" where
  "limits_ok lim \<longleftrightarrow> 0 \<le> tl_dial lim \<and> 0 \<le> tl_setup lim \<and> 0 \<le> tl_write lim \<and> 0 \<le> tl_close lim"

text \<open>The program points whose step is a block under the mutex.\<close>

fun locked :: "pc \<Rightarrow> bool" where
  "locked Start = True"
| "locked (Enter site gen) = True"
| "locked (Woken site gen) = True"
| "locked (Dialled site ch d) = True"
| "locked (Refetch site) = True"
| "locked _ = False"

text \<open>A step of goroutine \<open>g\<close>, the time it spends in it and the messages it hands over.\<close>

inductive timed_step :: "TimeLimits \<Rightarrow> nat \<Rightarrow> PubState \<Rightarrow> duration \<Rightarrow> nat \<Rightarrow> PubState \<Rightarrow> bool" for lim g s where
  t_lock: "locked (ps_pc s g) \<Longrightarrow> pub_step g s s' \<Longrightarrow> timed_step lim g s 0 0 s'"
| t_send: "ps_pc s g = Sending site ses gen \<Longrightarrow> 0 \<le> w \<Longrightarrow> w \<le> tl_write lim \<Longrightarrow> amqpSession_publish handed c = (ok, d) \<Longrightarrow>
    timed_step lim g s (w + d) (if ok then 1 else 0) (send_step g site gen ok s)"
| t_wake: "ps_pc s g = Waiting site failedGen w since \<Longrightarrow> w \<in> ps_ended s \<Longrightarrow> 0 \<le> d \<Longrightarrow> d \<le> reconnectWait \<Longrightarrow>
    timed_step lim g s d 0 (goto g (Woken site failedGen) s)"
| t_timeout: "ps_pc s g = Waiting site failedGen w since \<Longrightarrow> since + reconnectWait \<le> ps_now s \<Longrightarrow>
    timed_step lim g s reconnectWait 0 (goto g Idle s)"
| t_dial: "ps_pc s g = Dialing site ch \<Longrightarrow> (\<And>i. 0 \<le> took i \<and> took i \<le> tl_dial lim) \<Longrightarrow> 0 \<le> u \<Longrightarrow> u \<le> tl_setup lim \<Longrightarrow>
    dialAMQP qt env requestReconnectAttempts requestReconnectDelay broker = (r, opened, slept, broker') \<Longrightarrow>
    timed_step lim g s (dial_spent (de_dial env) took 0 requestReconnectAttempts requestReconnectDelay + u) 0
      (dialled_step g site ch (r = D_session) s)"
| t_close: "ps_pc s g = Closing site ses \<Longrightarrow> 0 \<le> d \<Longrightarrow> d \<le> tl_close lim \<Longrightarrow>
    timed_step lim g s d 0 (goto g (Refetch site) (s\<lparr>ps_open := ps_open s - {ses}\<rparr>))"

lemma timed_step_pub: "timed_step lim g s d h s' \<Longrightarrow> pub_step g s s'"
  by (auto elim!: timed_step.cases intro: pub_step.intros)

text \<open>
  A run of one call and everything around it: the steps of \<open>g\<close>, the time it spends in them and the
  messages it hands over.
\<close>

inductive timed_run :: "TimeLimits \<Rightarrow> nat \<Rightarrow> PubState \<Rightarrow> nat \<Rightarrow> duration \<Rightarrow> nat \<Rightarrow> PubState \<Rightarrow> bool" for lim g s where
  tr_start: "timed_run lim g s 0 0 0 s"
| tr_own: "timed_run lim g s n t h s' \<Longrightarrow> timed_step lim g s' d k s'' \<Longrightarrow> timed_run lim g s (Suc n) (t + d) (h + k) s''"
| tr_other: "timed_run lim g s n t h s' \<Longrightarrow> f \<noteq> g \<Longrightarrow> pub_step f s' s'' \<Longrightarrow> timed_run lim g s n t h s''"
| tr_call: "timed_run lim g s n t h s' \<Longrightarrow> f \<noteq> g \<Longrightarrow> ps_pc s' f = Idle \<Longrightarrow> timed_run lim g s n t h (goto f Start s')"
| tr_tick: "timed_run lim g s n t h s' \<Longrightarrow> ps_now s' \<le> now \<Longrightarrow> timed_run lim g s n t h (s'\<lparr>ps_now := now\<rparr>)"

lemma timed_run_untimed: "timed_run lim g s n t h s' \<Longrightarrow> publish_run g s n s'"
  by (induction rule: timed_run.induct) (auto intro: publish_run.intros dest: timed_step_pub)

subsection \<open>What is left to wait for\<close>

text \<open>The most a reconnect can take, from the decision to dial and from the entry.\<close>

definition redial_time :: "TimeLimits \<Rightarrow> duration" where
  "redial_time lim = 2 * tl_dial lim + requestReconnectDelay + tl_setup lim"

definition reconnect_time :: "TimeLimits \<Rightarrow> duration" where
  "reconnect_time lim = max reconnectWait (redial_time lim + tl_close lim)"

definition send_time :: "TimeLimits \<Rightarrow> call_site \<Rightarrow> duration" where
  "send_time lim site =
     (case site of
        Retry \<Rightarrow> tl_write lim + publishConfirmTimeout
      | First \<Rightarrow> tl_write lim + (reconnect_time lim + (tl_write lim + publishConfirmTimeout)))"

fun time_left :: "TimeLimits \<Rightarrow> pc \<Rightarrow> duration" where
  "time_left lim Start = reconnect_time lim + send_time lim First"
| "time_left lim (Enter site gen) = reconnect_time lim + send_time lim site"
| "time_left lim (Waiting site gen w since) = reconnectWait + send_time lim site"
| "time_left lim (Woken site gen) = send_time lim site"
| "time_left lim (Dialing site ch) = redial_time lim + tl_close lim + send_time lim site"
| "time_left lim (Dialled site ch d) = tl_close lim + send_time lim site"
| "time_left lim (Closing site ses) = tl_close lim + send_time lim site"
| "time_left lim (Refetch site) = send_time lim site"
| "time_left lim (Sending site ses gen) = send_time lim site"
| "time_left lim Idle = 0"
| "time_left lim Panicked = 0"

lemma times_nonneg:
  assumes "limits_ok lim"
  shows "0 \<le> redial_time lim" "reconnectWait \<le> reconnect_time lim" "0 \<le> reconnect_time lim" "0 \<le> reconnectWait"
    "redial_time lim + tl_close lim \<le> reconnect_time lim" "0 \<le> tl_close lim" "0 \<le> tl_write lim"
    "0 \<le> publishConfirmTimeout"
proof -
  have w: "0 \<le> reconnectWait" by (simp add: reconnectWait_def)
  then have r: "0 \<le> reconnect_time lim" by (simp add: reconnect_time_def)
  show "0 \<le> redial_time lim" "0 \<le> tl_close lim" "0 \<le> tl_write lim"
    using assms by (simp_all add: redial_time_def limits_ok_def requestReconnectDelay_def)
  show "reconnectWait \<le> reconnect_time lim" "redial_time lim + tl_close lim \<le> reconnect_time lim"
    by (simp_all add: reconnect_time_def)
  show "0 \<le> publishConfirmTimeout" by (simp add: publishConfirmTimeout_def)
  show "0 \<le> reconnect_time lim" "0 \<le> reconnectWait" using r w by simp_all
qed

lemma send_time_nonneg: "limits_ok lim \<Longrightarrow> 0 \<le> send_time lim site"
  using times_nonneg by (simp add: send_time_def split: call_site.split)

lemma time_left_nonneg: "limits_ok lim \<Longrightarrow> 0 \<le> time_left lim p"
  using times_nonneg send_time_nonneg by (cases p) (simp_all add: add_nonneg_nonneg)

text \<open>Each step pays for its time out of what is left.\<close>

lemma locked_step_pays:
  assumes "limits_ok lim" and "pub_step g s s'" and "locked (ps_pc s g)"
  shows "time_left lim (ps_pc s' g) \<le> time_left lim (ps_pc s g)"
  using assms(2)
proof (cases rule: pub_step.cases)
  case (enter site failedGen)
  then show ?thesis using times_nonneg [OF assms(1)] send_time_nonneg [OF assms(1), of site]
    by (auto simp: enter_step_def reconnect_enter_def split: option.splits if_splits)
next
  case (swap site ch d)
  then show ?thesis using times_nonneg [OF assms(1)] send_time_nonneg [OF assms(1), of site]
    by (cases d) (auto simp: swap_step_def reconnect_swap_def split: option.splits)
qed (use assms(3) times_nonneg [OF assms(1)] in
    \<open>auto simp: send_time_nonneg [OF assms(1)] start_step_def woken_step_def refetch_step_def current_def split: option.splits if_splits\<close>)

lemma timed_step_pays:
  assumes "limits_ok lim" and "timed_step lim g s d h s'"
  shows "d + time_left lim (ps_pc s' g) \<le> time_left lim (ps_pc s g)"
  using assms(2)
proof (cases rule: timed_step.cases)
  case t_lock
  then show ?thesis using locked_step_pays [OF assms(1)] by simp
next
  case (t_send site ses gen w handed c ok d')
  then show ?thesis
    using amqpSession_publish_bounds [OF t_send(7)] times_nonneg [OF assms(1)]
    by (cases ok; cases site) (simp_all add: send_step_def send_time_def)
next
  case (t_dial site ch took u qt env broker r opened slept broker')
  have "dial_spent (de_dial env) took 0 requestReconnectAttempts requestReconnectDelay \<le>
      int requestReconnectAttempts * tl_dial lim + int (requestReconnectAttempts - 1) * requestReconnectDelay"
    using dial_spent_bounds [OF t_dial(5)] assms(1) by (simp add: limits_ok_def requestReconnectDelay_def)
  then show ?thesis using t_dial by (auto simp: dialled_step_def redial_time_def requestReconnectAttempts_def)
qed (use times_nonneg [OF assms(1)] in \<open>auto simp: send_time_nonneg [OF assms(1)]\<close>)

text \<open>A message that was handed over ends the call.\<close>

lemma timed_step_hands: "timed_step lim g s d h s' \<Longrightarrow> h \<le> 1 \<and> (h = 1 \<longrightarrow> ps_pc s' g = Idle)"
  by (auto elim!: timed_step.cases simp: send_step_def split: if_splits)

lemma pub_step_not_idle: "pub_step g s s' \<Longrightarrow> ps_pc s g \<noteq> Idle"
  by (auto elim: pub_step.cases)

lemma timed_run_inv:
  assumes "limits_ok lim" and "timed_run lim g s n t h s'"
  shows "t + time_left lim (ps_pc s' g) \<le> time_left lim (ps_pc s g) \<and> (h = 0 \<or> h = 1 \<and> ps_pc s' g = Idle)"
  using assms(2)
proof (induction rule: timed_run.induct)
  case (tr_own n t h s' d k s'')
  have "h = 0" using tr_own.IH pub_step_not_idle [OF timed_step_pub [OF tr_own(2)]] by simp
  then show ?case using tr_own.IH timed_step_pays [OF assms(1) tr_own(2)] timed_step_hands [OF tr_own(2)] by auto
next
  case (tr_other n t h s' f s'')
  then show ?case using rank_step [OF tr_other(3)] by simp
qed simp_all

lemma timed_progress:
  assumes "pub_reachable s" and "ps_pc s g \<noteq> Idle" and "limits_ok lim"
  shows "\<exists>now d h s'. ps_now s \<le> now \<and> timed_step lim g (s\<lparr>ps_now := now\<rparr>) d h s'"
proof -
  define now where "now = (case ps_pc s g of Waiting site f w since \<Rightarrow> max (ps_now s) (since + reconnectWait) | _ \<Rightarrow> ps_now s)"
  have now: "ps_now s \<le> now" by (simp add: now_def split: pc.split)
  let ?s = "s\<lparr>ps_now := now\<rparr>"
  have "\<exists>d h s'. timed_step lim g ?s d h s'"
  proof (cases "locked (ps_pc s g)")
    case True
    then have "\<forall>site f w since. ps_pc s g = Waiting site f w since \<longrightarrow> since + reconnectWait \<le> now" by auto
    with publish_progress [OF assms(1,2) now] obtain s' where "pub_step g ?s s'" by blast
    with True show ?thesis using t_lock [of ?s g s'] by auto
  next
    case False
    have "ps_pc s g \<noteq> Panicked" using always_a_session [OF assms(1)] by (simp add: session_there_def)
    then consider (send) site ses gen where "ps_pc s g = Sending site ses gen"
      | (wait) site f w since where "ps_pc s g = Waiting site f w since"
      | (dial) site ch where "ps_pc s g = Dialing site ch"
      | (close) site ses where "ps_pc s g = Closing site ses"
      using False assms(2) by (cases "ps_pc s g") auto
    then show ?thesis
    proof cases
      case send
      then show ?thesis using t_send [of ?s g site ses gen 0 lim False None False 0] assms(3)
        by (auto simp: amqpSession_publish_def limits_ok_def)
    next
      case wait
      then show ?thesis using t_timeout [of ?s g site f w since lim] by (auto simp: now_def)
    next
      case dial
      have "0 \<le> tl_dial lim" "0 \<le> tl_setup lim" using assms(3) by (simp_all add: limits_ok_def)
      then show ?thesis
        using t_dial [of ?s g site ch "\<lambda>_. 0" lim 0] dial by (metis PubState.select_convs(2) PubState.surjective PubState.update_convs(3) order_refl prod_cases4)
    next
      case close
      then show ?thesis using t_close [of ?s g site ses 0 lim] assms(3) by (auto simp: limits_ok_def)
    qed
  qed
  with now show ?thesis by blast
qed

text \<open>
  C39. Publishing returns in time. In any run, whatever the other goroutines do and whatever fails, one
  call of Publish makes at most 18 steps of its own, hands its message to the broker at most
  once, and spends at most two reconnects, two writes and one wait for a confirm; a reconnect is
  either the 1.5 seconds of waiting for somebody else's or two dials with half a second between
  them, the set-up of the channel and closing the old session. And it is never stuck: until it
  has returned it can take its next step without any other goroutine having to act.
\<close>
theorem publish_in_time:
  assumes "pub_reachable s" and "ps_pc s g = Start" and "limits_ok lim" and "timed_run lim g s n t h s'"
  shows "n \<le> 18 \<and> h \<le> 1 \<and>
    t \<le> 2 * max reconnectWait (2 * tl_dial lim + requestReconnectDelay + tl_setup lim + tl_close lim) +
      2 * tl_write lim + publishConfirmTimeout \<and>
    (ps_pc s' g \<noteq> Idle \<longrightarrow> (\<exists>now d k s''. ps_now s' \<le> now \<and> timed_step lim g (s'\<lparr>ps_now := now\<rparr>) d k s''))"
proof (intro conjI impI)
  have run: "publish_run g s n s'" using timed_run_untimed [OF assms(4)] .
  show "n \<le> 18" using publish_run_rank [OF run] assms(2) by simp
  have inv: "t + time_left lim (ps_pc s' g) \<le> time_left lim Start \<and> (h = 0 \<or> h = 1 \<and> ps_pc s' g = Idle)"
    using timed_run_inv [OF assms(3,4)] assms(2) by simp
  then show "h \<le> 1" by auto
  show "t \<le> 2 * max reconnectWait (2 * tl_dial lim + requestReconnectDelay + tl_setup lim + tl_close lim) +
      2 * tl_write lim + publishConfirmTimeout"
    using inv time_left_nonneg [OF assms(3), of "ps_pc s' g"]
    by (simp add: send_time_def reconnect_time_def redial_time_def)
  assume "ps_pc s' g \<noteq> Idle"
  with timed_progress [OF publish_run_reachable [OF run assms(1)] _ assms(3)]
  show "\<exists>now d k s''. ps_now s' \<le> now \<and> timed_step lim g (s'\<lparr>ps_now := now\<rparr>) d k s''" by blast
qed

subsection \<open>The slowest call, and the gateway in front of it\<close>

text \<open>\<open>newProxyTransport\<close> of api-gateway (cmd/main.go): how long the gateway waits for a service.\<close>

record Transport =
  tr_DialTimeout :: duration
  tr_ResponseHeaderTimeout :: duration
  tr_IdleConnTimeout :: duration

definition newProxyTransport :: Transport where
  "newProxyTransport = \<lparr>tr_DialTimeout = 5 * second, tr_ResponseHeaderTimeout = 10 * second, tr_IdleConnTimeout = 90 * second\<rparr>"

text \<open>A network in which only the dials take time, two seconds each (\<open>dialTimeout\<close>).\<close>

definition dialTimeout :: duration where "dialTimeout = 2 * second"

definition demo_limits :: TimeLimits where
  "demo_limits = \<lparr>tl_dial = dialTimeout, tl_setup = 0, tl_write = 0, tl_close = 0\<rparr>"

text \<open>Goroutine 0 of \<open>demo_pub\<close> after a run: its place, the publisher and the next number.\<close>

definition demo_at :: "nat \<Rightarrow> duration \<Rightarrow> nat \<Rightarrow> pc \<Rightarrow> Publisher \<Rightarrow> nat \<Rightarrow> bool" where
  "demo_at n t h c p f \<longleftrightarrow>
     (\<exists>s. timed_run demo_limits 0 demo_pub n t h s \<and> ps_pc s 0 = c \<and> ps_pub s = p \<and> ps_fresh s = f)"

lemma demo_step:
  assumes "demo_at n t h c p f"
    and "\<And>s. ps_pc s 0 = c \<Longrightarrow> ps_pub s = p \<Longrightarrow> ps_fresh s = f \<Longrightarrow>
      \<exists>s'. timed_step demo_limits 0 s d k s' \<and> ps_pc s' 0 = c' \<and> ps_pub s' = p' \<and> ps_fresh s' = f'"
    and "m = Suc n" and "u = t + d" and "l = h + k"
  shows "demo_at m u l c' p' f'"
  using assms unfolding demo_at_def by (blast intro: tr_own)

lemma demo_lock:
  assumes "demo_at n t h c p f" and "locked c" and "m = Suc n"
    and "\<And>s. ps_pc s 0 = c \<Longrightarrow> ps_pub s = p \<Longrightarrow> ps_fresh s = f \<Longrightarrow>
      \<exists>s'. pub_step 0 s s' \<and> ps_pc s' 0 = c' \<and> ps_pub s' = p' \<and> ps_fresh s' = f'"
  shows "demo_at m t h c' p' f'"
  using assms(1)
proof (rule demo_step)
  show "\<exists>s'. timed_step demo_limits 0 s 0 0 s' \<and> ps_pc s' 0 = c' \<and> ps_pub s' = p' \<and> ps_fresh s' = f'"
    if "ps_pc s 0 = c" "ps_pub s = p" "ps_fresh s = f" for s
    using assms(2,4) that by (blast intro: t_lock)
qed (use assms(3) in simp_all)

lemma demo_start: "demo_at n t h Start p f \<Longrightarrow> m = Suc n \<Longrightarrow> pb_cur p = None \<Longrightarrow> demo_at m t h (Enter First (pb_gen p)) p f"
  by (erule demo_lock) (auto intro!: exI [of _ "start_step 0 s" for s] first_send simp: start_step_def current_def)

lemma demo_enter:
  "demo_at n t h (Enter site (pb_gen p)) p f \<Longrightarrow> m = Suc n \<Longrightarrow> pb_inflight p = None \<Longrightarrow> pb_lastFail p = None \<Longrightarrow>
    demo_at m t h (Dialing site f) (p\<lparr>pb_inflight := Some f\<rparr>) (Suc f)"
  by (erule demo_lock)
    (auto intro!: exI [of _ "enter_step 0 site (pb_gen p) s" for s] enter simp: enter_step_def reconnect_enter_def)

lemma demo_swap:
  "demo_at n t h (Dialled site ch (Some ses)) p f \<Longrightarrow> m = Suc n \<Longrightarrow>
    demo_at m t h (case pb_cur p of None \<Rightarrow> Refetch site | Some old \<Rightarrow> Closing site old)
      (p\<lparr>pb_cur := Some ses, pb_gen := pb_gen p + 1, pb_inflight := None\<rparr>) f"
  by (erule demo_lock)
    (auto intro!: exI [of _ "swap_step 0 site ch (Some ses) s" for s] swap simp: swap_step_def reconnect_swap_def split: option.split)

lemma demo_refetch:
  "demo_at n t h (Refetch site) p f \<Longrightarrow> m = Suc n \<Longrightarrow> pb_cur p = Some ses \<Longrightarrow> demo_at m t h (Sending site ses (pb_gen p)) p f"
  by (erule demo_lock) (auto intro!: exI [of _ "refetch_step 0 site s" for s] refetch simp: refetch_step_def current_def)

lemma demo_close:
  "demo_at n t h (Closing site ses) p f \<Longrightarrow> m = Suc n \<Longrightarrow> demo_at m t h (Refetch site) p f"
  by (erule demo_step [where d = 0 and k = 0])
    (auto intro!: exI [of _ "goto 0 (Refetch site) (s\<lparr>ps_open := ps_open s - {ses}\<rparr>)" for s] t_close simp: demo_limits_def)

lemma demo_fail:
  "demo_at n t h (Sending First ses gen) p f \<Longrightarrow> m = Suc n \<Longrightarrow> demo_at m t h (Enter Retry gen) p f"
  using t_send [of _ 0 First ses gen 0 demo_limits False None False 0]
  by (elim demo_step [where d = 0 and k = 0])
    (auto intro!: exI [of _ "send_step 0 First gen False s" for s] simp: send_step_def demo_limits_def amqpSession_publish_def)

lemma demo_unconfirmed:
  "demo_at n t h (Sending Retry ses gen) p f \<Longrightarrow> m = Suc n \<Longrightarrow> u = t + publishConfirmTimeout \<Longrightarrow> demo_at m u (Suc h) Idle p f"
  using t_send [of _ 0 Retry ses gen 0 demo_limits True None True publishConfirmTimeout]
  by (elim demo_step [where d = publishConfirmTimeout and k = 1])
    (auto intro!: exI [of _ "send_step 0 Retry gen True s" for s]
      simp: send_step_def demo_limits_def amqpSession_publish_def waitForConfirm_def)

text \<open>A dial whose second attempt succeeds takes four and a half seconds.\<close>

lemma demo_dial:
  assumes "ps_pc s 0 = Dialing site ch"
  shows "\<exists>s'. timed_step demo_limits 0 s (9 * second div 2) 0 s' \<and>
    ps_pc s' 0 = Dialled site ch (Some (ps_fresh s)) \<and> ps_pub s' = ps_pub s \<and> ps_fresh s' = Suc (ps_fresh s)"
proof -
  let ?env = "\<lparr>de_dial = \<lambda>i. i = 1, de_channel = True, de_down = \<lambda>_. False\<rparr>"
  have "\<exists>opened slept broker'. dialAMQP [] ?env requestReconnectAttempts requestReconnectDelay empty_topology = (D_session, opened, slept, broker')"
    by (simp add: dialAMQP_def requestReconnectAttempts_def numeral_2_eq_2 publisher_calls_def empty_topology_def Let_def)
  then obtain opened slept broker' where
    d: "dialAMQP [] ?env requestReconnectAttempts requestReconnectDelay empty_topology = (D_session, opened, slept, broker')" by blast
  have "dial_spent (de_dial ?env) (\<lambda>_. dialTimeout) 0 requestReconnectAttempts requestReconnectDelay = 9 * second div 2"
    by (simp add: requestReconnectAttempts_def numeral_2_eq_2 dialTimeout_def requestReconnectDelay_def)
  with t_dial [OF assms _ _ _ d, of "\<lambda>_. dialTimeout" demo_limits 0]
  have "timed_step demo_limits 0 s (9 * second div 2) 0 (dialled_step 0 site ch True s)"
    by (simp add: demo_limits_def dialTimeout_def)
  then show ?thesis by (intro exI [of _ "dialled_step 0 site ch True s"]) (simp add: dialled_step_def)
qed

text \<open>
  The broker was down at start-up. The first reconnect needs its second dial; the session it gets
  dies before the message is written; so does the second; then no confirm arrives.
\<close>

lemma demo_dialling:
  "demo_at n t h (Dialing site ch) p f \<Longrightarrow> m = Suc n \<Longrightarrow> u = t + 9 * second div 2 \<Longrightarrow> demo_at m u h (Dialled site ch (Some f)) p (Suc f)"
  by (erule demo_step [where d = "9 * second div 2" and k = 0]) (use demo_dial in auto)

lemma demo_slowest: "\<exists>p f. demo_at 12 (12 * second) 1 Idle p f"
proof -
  let ?p = "\<lambda>c g i. \<lparr>pb_cur = c, pb_gen = g, pb_inflight = i, pb_lastFail = None\<rparr>"
  have "demo_at 0 0 0 Start (?p None 0 None) 0"
    unfolding demo_at_def
    by (intro exI [of _ demo_pub]) (simp add: tr_start demo_pub_def initial_pub_def NewPublisher_def newPublisher_def Let_def)
  from demo_start [OF this, of 1] have "demo_at 1 0 0 (Enter First 0) (?p None 0 None) 0" by simp
  from demo_enter [of 1 0 0 First "?p None 0 None" 0 2] this have "demo_at 2 0 0 (Dialing First 0) (?p None 0 (Some 0)) 1" by simp
  from demo_dialling [OF this, of 3] have "demo_at 3 (9 * second div 2) 0 (Dialled First 0 (Some 1)) (?p None 0 (Some 0)) 2"
    by (simp add: numeral_2_eq_2)
  from demo_swap [OF this, of 4] have "demo_at 4 (9 * second div 2) 0 (Refetch First) (?p (Some 1) 1 None) 2" by simp
  from demo_refetch [OF this, of 5 1] have "demo_at 5 (9 * second div 2) 0 (Sending First 1 1) (?p (Some 1) 1 None) 2" by simp
  from demo_fail [OF this, of 6] have "demo_at 6 (9 * second div 2) 0 (Enter Retry 1) (?p (Some 1) 1 None) 2" by simp
  from demo_enter [of 6 _ 0 Retry "?p (Some 1) 1 None" 2 7] this
  have "demo_at 7 (9 * second div 2) 0 (Dialing Retry 2) (?p (Some 1) 1 (Some 2)) 3" by simp
  from demo_dialling [OF this, of 8] have "demo_at 8 (9 * second) 0 (Dialled Retry 2 (Some 3)) (?p (Some 1) 1 (Some 2)) 4" by simp
  from demo_swap [OF this, of 9] have "demo_at 9 (9 * second) 0 (Closing Retry 1) (?p (Some 3) 2 None) 4" by (simp add: numeral_2_eq_2)
  from demo_close [OF this, of 10] have "demo_at 10 (9 * second) 0 (Refetch Retry) (?p (Some 3) 2 None) 4" by simp
  from demo_refetch [OF this, of 11 3] have "demo_at 11 (9 * second) 0 (Sending Retry 3 2) (?p (Some 3) 2 None) 4" by simp
  from demo_unconfirmed [OF this, of 12] show ?thesis by (auto simp: publishConfirmTimeout_def)
qed

text \<open>The bound is reached; it is two seconds more than the gateway waits for the answer.\<close>

theorem publish_in_time_witness:
  "\<exists>s'. timed_run demo_limits 0 demo_pub 12 (12 * second) 1 s' \<and> ps_pc s' 0 = Idle \<and>
     12 * second \<le> 2 * max reconnectWait (2 * tl_dial demo_limits + requestReconnectDelay + tl_setup demo_limits + tl_close demo_limits) +
       2 * tl_write demo_limits + publishConfirmTimeout \<and>
     tr_ResponseHeaderTimeout newProxyTransport < 12 * second"
proof -
  obtain s' where r: "timed_run demo_limits 0 demo_pub 12 (12 * second) 1 s'" "ps_pc s' 0 = Idle"
    using demo_slowest unfolding demo_at_def by blast
  have "limits_ok demo_limits" by (simp add: limits_ok_def demo_limits_def dialTimeout_def)
  moreover have "ps_pc demo_pub 0 = Start" by (simp add: demo_pub_def)
  ultimately show ?thesis
    using publish_in_time [OF demo_pub_reachable _ _ r(1)] r by (auto simp: newProxyTransport_def)
qed

end
