(* ===== verification/ApiDoc.thy ===== *)
theory ApiDoc
  imports Http
begin

section \<open>API descriptions and the JSON they describe\<close>

text \<open>
  What the OpenAPI documents of auth-service and ticket-service (docs/docs.go) are made of: the
  operations with their parameters and responses, and the schemas of JSON values with the validation
  the specification gives them; and the reply envelope of pkg/response as JSON. The free text of
  the documents (descriptions of operations and parameters) is left out. A reference to a schema
  is the constant of that schema.
\<close>

subsection \<open>Schemas\<close>

datatype schema =
    S_any
  | S_string "nat option" "nat option"  \<comment> \<open>\<open>minLength\<close>, \<open>maxLength\<close>\<close>
  | S_integer
  | S_number
  | S_boolean
  | S_file
  | S_array schema
  | S_object "string list" "(string \<times> schema) list"  \<comment> \<open>\<open>required\<close>, \<open>properties\<close>\<close>
  | S_allOf "schema list"

abbreviation S_text :: schema where "S_text \<equiv> S_string None None"

text \<open>An integer literal of JSON.\<close>

definition int_literal :: "string \<Rightarrow> bool" where
  "int_literal lit =
     (let ds = (case lit of [] \<Rightarrow> [] | c # cs \<Rightarrow> if c = CHR ''-'' then cs else lit)
      in ds \<noteq> [] \<and> list_all is_digit ds)"

definition in_range :: "nat option \<Rightarrow> nat option \<Rightarrow> nat \<Rightarrow> bool" where
  "in_range lo hi n \<longleftrightarrow> (case lo of None \<Rightarrow> True | Some l \<Rightarrow> l \<le> n) \<and> (case hi of None \<Rightarrow> True | Some h \<Rightarrow> n \<le> h)"

text \<open>
  Validation: a length counts characters, members that are not described are allowed, and
  \<open>null\<close> is a value of no type (OpenAPI 2 has no nullable types).
\<close>

fun valid :: "schema \<Rightarrow> raw \<Rightarrow> bool" where
  "valid S_any v = True"
| "valid (S_string lo hi) v = (case v of Raw_str s \<Rightarrow> in_range lo hi (RuneCount s) | _ \<Rightarrow> False)"
| "valid S_integer v = (case v of Raw_num lit \<Rightarrow> int_literal lit | _ \<Rightarrow> False)"
| "valid S_number v = (case v of Raw_num lit \<Rightarrow> True | _ \<Rightarrow> False)"
| "valid S_boolean v = (case v of Raw_bool b \<Rightarrow> True | _ \<Rightarrow> False)"
| "valid S_file v = False"
| "valid (S_array sc) v = (case v of Raw_arr vs \<Rightarrow> list_all (valid sc) vs | _ \<Rightarrow> False)"
| "valid (S_object req props) v =
     (case v of
        Raw_obj kvs \<Rightarrow> (\<forall>k\<in>set req. k \<in> fst ` set kvs) \<and>
          (\<forall>p\<in>set props. \<forall>(k, x)\<in>set kvs. k = fst p \<longrightarrow> valid (snd p) x)
      | _ \<Rightarrow> False)"
| "valid (S_allOf scs) v = (\<forall>sc\<in>set scs. valid sc v)"

text \<open>A reply with its body: a JSON value, or a file (\<open>None\<close>).\<close>

definition conforms_to :: "schema \<Rightarrow> raw option \<Rightarrow> bool" where
  "conforms_to sc body = (case body of None \<Rightarrow> sc = S_file | Some v \<Rightarrow> valid sc v)"

subsection \<open>Operations\<close>

datatype param_in = In_query | In_path | In_body | In_formData

record Parameter =
  pa_name :: string
  pa_in :: param_in
  pa_required :: bool
  pa_schema :: schema
  pa_enum :: "string list"
  pa_default :: "string option"

definition param :: "string \<Rightarrow> param_in \<Rightarrow> bool \<Rightarrow> schema \<Rightarrow> string list \<Rightarrow> string option \<Rightarrow> Parameter" where
  "param n i req sc enum dflt =
     \<lparr>pa_name = n, pa_in = i, pa_required = req, pa_schema = sc, pa_enum = enum, pa_default = dflt\<rparr>"

record Operation =
  op_method :: string
  op_path :: string
  op_bearer :: bool  \<comment> \<open>\<open>security\<close>: \<open>BearerAuth\<close>\<close>
  op_tags :: "string list"
  op_summary :: string
  op_consumes :: "string list"
  op_produces :: "string list"
  op_parameters :: "Parameter list"
  op_responses :: "(nat \<times> string \<times> schema) list"  \<comment> \<open>status, description, schema\<close>

record Spec =
  sp_Version :: string
  sp_Host :: string
  sp_BasePath :: string
  sp_Title :: string

text \<open>The document of a response by its status.\<close>

definition documented :: "Operation \<Rightarrow> nat \<Rightarrow> schema option" where
  "documented op c = map_option snd (map_of (op_responses op) c)"

text \<open>The segments of a path; one in braces is a parameter.\<close>

definition template :: "string \<Rightarrow> seg list" where
  "template path = map (\<lambda>s. if is_prefix ''{'' s then Par else Lit s) (tl (Split (CHR ''/'') path))"

text \<open>
  A reply of an operation answers its documentation: its status is documented and its body is
  of the documented type, or it is one of the statuses a table admits to be undocumented.
\<close>

definition answers :: "((string \<times> string) \<times> nat list) list \<Rightarrow> Operation \<Rightarrow> nat \<Rightarrow> raw option \<Rightarrow> bool" where
  "answers extra op c body =
     (case documented op c of
        Some sc \<Rightarrow> conforms_to sc body
      | None \<Rightarrow> (case map_of extra (op_method op, op_path op) of None \<Rightarrow> False | Some cs \<Rightarrow> c \<in> set cs))"

subsection \<open>Replies as JSON: pkg/response\<close>

definition schema_Response :: schema where
  "schema_Response = S_object []
     [(''data'', S_any), (''error'', S_text), (''message'', S_text), (''success'', S_boolean)]"

definition data_of :: "schema \<Rightarrow> schema" where
  "data_of sc = S_allOf [schema_Response, S_object [] [(''data'', sc)]]"

text \<open>The envelope with its struct tags; \<open>omitempty\<close> drops \<open>data\<close> from an error and an empty \<open>error\<close>.\<close>

fun Response_json :: "('d \<Rightarrow> raw) \<Rightarrow> 'd response \<Rightarrow> raw" where
  "Response_json j (Success d) =
     Raw_obj [(''success'', Raw_bool True), (''message'', Raw_str ''success''), (''data'', j d)]"
| "Response_json j (Error c m e) =
     Raw_obj ([(''success'', Raw_bool False), (''message'', Raw_str m)] @ (if e = [] then [] else [(''error'', Raw_str e)]))"

definition show_int :: "int \<Rightarrow> string" where
  "show_int n = (if n < 0 then CHR ''-'' # show_nat (nat (- n)) else show_nat (nat n))"

abbreviation json_nat :: "nat \<Rightarrow> raw" where "json_nat n \<equiv> Raw_num (show_nat n)"

abbreviation json_int :: "int \<Rightarrow> raw" where "json_int n \<equiv> Raw_num (show_int n)"

subsection \<open>Validity of what the services send\<close>

lemma in_range_None [simp]: "in_range None None n"
  by (simp add: in_range_def)

lemma valid_text [simp]: "valid S_text (Raw_str s)"
  by simp

lemma int_literal_show [simp]: "int_literal (show_nat n)"
proof -
  have "list_all is_digit (show_nat n)" "show_nat n \<noteq> []" by simp_all
  moreover have "\<not> is_digit (CHR ''-'')" by (simp add: is_digit_def)
  ultimately show ?thesis by (cases "show_nat n") (auto simp: int_literal_def)
qed

lemma int_literal_show_int [simp]: "int_literal (show_int n)"
proof (cases "n < 0")
  case True
  have "int_literal (CHR ''-'' # show_nat m)" for m by (simp add: int_literal_def)
  with True show ?thesis by (simp add: show_int_def)
qed (simp add: show_int_def)

declare Response_json.simps [simp del]

lemma valid_Response [simp]: "valid schema_Response (Response_json j reply)"
  by (cases reply) (simp_all add: schema_Response_def Response_json.simps)

lemma valid_data_of [simp]: "valid (data_of sc) (Response_json j (Success d)) = valid sc (j d)"
proof -
  have "valid schema_Response (Response_json j (Success d))" by (rule valid_Response)
  then show ?thesis by (simp add: data_of_def Response_json.simps del: valid_Response)
qed

lemma conforms_to_Some [simp]: "conforms_to sc (Some v) = valid sc v"
  by (simp add: conforms_to_def)

lemma conforms_to_file [simp]: "conforms_to S_file None"
  by (simp add: conforms_to_def)

end
