(* ===== verification/AuthApi.thy ===== *)
theory AuthApi
  imports ApiDoc AuthService
begin

section \<open>The documented API of auth-service (docs/docs.go)\<close>

text \<open>
  The OpenAPI document of auth-service, definition by definition, and the theorem that the service
  keeps it: what every operation replies is documented, with a body of the documented type, except
  for the statuses of a table of their own. The document is generated from the annotations of
  handler.go.
\<close>

subsection \<open>Schemas\<close>

definition schema_ChangePasswordRequest :: schema where
  "schema_ChangePasswordRequest = S_object [''new_password'', ''old_password'']
     [(''new_password'', S_string (Some 8) (Some 72)), (''old_password'', S_text)]"

definition schema_CreateStaffRequest :: schema where
  "schema_CreateStaffRequest = S_object [''email'', ''password'', ''role'']
     [(''department'', S_string None (Some 100)), (''email'', S_text), (''name'', S_string None (Some 100)),
      (''password'', S_string (Some 8) (Some 72)), (''role'', S_text)]"

definition schema_LoginRequest :: schema where
  "schema_LoginRequest = S_object [''email'', ''password'']
     [(''email'', S_text), (''password'', S_string None (Some 72))]"

definition schema_LogoutRequest :: schema where
  "schema_LogoutRequest = S_object []
     [(''refresh_token'', S_text)]"

definition schema_RefreshRequest :: schema where
  "schema_RefreshRequest = S_object [''refresh_token'']
     [(''refresh_token'', S_text)]"

definition schema_RegisterRequest :: schema where
  "schema_RegisterRequest = S_object [''department'', ''email'', ''name'', ''password'']
     [(''department'', S_string None (Some 100)), (''email'', S_text), (''name'', S_string (Some 1) (Some 100)),
      (''password'', S_string (Some 8) (Some 72))]"

definition schema_TokenPair :: schema where
  "schema_TokenPair = S_object []
     [(''access_token'', S_text), (''refresh_token'', S_text)]"

definition schema_UpdateAvailabilityRequest :: schema where
  "schema_UpdateAvailabilityRequest = S_object [''availability'']
     [(''availability'', S_text)]"

definition schema_UpdateProfileRequest :: schema where
  "schema_UpdateProfileRequest = S_object [''name'']
     [(''department'', S_string None (Some 100)), (''name'', S_string (Some 1) (Some 100))]"

definition schema_UserResponse :: schema where
  "schema_UserResponse = S_object []
     [(''availability'', S_text), (''department'', S_text), (''email'', S_text), (''id'', S_integer),
      (''name'', S_text), (''role'', S_text)]"

subsection \<open>Operations\<close>

definition doc_get_admin_agents :: Operation where
  "doc_get_admin_agents = \<lparr>op_method = ''GET'', op_path = ''/admin/agents'', op_bearer = True,
     op_tags = [''Admin''], op_summary = ''List agent accounts'',
     op_consumes = [], op_produces = [''application/json''],
     op_parameters = [],
     op_responses = [(200, ''OK'', data_of (S_array schema_UserResponse)),
       (403, ''forbidden'', schema_Response)]\<rparr>"

definition doc_post_admin_staff :: Operation where
  "doc_post_admin_staff = \<lparr>op_method = ''POST'', op_path = ''/admin/staff'', op_bearer = True,
     op_tags = [''Admin''], op_summary = ''Create an agent or admin account'',
     op_consumes = [''application/json''], op_produces = [''application/json''],
     op_parameters = [param ''request'' In_body True schema_CreateStaffRequest [] None],
     op_responses = [(200, ''staff account created'', schema_Response),
       (400, ''invalid input'', schema_Response),
       (403, ''forbidden'', schema_Response),
       (409, ''email already registered'', schema_Response)]\<rparr>"

definition doc_post_change_password :: Operation where
  "doc_post_change_password = \<lparr>op_method = ''POST'', op_path = ''/change-password'', op_bearer = True,
     op_tags = [''Auth''], op_summary = ''Change own password'',
     op_consumes = [''application/json''], op_produces = [''application/json''],
     op_parameters = [param ''request'' In_body True schema_ChangePasswordRequest [] None],
     op_responses = [(200, ''OK'', schema_Response),
       (401, ''unauthorized or wrong password'', schema_Response)]\<rparr>"

definition doc_post_login :: Operation where
  "doc_post_login = \<lparr>op_method = ''POST'', op_path = ''/login'', op_bearer = False,
     op_tags = [''Auth''], op_summary = ''Log in'',
     op_consumes = [''application/json''], op_produces = [''application/json''],
     op_parameters = [param ''request'' In_body True schema_LoginRequest [] None],
     op_responses = [(200, ''Token pair'', data_of schema_TokenPair),
       (400, ''invalid input'', schema_Response),
       (401, ''invalid credentials'', schema_Response),
       (429, ''rate limited'', schema_Response)]\<rparr>"

definition doc_post_logout :: Operation where
  "doc_post_logout = \<lparr>op_method = ''POST'', op_path = ''/logout'', op_bearer = True,
     op_tags = [''Auth''], op_summary = ''Log out'',
     op_consumes = [''application/json''], op_produces = [''application/json''],
     op_parameters = [param ''request'' In_body False schema_LogoutRequest [] None],
     op_responses = [(200, ''logged out'', schema_Response),
       (401, ''unauthorized'', schema_Response)]\<rparr>"

definition doc_get_me :: Operation where
  "doc_get_me = \<lparr>op_method = ''GET'', op_path = ''/me'', op_bearer = True,
     op_tags = [''Auth''], op_summary = ''Current user profile'',
     op_consumes = [], op_produces = [''application/json''],
     op_parameters = [],
     op_responses = [(200, ''OK'', data_of schema_UserResponse),
       (401, ''unauthorized'', schema_Response)]\<rparr>"

definition doc_patch_me :: Operation where
  "doc_patch_me = \<lparr>op_method = ''PATCH'', op_path = ''/me'', op_bearer = True,
     op_tags = [''Auth''], op_summary = ''Update own profile'',
     op_consumes = [''application/json''], op_produces = [''application/json''],
     op_parameters = [param ''request'' In_body True schema_UpdateProfileRequest [] None],
     op_responses = [(200, ''OK'', data_of schema_UserResponse),
       (400, ''invalid input'', schema_Response),
       (401, ''unauthorized'', schema_Response)]\<rparr>"

definition doc_patch_me_availability :: Operation where
  "doc_patch_me_availability = \<lparr>op_method = ''PATCH'', op_path = ''/me/availability'', op_bearer = True,
     op_tags = [''Auth''], op_summary = ''Update own availability'',
     op_consumes = [''application/json''], op_produces = [''application/json''],
     op_parameters = [param ''request'' In_body True schema_UpdateAvailabilityRequest [] None],
     op_responses = [(200, ''OK'', schema_Response),
       (400, ''invalid availability value'', schema_Response)]\<rparr>"

definition doc_post_refresh :: Operation where
  "doc_post_refresh = \<lparr>op_method = ''POST'', op_path = ''/refresh'', op_bearer = False,
     op_tags = [''Auth''], op_summary = ''Refresh tokens'',
     op_consumes = [''application/json''], op_produces = [''application/json''],
     op_parameters = [param ''request'' In_body True schema_RefreshRequest [] None],
     op_responses = [(200, ''New token pair'', data_of schema_TokenPair),
       (400, ''invalid input'', schema_Response),
       (401, ''invalid refresh token'', schema_Response),
       (429, ''rate limited'', schema_Response)]\<rparr>"

definition doc_post_register :: Operation where
  "doc_post_register = \<lparr>op_method = ''POST'', op_path = ''/register'', op_bearer = False,
     op_tags = [''Auth''], op_summary = ''Register a new user'',
     op_consumes = [''application/json''], op_produces = [''application/json''],
     op_parameters = [param ''request'' In_body True schema_RegisterRequest [] None],
     op_responses = [(200, ''registered'', schema_Response),
       (400, ''invalid input'', schema_Response),
       (409, ''email already registered'', schema_Response),
       (429, ''rate limited'', schema_Response)]\<rparr>"

definition auth_api :: "Operation list" where
  "auth_api =
     [doc_get_admin_agents,
      doc_post_admin_staff,
      doc_post_change_password,
      doc_post_login,
      doc_post_logout,
      doc_get_me,
      doc_patch_me,
      doc_patch_me_availability,
      doc_post_refresh,
      doc_post_register]"

definition auth_spec :: Spec where
  "auth_spec = \<lparr>sp_Version = ''1.0'', sp_Host = ''localhost:8080'', sp_BasePath = ''/auth'',
     sp_Title = ''Helpdesk Auth Service API''\<rparr>"

subsection \<open>The data of a reply as JSON\<close>

text \<open>\<open>TokenPair\<close> is sent as a map, whose keys are printed in order; \<open>ts\<close> is the formatted clock.\<close>

definition UserResponse_json :: "UserResponse \<Rightarrow> raw" where
  "UserResponse_json u = Raw_obj
     [(''id'', json_nat (ur_ID u)), (''name'', Raw_str (ur_Name u)), (''email'', Raw_str (ur_Email u)),
      (''department'', Raw_str (ur_Department u)), (''availability'', Raw_str (ur_Availability u)), (''role'', Raw_str (ur_Role u))]"

fun auth_data_json :: "string \<Rightarrow> auth_data \<Rightarrow> raw" where
  "auth_data_json ts (D_text s) = Raw_str s"
| "auth_data_json ts D_health = Raw_obj
     [(''dependencies'', Raw_obj [(''database'', Raw_str ''connected'')]), (''service'', Raw_str ''auth-service''),
      (''status'', Raw_str ''up''), (''timestamp'', Raw_str ts)]"
| "auth_data_json ts (D_tokens access refresh) = Raw_obj [(''access_token'', Raw_str access), (''refresh_token'', Raw_str refresh)]"
| "auth_data_json ts (D_user u) = UserResponse_json u"
| "auth_data_json ts (D_users us) = Raw_arr (map UserResponse_json us)"

abbreviation auth_json :: "string \<Rightarrow> auth_data response \<Rightarrow> raw" where
  "auth_json ts \<equiv> Response_json (auth_data_json ts)"

lemma UserResponse_valid [simp]: "valid schema_UserResponse (UserResponse_json u)"
  by (simp add: schema_UserResponse_def UserResponse_json_def)

lemma TokenPair_valid [simp]: "valid schema_TokenPair (Raw_obj [(''access_token'', Raw_str access), (''refresh_token'', Raw_str refresh)])"
  by (simp add: schema_TokenPair_def)

subsection \<open>The replies of the handlers\<close>

text \<open>
  Statuses that occur but are not documented. Every failing statement is a 500; the others are
  the identifier the gateway sends (\<open>/logout\<close>), a user that is gone (\<open>/me\<close>), a missing identity
  (\<open>/me/availability\<close>) and an invalid body (\<open>/change-password\<close>).
\<close>

definition auth_undocumented :: "((string \<times> string) \<times> nat list) list" where
  "auth_undocumented =
     [((''POST'', ''/register''), [500]), ((''POST'', ''/login''), [500]), ((''POST'', ''/refresh''), [500]),
      ((''POST'', ''/logout''), [400, 500]), ((''POST'', ''/admin/staff''), [500]), ((''GET'', ''/admin/agents''), [500]),
      ((''GET'', ''/me''), [404]), ((''PATCH'', ''/me''), [500]), ((''PATCH'', ''/me/availability''), [401, 500]),
      ((''POST'', ''/change-password''), [400, 500])]"

definition auth_answers :: "string \<Rightarrow> Operation \<Rightarrow> auth_data response \<Rightarrow> bool" where
  "auth_answers ts op reply \<longleftrightarrow> answers auth_undocumented op (status reply) (Some (auth_json ts reply))"

lemmas auth_docs = doc_get_admin_agents_def doc_post_admin_staff_def doc_post_change_password_def doc_post_login_def doc_post_logout_def doc_get_me_def doc_patch_me_def doc_patch_me_availability_def doc_post_refresh_def doc_post_register_def

lemma auth_answers_Error:
  "auth_answers ts op (Error c m e) \<longleftrightarrow>
     (case documented op c of Some sc \<Rightarrow> valid sc (auth_json ts (Error c m e))
      | None \<Rightarrow> (case map_of auth_undocumented (op_method op, op_path op) of None \<Rightarrow> False | Some cs \<Rightarrow> c \<in> set cs))"
  by (simp add: auth_answers_def answers_def split: option.split)

lemma auth_answers_Success:
  "auth_answers ts op (Success d) \<longleftrightarrow> (case documented op 200 of Some sc \<Rightarrow> valid sc (auth_json ts (Success d))
      | None \<Rightarrow> (case map_of auth_undocumented (op_method op, op_path op) of None \<Rightarrow> False | Some cs \<Rightarrow> 200 \<in> set cs))"
  by (simp add: auth_answers_def answers_def split: option.split)

lemmas auth_answers = auth_answers_Error auth_answers_Success auth_docs documented_def auth_undocumented_def

lemma Register_answers: "auth_answers ts doc_post_register (fst (AuthHandler_Register h env r s))"
  by (simp add: AuthHandler_Register_def auth_answers split: option.split sum.split prod.split)

lemma Login_answers: "auth_answers ts doc_post_login (fst (AuthHandler_Login h env r s))"
  by (simp add: AuthHandler_Login_def auth_answers split: option.split sum.split prod.split)

lemma Logout_answers: "auth_answers ts doc_post_logout (fst (AuthHandler_Logout h env r s))"
  by (simp add: AuthHandler_Logout_def auth_answers Let_def split: option.split sum.split prod.split)

lemma CreateStaff_answers: "auth_answers ts doc_post_admin_staff (fst (AuthHandler_CreateStaff h env r s))"
  by (simp add: AuthHandler_CreateStaff_def auth_answers split: option.split sum.split prod.split)

lemma Me_answers: "auth_answers ts doc_get_me (fst (AuthHandler_Me env r s))"
  by (simp add: AuthHandler_Me_def auth_answers split: option.split sum.split prod.split)

lemma ChangePassword_answers: "auth_answers ts doc_post_change_password (fst (AuthHandler_ChangePassword h env r s))"
  by (simp add: AuthHandler_ChangePassword_def auth_answers split: option.split sum.split prod.split)

lemma UpdateProfile_answers: "auth_answers ts doc_patch_me (fst (AuthHandler_UpdateProfile env r s))"
  by (simp add: AuthHandler_UpdateProfile_def auth_answers split: option.split sum.split prod.split)

lemma UpdateAvailability_answers: "auth_answers ts doc_patch_me_availability (fst (AuthHandler_UpdateAvailability env r s))"
  by (simp add: AuthHandler_UpdateAvailability_def auth_answers split: option.split sum.split prod.split)

lemma ListAgents_answers: "auth_answers ts doc_get_admin_agents (fst (AuthHandler_ListAgents env s))"
  by (simp add: AuthHandler_ListAgents_def auth_answers list_all_iff split: option.split sum.split)

lemma Refresh_answers: "auth_answers ts doc_post_refresh (fst (AuthHandler_Refresh h env r s))"
  by (simp add: AuthHandler_Refresh_def auth_answers Let_def split: option.split sum.split prod.split json.split)

lemma after_answers:
  "(\<And>s. auth_answers ts op (fst (f s))) \<Longrightarrow> (\<And>reply. refused = Some reply \<Longrightarrow> auth_answers ts op reply) \<Longrightarrow>
    auth_answers ts op (fst (after refused f srv))"
  by (auto simp: after_def split: option.split prod.split) (metis fst_conv)

lemma after_None_answers: "(\<And>s. auth_answers ts op (fst (f s))) \<Longrightarrow> auth_answers ts op (fst (after None f srv))"
  by (rule after_answers) simp_all

lemma limited_answers:
  assumes "\<And>s. auth_answers ts op (fst (f s))" and "auth_answers ts op (Error 429 ''too many requests'' ''RATE_LIMITED'')"
  shows "auth_answers ts op (fst (limited rd env r f srv))"
proof -
  have "reply = Error 429 ''too many requests'' ''RATE_LIMITED''"
    if "RateLimitMiddleware rd (ae_now env) r rl = (Some reply, rl')" for reply :: "auth_data response" and rl rl'
    using that by (auto simp: RateLimitMiddleware_def split: prod.splits if_splits)
  with assms show ?thesis unfolding limited_def by (auto split: prod.split intro!: after_answers)
qed

lemma RequireRole_answers:
  "RequireRole role r = Some reply \<Longrightarrow> documented op 403 = Some schema_Response \<Longrightarrow> auth_answers ts op reply"
  by (auto simp: RequireRole_def auth_answers_Error split: if_splits)

lemma auth_docs_sel [simp]:
  "op_method doc_get_admin_agents = ''GET''" "op_path doc_get_admin_agents = ''/admin/agents''"
  "op_method doc_post_admin_staff = ''POST''" "op_path doc_post_admin_staff = ''/admin/staff''"
  "op_method doc_post_change_password = ''POST''" "op_path doc_post_change_password = ''/change-password''"
  "op_method doc_post_login = ''POST''" "op_path doc_post_login = ''/login''"
  "op_method doc_post_logout = ''POST''" "op_path doc_post_logout = ''/logout''"
  "op_method doc_get_me = ''GET''" "op_path doc_get_me = ''/me''"
  "op_method doc_patch_me = ''PATCH''" "op_path doc_patch_me = ''/me''"
  "op_method doc_patch_me_availability = ''PATCH''" "op_path doc_patch_me_availability = ''/me/availability''"
  "op_method doc_post_refresh = ''POST''" "op_path doc_post_refresh = ''/refresh''"
  "op_method doc_post_register = ''POST''" "op_path doc_post_register = ''/register''"
  by (simp_all add: auth_docs)

lemma auth_route_answers:
  assumes "op \<in> set auth_api" and "rq_method r = op_method op" and "rq_path r = op_path op"
    and "InternalOnlyMiddleware secret r = (None :: auth_data response option)"
  shows "auth_answers ts op (fst (auth_handle h secret rd env r srv))"
proof -
  have inner: "internalOnly secret r chain srv = chain srv" for chain :: "AuthServer \<Rightarrow> auth_data response \<times> AuthServer"
    using assms(4) by (simp add: internalOnly_def)
  have limits: "auth_answers ts op (Error 429 ''too many requests'' ''RATE_LIMITED'')"
    if "op \<in> {doc_post_register, doc_post_login, doc_post_refresh}" for op
    using that by (auto simp: auth_answers)
  have admin: "auth_answers ts op reply"
    if "op \<in> {doc_post_admin_staff, doc_get_admin_agents}" "RequireRole ''admin'' r = Some reply" for op reply
    using that by (auto simp: auth_docs documented_def elim: RequireRole_answers)
  note handlers = Register_answers Login_answers Logout_answers CreateStaff_answers Me_answers ChangePassword_answers
    UpdateProfile_answers UpdateAvailability_answers ListAgents_answers Refresh_answers
  show ?thesis
    using assms(1-3) unfolding auth_api_def list.set
    by (elim insertE emptyE)
      (simp_all add: auth_handle_def auth_RegisterRoutes_def inner after_None_answers after_answers limited_answers handlers limits admin)
qed

text \<open>
  C35. What auth-service replies is what its API document says. For every documented operation, whatever the
  body, the headers and the state, and whatever statements fail: the reply to a request that came
  through the gateway has a documented status with a body of the documented type, or one of the
  statuses of the table above.
\<close>
theorem auth_replies_documented:
  assumes "op \<in> set auth_api" and "rq_method r = op_method op" and "rq_path r = op_path op"
    and "InternalOnlyMiddleware secret r = (None :: auth_data response option)"
  shows "auth_answers ts op (fst (auth_handle h secret rd env r srv))"
  using assms by (rule auth_route_answers)

text \<open>A password change without a body is answered 400, which the document does not list.\<close>

theorem auth_replies_documented_witness:
  "auth_answers [] doc_post_change_password (Error 400 ''invalid input'' ''bad_request'') \<and>
   documented doc_post_change_password 400 = None"
proof -
  let ?r = "demo_request ''POST'' ''/change-password'' []"
  have "InternalOnlyMiddleware ''s'' ?r = (None :: auth_data response option)"
    by (simp add: InternalOnly_pass GetHeader_def demo_request_def)
  from auth_replies_documented [OF _ _ _ this, of doc_post_change_password "[]" demo_auth False demo_env demo_server]
  have "auth_answers [] doc_post_change_password (fst (auth_handle demo_auth ''s'' False demo_env ?r demo_server))"
    by (simp add: auth_api_def demo_request_def)
  moreover have "fst (auth_handle demo_auth ''s'' False demo_env ?r demo_server) = Error 400 ''invalid input'' ''bad_request''"
    by code_simp
  ultimately show ?thesis by (simp add: documented_def auth_docs)
qed

end
