(* ===== verification/TicketApi.thy ===== *)
theory TicketApi
  imports ApiDoc TicketSafety
begin

section \<open>The documented API of ticket-service (docs/docs.go)\<close>

text \<open>
  The OpenAPI document of ticket-service, definition by definition, and the theorem that says how far
  the service keeps it: a reply answers its documentation exactly if it shows no unassigned
  ticket, whose agent is sent as \<open>null\<close>. The document is generated from the annotations of the
  handlers.
\<close>

subsection \<open>Schemas\<close>

definition schema_CriticalTicketRow :: schema where
  "schema_CriticalTicketRow = S_object []
     [(''created_at'', S_text), (''id'', S_integer), (''title'', S_text)]"

definition schema_AgentStat :: schema where
  "schema_AgentStat = S_object []
     [(''agent_id'', S_integer), (''avg_resolution_seconds'', S_number), (''total_assigned'', S_integer),
      (''total_resolved'', S_integer)]"

definition schema_CriticalTrend :: schema where
  "schema_CriticalTrend = S_object []
     [(''count'', S_integer), (''tickets'', S_array schema_CriticalTicketRow)]"

definition schema_PeriodCount :: schema where
  "schema_PeriodCount = S_object []
     [(''count'', S_integer), (''period'', S_text), (''status'', S_text)]"

definition schema_Ticket :: schema where
  "schema_Ticket = S_object []
     [(''assigned_agent_id'', S_integer), (''assigned_at'', S_text), (''closed_at'', S_text),
      (''created_at'', S_text), (''department'', S_text), (''description'', S_text), (''due_at'', S_text),
      (''id'', S_integer), (''priority'', S_text), (''resolved_at'', S_text), (''status'', S_text),
      (''title'', S_text), (''updated_at'', S_text), (''user_id'', S_integer)]"

definition schema_TicketAttachment :: schema where
  "schema_TicketAttachment = S_object []
     [(''content_type'', S_text), (''created_at'', S_text), (''filename'', S_text), (''id'', S_integer),
      (''size'', S_integer), (''ticket_id'', S_integer), (''uploader_id'', S_integer)]"

definition schema_TicketComment :: schema where
  "schema_TicketComment = S_object []
     [(''author_id'', S_integer), (''author_role'', S_text), (''body'', S_text), (''created_at'', S_text),
      (''id'', S_integer), (''is_internal'', S_boolean), (''ticket_id'', S_integer)]"

definition schema_TicketStatusHistory :: schema where
  "schema_TicketStatusHistory = S_object []
     [(''changed_at'', S_text), (''changed_by'', S_integer), (''from_status'', S_text), (''id'', S_integer),
      (''ticket_id'', S_integer), (''to_status'', S_text)]"

definition schema_AssignTicketRequest :: schema where
  "schema_AssignTicketRequest = S_object []
     [(''agent_id'', S_integer)]"

definition schema_CreateCommentRequest :: schema where
  "schema_CreateCommentRequest = S_object [''body'']
     [(''body'', S_string (Some 1) (Some 4000)), (''is_internal'', S_boolean)]"

definition schema_CreateTicketRequest :: schema where
  "schema_CreateTicketRequest = S_object [''title'']
     [(''department'', S_text), (''description'', S_text), (''priority'', S_text), (''title'', S_text)]"

definition schema_UpdateStatusRequest :: schema where
  "schema_UpdateStatusRequest = S_object [''status'']
     [(''status'', S_text)]"

subsection \<open>Operations\<close>

definition doc_get_reports_agents :: Operation where
  "doc_get_reports_agents = \<lparr>op_method = ''GET'', op_path = ''/reports/agents'', op_bearer = True,
     op_tags = [''Reports''], op_summary = ''Agent performance'',
     op_consumes = [], op_produces = [''application/json''],
     op_parameters = [param ''from'' In_query False S_text [] None,
       param ''to'' In_query False S_text [] None],
     op_responses = [(200, ''OK'', data_of (S_array schema_AgentStat)),
       (403, ''forbidden'', schema_Response)]\<rparr>"

definition doc_get_reports_critical_trends :: Operation where
  "doc_get_reports_critical_trends = \<lparr>op_method = ''GET'', op_path = ''/reports/critical-trends'', op_bearer = True,
     op_tags = [''Reports''], op_summary = ''High-priority ticket trend'',
     op_consumes = [], op_produces = [''application/json''],
     op_parameters = [param ''hours'' In_query False S_integer [] (Some ''24'')],
     op_responses = [(200, ''OK'', data_of schema_CriticalTrend),
       (403, ''forbidden'', schema_Response)]\<rparr>"

definition doc_get_reports_queue_size :: Operation where
  "doc_get_reports_queue_size = \<lparr>op_method = ''GET'', op_path = ''/reports/queue-size'', op_bearer = True,
     op_tags = [''Reports''], op_summary = ''Number of unassigned tickets'',
     op_consumes = [], op_produces = [''application/json''],
     op_parameters = [],
     op_responses = [(200, ''OK'', schema_Response),
       (403, ''forbidden'', schema_Response)]\<rparr>"

definition doc_get_reports_summary :: Operation where
  "doc_get_reports_summary = \<lparr>op_method = ''GET'', op_path = ''/reports/summary'', op_bearer = True,
     op_tags = [''Reports''], op_summary = ''Ticket summary per period'',
     op_consumes = [], op_produces = [''application/json''],
     op_parameters = [param ''from'' In_query False S_text [] None,
       param ''to'' In_query False S_text [] None,
       param ''group_by'' In_query False S_text [''day'', ''week'', ''month'', ''year''] (Some ''day'')],
     op_responses = [(200, ''OK'', data_of (S_array schema_PeriodCount)),
       (403, ''forbidden'', schema_Response)]\<rparr>"

definition doc_get_tickets :: Operation where
  "doc_get_tickets = \<lparr>op_method = ''GET'', op_path = ''/tickets'', op_bearer = True,
     op_tags = [''Tickets''], op_summary = ''List tickets'',
     op_consumes = [], op_produces = [''application/json''],
     op_parameters = [param ''page'' In_query False S_integer [] (Some ''1''),
       param ''limit'' In_query False S_integer [] (Some ''10''),
       param ''scope'' In_query False S_text [''mine'', ''queue''] None,
       param ''status'' In_query False S_text [''open'', ''assigned'', ''in_progress'', ''pending'', ''resolved'', ''closed''] None,
       param ''priority'' In_query False S_text [] None,
       param ''department'' In_query False S_text [] None,
       param ''search'' In_query False S_text [] None,
       param ''overdue'' In_query False S_boolean [] None,
       param ''from'' In_query False S_text [] None,
       param ''to'' In_query False S_text [] None],
     op_responses = [(200, ''OK'', data_of (S_array schema_Ticket)),
       (401, ''unauthorized'', schema_Response)]\<rparr>"

definition doc_post_tickets :: Operation where
  "doc_post_tickets = \<lparr>op_method = ''POST'', op_path = ''/tickets'', op_bearer = True,
     op_tags = [''Tickets''], op_summary = ''Create a ticket'',
     op_consumes = [''application/json''], op_produces = [''application/json''],
     op_parameters = [param ''request'' In_body True schema_CreateTicketRequest [] None],
     op_responses = [(200, ''ticket created'', schema_Response),
       (400, ''invalid input'', schema_Response),
       (401, ''unauthorized'', schema_Response),
       (429, ''rate limited'', schema_Response)]\<rparr>"

definition doc_get_tickets_one :: Operation where
  "doc_get_tickets_one = \<lparr>op_method = ''GET'', op_path = ''/tickets/{id}'', op_bearer = True,
     op_tags = [''Tickets''], op_summary = ''Get a ticket'',
     op_consumes = [], op_produces = [''application/json''],
     op_parameters = [param ''id'' In_path True S_integer [] None],
     op_responses = [(200, ''OK'', data_of schema_Ticket),
       (400, ''invalid ticket id'', schema_Response),
       (401, ''unauthorized'', schema_Response),
       (404, ''ticket not found'', schema_Response)]\<rparr>"

definition doc_patch_tickets_assign :: Operation where
  "doc_patch_tickets_assign = \<lparr>op_method = ''PATCH'', op_path = ''/tickets/{id}/assign'', op_bearer = True,
     op_tags = [''Tickets''], op_summary = ''Assign a ticket to an agent'',
     op_consumes = [''application/json''], op_produces = [''application/json''],
     op_parameters = [param ''id'' In_path True S_integer [] None,
       param ''request'' In_body False schema_AssignTicketRequest [] None],
     op_responses = [(200, ''ticket assigned'', schema_Response),
       (400, ''invalid ticket id'', schema_Response),
       (403, ''forbidden'', schema_Response),
       (404, ''ticket not found'', schema_Response),
       (409, ''ticket already assigned'', schema_Response)]\<rparr>"

definition doc_get_tickets_attachments :: Operation where
  "doc_get_tickets_attachments = \<lparr>op_method = ''GET'', op_path = ''/tickets/{id}/attachments'', op_bearer = True,
     op_tags = [''Attachments''], op_summary = ''List ticket attachments (metadata only)'',
     op_consumes = [], op_produces = [''application/json''],
     op_parameters = [param ''id'' In_path True S_integer [] None],
     op_responses = [(200, ''OK'', data_of (S_array schema_TicketAttachment)),
       (404, ''ticket not found'', schema_Response)]\<rparr>"

definition doc_post_tickets_attachments :: Operation where
  "doc_post_tickets_attachments = \<lparr>op_method = ''POST'', op_path = ''/tickets/{id}/attachments'', op_bearer = True,
     op_tags = [''Attachments''], op_summary = ''Upload an attachment'',
     op_consumes = [''multipart/form-data''], op_produces = [''application/json''],
     op_parameters = [param ''id'' In_path True S_integer [] None,
       param ''file'' In_formData True S_file [] None],
     op_responses = [(200, ''OK'', data_of schema_TicketAttachment),
       (400, ''missing file'', schema_Response),
       (404, ''ticket not found'', schema_Response),
       (413, ''attachment too large (max 5MB)'', schema_Response),
       (429, ''rate limited'', schema_Response)]\<rparr>"

definition doc_get_tickets_attachments_file :: Operation where
  "doc_get_tickets_attachments_file = \<lparr>op_method = ''GET'', op_path = ''/tickets/{id}/attachments/{attachmentId}'', op_bearer = True,
     op_tags = [''Attachments''], op_summary = ''Download an attachment'',
     op_consumes = [], op_produces = [''application/octet-stream''],
     op_parameters = [param ''id'' In_path True S_integer [] None,
       param ''attachmentId'' In_path True S_integer [] None],
     op_responses = [(200, ''OK'', S_file),
       (404, ''attachment not found'', schema_Response)]\<rparr>"

definition doc_get_tickets_comments :: Operation where
  "doc_get_tickets_comments = \<lparr>op_method = ''GET'', op_path = ''/tickets/{id}/comments'', op_bearer = True,
     op_tags = [''Comments''], op_summary = ''List ticket comments'',
     op_consumes = [], op_produces = [''application/json''],
     op_parameters = [param ''id'' In_path True S_integer [] None],
     op_responses = [(200, ''OK'', data_of (S_array schema_TicketComment)),
       (404, ''ticket not found'', schema_Response)]\<rparr>"

definition doc_post_tickets_comments :: Operation where
  "doc_post_tickets_comments = \<lparr>op_method = ''POST'', op_path = ''/tickets/{id}/comments'', op_bearer = True,
     op_tags = [''Comments''], op_summary = ''Add a comment'',
     op_consumes = [''application/json''], op_produces = [''application/json''],
     op_parameters = [param ''id'' In_path True S_integer [] None,
       param ''request'' In_body True schema_CreateCommentRequest [] None],
     op_responses = [(200, ''OK'', data_of schema_TicketComment),
       (400, ''invalid input'', schema_Response),
       (404, ''ticket not found'', schema_Response)]\<rparr>"

definition doc_get_tickets_history :: Operation where
  "doc_get_tickets_history = \<lparr>op_method = ''GET'', op_path = ''/tickets/{id}/history'', op_bearer = True,
     op_tags = [''Tickets''], op_summary = ''Ticket status history'',
     op_consumes = [], op_produces = [''application/json''],
     op_parameters = [param ''id'' In_path True S_integer [] None],
     op_responses = [(200, ''OK'', data_of (S_array schema_TicketStatusHistory)),
       (400, ''invalid ticket id'', schema_Response),
       (404, ''ticket not found'', schema_Response)]\<rparr>"

definition doc_patch_tickets_status :: Operation where
  "doc_patch_tickets_status = \<lparr>op_method = ''PATCH'', op_path = ''/tickets/{id}/status'', op_bearer = True,
     op_tags = [''Tickets''], op_summary = ''Change ticket status'',
     op_consumes = [''application/json''], op_produces = [''application/json''],
     op_parameters = [param ''id'' In_path True S_integer [] None,
       param ''request'' In_body True schema_UpdateStatusRequest [] None],
     op_responses = [(200, ''status updated'', schema_Response),
       (400, ''invalid input or invalid status transition'', schema_Response),
       (403, ''forbidden'', schema_Response),
       (404, ''ticket not found'', schema_Response)]\<rparr>"

definition ticket_api :: "Operation list" where
  "ticket_api =
     [doc_get_reports_agents, doc_get_reports_critical_trends, doc_get_reports_queue_size,
       doc_get_reports_summary, doc_get_tickets, doc_post_tickets, doc_get_tickets_one,
       doc_patch_tickets_assign, doc_get_tickets_attachments, doc_post_tickets_attachments,
       doc_get_tickets_attachments_file, doc_get_tickets_comments, doc_post_tickets_comments,
       doc_get_tickets_history, doc_patch_tickets_status]"

definition ticket_spec :: Spec where
  "ticket_spec = \<lparr>sp_Version = ''1.0'', sp_Host = ''localhost:8080'', sp_BasePath = ''/'',
     sp_Title = ''Helpdesk Ticket API''\<rparr>"

subsection \<open>The data of a reply as JSON\<close>

text \<open>
  The structs with their tags. \<open>tx\<close> formats a time (\<open>time.Time.MarshalJSON\<close>, in the location of the
  database connection), \<open>fx\<close> a float64; \<open>omitempty\<close> drops a nil time, but the agent of a ticket is
  sent as \<open>null\<close>. The data of an attachment has the tag \<open>-\<close>.
\<close>

definition json_time :: "(time \<Rightarrow> string) \<Rightarrow> time \<Rightarrow> raw" where
  "json_time tx t = Raw_str (tx t)"

definition omit_nil :: "(time \<Rightarrow> string) \<Rightarrow> string \<Rightarrow> time option \<Rightarrow> (string \<times> raw) list" where
  "omit_nil tx n t = (case t of None \<Rightarrow> [] | Some t \<Rightarrow> [(n, json_time tx t)])"

definition Ticket_json :: "(time \<Rightarrow> string) \<Rightarrow> Ticket \<Rightarrow> raw" where
  "Ticket_json tx t = Raw_obj (
     [(''id'', json_nat (ti_ID t)), (''title'', Raw_str (ti_Title t)), (''description'', Raw_str (ti_Description t)),
      (''user_id'', json_nat (ti_UserID t)),
      (''assigned_agent_id'', (case ti_AssignedAgentID t of None \<Rightarrow> Raw_null | Some a \<Rightarrow> json_nat a)),
      (''status'', Raw_str (ti_Status t)), (''priority'', Raw_str (ti_Priority t)), (''department'', Raw_str (ti_Department t))] @
     omit_nil tx ''assigned_at'' (ti_AssignedAt t) @ omit_nil tx ''resolved_at'' (ti_ResolvedAt t) @
     omit_nil tx ''closed_at'' (ti_ClosedAt t) @ omit_nil tx ''due_at'' (ti_DueAt t) @
     [(''created_at'', json_time tx (ti_CreatedAt t)), (''updated_at'', json_time tx (ti_UpdatedAt t))])"

definition TicketStatusHistory_json :: "(time \<Rightarrow> string) \<Rightarrow> TicketStatusHistory \<Rightarrow> raw" where
  "TicketStatusHistory_json tx h = Raw_obj
     [(''id'', json_nat (hi_ID h)), (''ticket_id'', json_nat (hi_TicketID h)), (''from_status'', Raw_str (hi_FromStatus h)),
      (''to_status'', Raw_str (hi_ToStatus h)), (''changed_by'', json_nat (hi_ChangedBy h)),
      (''changed_at'', json_time tx (hi_ChangedAt h))]"

definition TicketComment_json :: "(time \<Rightarrow> string) \<Rightarrow> TicketComment \<Rightarrow> raw" where
  "TicketComment_json tx c = Raw_obj
     [(''id'', json_nat (co_ID c)), (''ticket_id'', json_nat (co_TicketID c)), (''author_id'', json_nat (co_AuthorID c)),
      (''author_role'', Raw_str (co_AuthorRole c)), (''body'', Raw_str (co_Body c)), (''is_internal'', Raw_bool (co_IsInternal c)),
      (''created_at'', json_time tx (co_CreatedAt c))]"

definition TicketAttachment_json :: "(time \<Rightarrow> string) \<Rightarrow> TicketAttachment \<Rightarrow> raw" where
  "TicketAttachment_json tx a = Raw_obj
     [(''id'', json_nat (at_ID a)), (''ticket_id'', json_nat (at_TicketID a)), (''uploader_id'', json_nat (at_UploaderID a)),
      (''filename'', Raw_str (at_Filename a)), (''content_type'', Raw_str (at_ContentType a)), (''size'', json_int (at_Size a)),
      (''created_at'', json_time tx (at_CreatedAt a))]"

definition PeriodCount_json :: "PeriodCount \<Rightarrow> raw" where
  "PeriodCount_json p = Raw_obj
     [(''period'', Raw_str (pc_Period p)), (''status'', Raw_str (pc_Status p)), (''count'', json_nat (pc_Count p))]"

definition AgentStat_json :: "(rat \<Rightarrow> string) \<Rightarrow> AgentStat \<Rightarrow> raw" where
  "AgentStat_json fx a = Raw_obj
     [(''agent_id'', json_nat (st_AgentID a)), (''total_assigned'', json_nat (st_TotalAssigned a)),
      (''total_resolved'', json_nat (st_TotalResolved a)), (''avg_resolution_seconds'', Raw_num (fx (st_AvgResolutionSeconds a)))]"

definition CriticalTrend_json :: "(time \<Rightarrow> string) \<Rightarrow> CriticalTrend \<Rightarrow> raw" where
  "CriticalTrend_json tx c = Raw_obj
     [(''count'', json_nat (ct_Count c)),
      (''tickets'', Raw_arr (map (\<lambda>t. Raw_obj [(''id'', json_nat (cr_ID t)), (''title'', Raw_str (cr_Title t)),
         (''created_at'', json_time tx (cr_CreatedAt t))]) (ct_Tickets c)))]"

fun ticket_data_json :: "(time \<Rightarrow> string) \<Rightarrow> (rat \<Rightarrow> string) \<Rightarrow> ticket_data \<Rightarrow> raw" where
  "ticket_data_json tx fx (T_text s) = Raw_str s"
| "ticket_data_json tx fx (T_tickets ts) = Raw_arr (map (Ticket_json tx) ts)"
| "ticket_data_json tx fx (T_ticket t) = Ticket_json tx t"
| "ticket_data_json tx fx (T_history hs) = Raw_arr (map (TicketStatusHistory_json tx) hs)"
| "ticket_data_json tx fx (T_comment c) = TicketComment_json tx c"
| "ticket_data_json tx fx (T_comments cs) = Raw_arr (map (TicketComment_json tx) cs)"
| "ticket_data_json tx fx (T_attachment a) = TicketAttachment_json tx a"
| "ticket_data_json tx fx (T_attachments as) = Raw_arr (map (TicketAttachment_json tx) as)"
| "ticket_data_json tx fx (T_file typ disposition data) = Raw_str data"
| "ticket_data_json tx fx (T_summary ps) = Raw_arr (map PeriodCount_json ps)"
| "ticket_data_json tx fx (T_agents as) = Raw_arr (map (AgentStat_json fx) as)"
| "ticket_data_json tx fx (T_trend c) = CriticalTrend_json tx c"
| "ticket_data_json tx fx (T_queue_size n) = Raw_obj [(''queue_size'', json_nat n)]"

text \<open>A download is sent as a file, everything else in the envelope.\<close>

definition is_file :: "ticket_data response \<Rightarrow> bool" where
  "is_file reply = (case reply of Success (T_file typ disposition data) \<Rightarrow> True | _ \<Rightarrow> False)"

definition ticket_body :: "(time \<Rightarrow> string) \<Rightarrow> (rat \<Rightarrow> string) \<Rightarrow> ticket_data response \<Rightarrow> raw option" where
  "ticket_body tx fx reply = (if is_file reply then None else Some (Response_json (ticket_data_json tx fx) reply))"

subsection \<open>What is of the documented type\<close>

text \<open>The tickets in a reply that nobody is assigned to.\<close>

fun unassigned :: "ticket_data response \<Rightarrow> Ticket list" where
  "unassigned (Success (T_tickets ts)) = filter (\<lambda>t. ti_AssignedAgentID t = None) ts"
| "unassigned (Success (T_ticket t)) = filter (\<lambda>t. ti_AssignedAgentID t = None) [t]"
| "unassigned _ = []"

lemma Ticket_valid [simp]: "valid schema_Ticket (Ticket_json tx t) \<longleftrightarrow> ti_AssignedAgentID t \<noteq> None"
  by (cases "ti_AssignedAgentID t") (auto simp: schema_Ticket_def Ticket_json_def omit_nil_def json_time_def split: option.split)

lemma data_valid [simp]:
  "valid schema_TicketStatusHistory (TicketStatusHistory_json tx h)" "valid schema_TicketComment (TicketComment_json tx c)"
  "valid schema_TicketAttachment (TicketAttachment_json tx a)" "valid schema_PeriodCount (PeriodCount_json p)"
  "valid schema_AgentStat (AgentStat_json fx st)"
  by (simp_all add: schema_TicketStatusHistory_def TicketStatusHistory_json_def schema_TicketComment_def TicketComment_json_def
      schema_TicketAttachment_def TicketAttachment_json_def schema_PeriodCount_def PeriodCount_json_def schema_AgentStat_def
      AgentStat_json_def json_time_def)

lemma CriticalTrend_valid [simp]: "valid schema_CriticalTrend (CriticalTrend_json tx c)"
  by (simp add: schema_CriticalTrend_def CriticalTrend_json_def schema_CriticalTicketRow_def json_time_def list_all_iff)

lemmas ticket_docs =
  doc_get_reports_agents_def doc_get_reports_critical_trends_def doc_get_reports_queue_size_def
       doc_get_reports_summary_def doc_get_tickets_def doc_post_tickets_def doc_get_tickets_one_def
       doc_patch_tickets_assign_def doc_get_tickets_attachments_def doc_post_tickets_attachments_def
       doc_get_tickets_attachments_file_def doc_get_tickets_comments_def doc_post_tickets_comments_def
       doc_get_tickets_history_def doc_patch_tickets_status_def

lemma ticket_docs_sel [simp]:
  "op_method doc_get_reports_agents = ''GET''" "op_path doc_get_reports_agents = ''/reports/agents''"
  "op_method doc_get_reports_critical_trends = ''GET''" "op_path doc_get_reports_critical_trends = ''/reports/critical-trends''"
  "op_method doc_get_reports_queue_size = ''GET''" "op_path doc_get_reports_queue_size = ''/reports/queue-size''"
  "op_method doc_get_reports_summary = ''GET''" "op_path doc_get_reports_summary = ''/reports/summary''"
  "op_method doc_get_tickets = ''GET''" "op_path doc_get_tickets = ''/tickets''"
  "op_method doc_post_tickets = ''POST''" "op_path doc_post_tickets = ''/tickets''"
  "op_method doc_get_tickets_one = ''GET''" "op_path doc_get_tickets_one = ''/tickets/{id}''"
  "op_method doc_patch_tickets_assign = ''PATCH''" "op_path doc_patch_tickets_assign = ''/tickets/{id}/assign''"
  "op_method doc_get_tickets_attachments = ''GET''" "op_path doc_get_tickets_attachments = ''/tickets/{id}/attachments''"
  "op_method doc_post_tickets_attachments = ''POST''" "op_path doc_post_tickets_attachments = ''/tickets/{id}/attachments''"
  "op_method doc_get_tickets_attachments_file = ''GET''" "op_path doc_get_tickets_attachments_file = ''/tickets/{id}/attachments/{attachmentId}''"
  "op_method doc_get_tickets_comments = ''GET''" "op_path doc_get_tickets_comments = ''/tickets/{id}/comments''"
  "op_method doc_post_tickets_comments = ''POST''" "op_path doc_post_tickets_comments = ''/tickets/{id}/comments''"
  "op_method doc_get_tickets_history = ''GET''" "op_path doc_get_tickets_history = ''/tickets/{id}/history''"
  "op_method doc_patch_tickets_status = ''PATCH''" "op_path doc_patch_tickets_status = ''/tickets/{id}/status''"
  by (simp_all add: ticket_docs)

lemma ticket_templates [simp]:
  "template ''/reports/agents'' = [Lit ''reports'', Lit ''agents'']"
  "template ''/reports/critical-trends'' = [Lit ''reports'', Lit ''critical-trends'']"
  "template ''/reports/queue-size'' = [Lit ''reports'', Lit ''queue-size'']"
  "template ''/reports/summary'' = [Lit ''reports'', Lit ''summary'']"
  "template ''/tickets'' = [Lit ''tickets'']"
  "template ''/tickets/{id}'' = [Lit ''tickets'', Par]"
  "template ''/tickets/{id}/assign'' = [Lit ''tickets'', Par, Lit ''assign'']"
  "template ''/tickets/{id}/attachments'' = [Lit ''tickets'', Par, Lit ''attachments'']"
  "template ''/tickets/{id}/attachments/{attachmentId}'' = [Lit ''tickets'', Par, Lit ''attachments'', Par]"
  "template ''/tickets/{id}/comments'' = [Lit ''tickets'', Par, Lit ''comments'']"
  "template ''/tickets/{id}/history'' = [Lit ''tickets'', Par, Lit ''history'']"
  "template ''/tickets/{id}/status'' = [Lit ''tickets'', Par, Lit ''status'']"
  by (simp_all add: template_def)

subsection \<open>The replies of the handlers\<close>

text \<open>
  Statuses that occur but are not documented: 500 where a statement fails and the handler does
  not call it 404, and what \<open>requireUser\<close> refuses (401 without an identity, 403 for an unknown role,
  400 for an identity that is no number), which most operations document in part.
\<close>

definition ticket_undocumented :: "((string \<times> string) \<times> nat list) list" where
  "ticket_undocumented =
     [((''GET'', ''/reports/agents''), [500]), ((''GET'', ''/reports/critical-trends''), [500]),
      ((''GET'', ''/reports/queue-size''), [500]), ((''GET'', ''/reports/summary''), [500]),
      ((''GET'', ''/tickets''), [400, 403, 500]), ((''POST'', ''/tickets''), [403, 500]), ((''GET'', ''/tickets/{id}''), [403]),
      ((''PATCH'', ''/tickets/{id}/assign''), [401]), ((''GET'', ''/tickets/{id}/attachments''), [400, 401, 403]),
      ((''POST'', ''/tickets/{id}/attachments''), [401, 403, 500]),
      ((''GET'', ''/tickets/{id}/attachments/{attachmentId}''), [400, 401, 403]),
      ((''GET'', ''/tickets/{id}/comments''), [400, 401, 403]), ((''POST'', ''/tickets/{id}/comments''), [401, 403]),
      ((''GET'', ''/tickets/{id}/history''), [401, 403]), ((''PATCH'', ''/tickets/{id}/status''), [401])]"

definition ticket_answers :: "(time \<Rightarrow> string) \<Rightarrow> (rat \<Rightarrow> string) \<Rightarrow> Operation \<Rightarrow> ticket_data response \<Rightarrow> bool" where
  "ticket_answers tx fx op reply \<longleftrightarrow> answers ticket_undocumented op (status reply) (ticket_body tx fx reply)"

text \<open>A reply is as documented exactly if it shows no unassigned ticket.\<close>

definition nearly_documented :: "(time \<Rightarrow> string) \<Rightarrow> (rat \<Rightarrow> string) \<Rightarrow> Operation \<Rightarrow> ticket_data response \<Rightarrow> bool" where
  "nearly_documented tx fx op reply \<longleftrightarrow> (ticket_answers tx fx op reply \<longleftrightarrow> unassigned reply = [])"

lemma nearly_Error:
  "nearly_documented tx fx op (Error c m e) \<longleftrightarrow>
     (case documented op c of Some sc \<Rightarrow> valid sc (Response_json (ticket_data_json tx fx) (Error c m e))
      | None \<Rightarrow> (case map_of ticket_undocumented (op_method op, op_path op) of None \<Rightarrow> False | Some cs \<Rightarrow> c \<in> set cs))"
  by (simp add: nearly_documented_def ticket_answers_def answers_def ticket_body_def is_file_def split: option.split)

lemma nearly_Success:
  "documented op 200 = Some sc \<Longrightarrow>
    nearly_documented tx fx op (Success d) \<longleftrightarrow> (conforms_to sc (ticket_body tx fx (Success d)) \<longleftrightarrow> unassigned (Success d) = [])"
  by (simp add: nearly_documented_def ticket_answers_def answers_def)

lemma ticket_body_Success [simp]:
  "\<not> is_file (Success d) \<Longrightarrow> ticket_body tx fx (Success d) = Some (Response_json (ticket_data_json tx fx) (Success d))"
  "ticket_body tx fx (Success (T_file typ disposition data)) = None"
  by (simp_all add: ticket_body_def is_file_def)

lemma is_file_simps [simp]: "is_file (Success d) \<longleftrightarrow> (\<exists>typ disposition data. d = T_file typ disposition data)"
  by (cases d) (simp_all add: is_file_def)

lemmas nearly = nearly_Error nearly_Success ticket_docs documented_def ticket_undocumented_def reply_only_def

text \<open>What \<open>requireUser\<close> refuses.\<close>

lemma requireUser_Inl:
  "requireUser r = Inl reply \<Longrightarrow> reply \<in> {Error 401 ''unauthorized'' ''UNAUTHORIZED'', Error 403 ''forbidden'' ''FORBIDDEN'',
    Error 400 ''invalid user id'' ''BAD_REQUEST''}"
  by (auto simp: requireUser_def Let_def split: if_splits option.splits)

lemma with_ticket_nearly:
  assumes "\<And>u role i d. nearly_documented tx fx op (fst (k u role i d))"
    and "\<And>m e. nearly_documented tx fx op (Error 401 m e)" and "\<And>m e. nearly_documented tx fx op (Error 403 m e)"
    and "\<And>m e. nearly_documented tx fx op (Error 400 m e)"
  shows "nearly_documented tx fx op (fst (with_ticket r p k d))"
  using assms by (auto simp: with_ticket_def reply_only_def split: sum.split option.split dest!: requireUser_Inl)

lemma with_admin_nearly:
  assumes "\<And>d x. report d = Inr x \<Longrightarrow> nearly_documented tx fx op (Success x)"
    and "\<And>m e. nearly_documented tx fx op (Error 403 m e)" and "\<And>m e. nearly_documented tx fx op (Error 500 m e)"
  shows "nearly_documented tx fx op (fst (with_admin r report d))"
  using assms by (auto simp: with_admin_def reply_only_def split: sum.split)

lemma Create_nearly: "nearly_documented tx fx doc_post_tickets (fst (TicketHandler_Create cfg env r d))"
  by (auto simp: TicketHandler_Create_def nearly split: option.split sum.split prod.split dest!: requireUser_Inl)

lemma GetTickets_nearly: "nearly_documented tx fx doc_get_tickets (fst (TicketHandler_GetTickets env r d))"
  by (auto simp: TicketHandler_GetTickets_def nearly Let_def list_all_iff filter_empty_conv
      split: option.split sum.split prod.split dest!: requireUser_Inl)

lemma Assign_nearly: "nearly_documented tx fx doc_patch_tickets_assign (fst (TicketHandler_Assign cfg env r p d))"
  unfolding TicketHandler_Assign_def
  by (rule with_ticket_nearly) (auto simp: nearly split: sum.split prod.split)

lemma UpdateStatus_nearly: "nearly_documented tx fx doc_patch_tickets_status (fst (TicketHandler_UpdateStatus cfg env r p d))"
  unfolding TicketHandler_UpdateStatus_def
  by (rule with_ticket_nearly) (auto simp: nearly split: option.split sum.split prod.split)

lemma GetByID_nearly: "nearly_documented tx fx doc_get_tickets_one (fst (TicketHandler_GetByID env r p d))"
  unfolding TicketHandler_GetByID_def
  by (rule with_ticket_nearly) (auto simp: nearly split: sum.split)

lemma GetHistory_nearly: "nearly_documented tx fx doc_get_tickets_history (fst (TicketHandler_GetHistory env r p d))"
  unfolding TicketHandler_GetHistory_def
  by (rule with_ticket_nearly) (auto simp: nearly list_all_iff split: sum.split)

lemma CommentCreate_nearly: "nearly_documented tx fx doc_post_tickets_comments (fst (CommentHandler_Create cfg env r p d))"
  unfolding CommentHandler_Create_def
  by (rule with_ticket_nearly) (auto simp: nearly split: option.split sum.split prod.split)

lemma CommentList_nearly: "nearly_documented tx fx doc_get_tickets_comments (fst (CommentHandler_List env r p d))"
  unfolding CommentHandler_List_def
  by (rule with_ticket_nearly) (auto simp: nearly list_all_iff split: sum.split)

lemma AttachmentCreate_nearly:
  "nearly_documented tx fx doc_post_tickets_attachments (fst (AttachmentHandler_Create cfg env r p d))"
  unfolding AttachmentHandler_Create_def
  by (rule with_ticket_nearly) (auto simp: nearly Let_def split: option.split sum.split prod.split)

lemma AttachmentList_nearly: "nearly_documented tx fx doc_get_tickets_attachments (fst (AttachmentHandler_List env r p d))"
  unfolding AttachmentHandler_List_def
  by (rule with_ticket_nearly) (auto simp: nearly list_all_iff split: sum.split)

lemma AttachmentDownload_nearly:
  "nearly_documented tx fx doc_get_tickets_attachments_file (fst (AttachmentHandler_Download env r p q d))"
  unfolding AttachmentHandler_Download_def
  by (rule with_ticket_nearly) (auto simp: nearly split: option.split sum.split)

lemma map_sum_Inr: "map_sum f g x = Inr y \<longleftrightarrow> (\<exists>z. x = Inr z \<and> y = g z)"
  by (cases x) auto

lemma report_errors:
  "op \<in> {doc_get_reports_summary, doc_get_reports_agents, doc_get_reports_critical_trends, doc_get_reports_queue_size} \<Longrightarrow>
    nearly_documented tx fx op (Error 403 m e) \<and> nearly_documented tx fx op (Error 500 m e)"
  by (auto simp: nearly)

lemma with_report_nearly:
  assumes "op \<in> {doc_get_reports_summary, doc_get_reports_agents, doc_get_reports_critical_trends, doc_get_reports_queue_size}"
    and "\<And>d x. report d = Inr x \<Longrightarrow> nearly_documented tx fx op (Success x)"
  shows "nearly_documented tx fx op (fst (with_admin r report d))"
  using assms(2) report_errors [OF assms(1)] by (intro with_admin_nearly) blast+

lemma Summary_nearly: "nearly_documented tx fx doc_get_reports_summary (fst (ReportHandler_Summary cfg env r d))"
  unfolding ReportHandler_Summary_def
proof (rule with_report_nearly)
  have "nearly_documented tx fx doc_get_reports_summary (Success (T_summary ps))" for ps
    by (simp add: nearly list_all_iff)
  then show "nearly_documented tx fx doc_get_reports_summary (Success x)"
    if "(let (from, to) = parseReportRange (te_now env) r;
         groupBy = (if rq_query r ''group_by'' = [] then ''day'' else rq_query r ''group_by'')
       in map_sum (\<lambda>e. e) T_summary (Reports_SummaryByPeriod (tg_period cfg) (te_ft env 0) from to groupBy d)) = Inr x" for d x
    using that unfolding case_prod_beta Let_def map_sum_Inr by blast
qed simp

lemma AgentPerformance_nearly: "nearly_documented tx fx doc_get_reports_agents (fst (ReportHandler_AgentPerformance env r d))"
  unfolding ReportHandler_AgentPerformance_def
proof (rule with_report_nearly)
  have "nearly_documented tx fx doc_get_reports_agents (Success (T_agents as))" for as
    by (simp add: nearly list_all_iff)
  then show "nearly_documented tx fx doc_get_reports_agents (Success x)"
    if "(let (from, to) = parseReportRange (te_now env) r
       in map_sum (\<lambda>e. e) T_agents (Reports_AgentPerformance (te_ft env 0) from to d)) = Inr x" for d x
    using that by (auto simp: case_prod_beta map_sum_Inr)
qed simp

lemma CriticalTrend_nearly: "nearly_documented tx fx doc_get_reports_critical_trends (fst (ReportHandler_CriticalTrend env r d))"
  unfolding ReportHandler_CriticalTrend_def
  by (rule with_report_nearly) (auto simp: map_sum_Inr, simp add: nearly)

lemma QueueSize_nearly: "nearly_documented tx fx doc_get_reports_queue_size (fst (ReportHandler_QueueSize env r d))"
  unfolding ReportHandler_QueueSize_def
  by (rule with_report_nearly) (auto simp: map_sum_Inr, simp add: nearly)

lemmas ticket_nearly = Create_nearly GetTickets_nearly Assign_nearly UpdateStatus_nearly GetByID_nearly GetHistory_nearly
  CommentCreate_nearly CommentList_nearly AttachmentCreate_nearly AttachmentList_nearly AttachmentDownload_nearly
  Summary_nearly AgentPerformance_nearly CriticalTrend_nearly QueueSize_nearly

subsection \<open>Which handler an operation runs\<close>

lemma match_segs_Nil [simp]: "match_segs [] ss = Some ps \<longleftrightarrow> ss = [] \<and> ps = []"
  by (cases ss) auto

lemma match_segs_Lit [simp]: "match_segs (Lit l # p) ss = Some ps \<longleftrightarrow> (\<exists>ss'. ss = l # ss' \<and> match_segs p ss' = Some ps)"
  by (cases ss) auto

lemma match_segs_last [simp]: "match_segs [Par] ss = Some ps \<longleftrightarrow> (\<exists>s. s \<noteq> [] \<and> ss = [s] \<and> ps = [s])"
  by (induction "[Par]" ss rule: match_segs.induct) auto

lemma match_segs_Par [simp]:
  "match_segs (Par # q # p) ss = Some ps \<longleftrightarrow> (\<exists>s ss' ps'. ss = s # ss' \<and> ps = s # ps' \<and> match_segs (q # p) ss' = Some ps')"
  by (cases ss) auto

text \<open>A path whose first segment is no health check is none.\<close>

lemma no_health: "tl (Split (CHR ''/'') (rq_path r)) \<notin> {[''health''], [''healthz'']} \<Longrightarrow> ticket_health env r = None"
  by (auto simp: ticket_health_def)

lemma run_handler_reply: "fst (run_handler k srv) = fst (k (tv_db srv))"
  by (simp add: run_handler_def split: prod.split)

text \<open>The handler of the route a request matches, behind the rate limit.\<close>

definition route_of :: "TicketConfig \<Rightarrow> TicketEnv \<Rightarrow> request \<Rightarrow> (bool \<times> (TicketDb \<Rightarrow> ticket_reply)) option" where
  "route_of cfg env r = find_route (rq_method r) (tl (Split (CHR ''/'') (rq_path r))) (ticket_routes cfg env r)"

lemma ticket_handle_route:
  assumes "route_of cfg env r = Some (limited, k)" and "ticket_health env r = None"
    and "InternalOnlyMiddleware (tg_internalSecret cfg) r = (None :: ticket_data response option)"
  shows "fst (ticket_handle cfg rd env r srv) = fst (k (tv_db srv)) \<or>
    limited \<and> fst (ticket_handle cfg rd env r srv) = Error 429 ''too many requests'' ''RATE_LIMITED''"
  using assms
  by (auto simp: ticket_handle_def route_of_def run_handler_def RateLimitMiddleware_def split: prod.split if_splits)

lemma documented_route:
  assumes "op \<in> set ticket_api" and "rq_method r = op_method op"
    and "match_segs (template (op_path op)) (tl (Split (CHR ''/'') (rq_path r))) = Some ps"
  shows "\<exists>p. route_of cfg env r = Some p \<and> ticket_health env r = None \<and>
    (\<forall>d. nearly_documented tx fx op (fst (snd p d))) \<and>
    (fst p \<longrightarrow> nearly_documented tx fx op (Error 429 ''too many requests'' ''RATE_LIMITED''))"
proof -
  have limits: "nearly_documented tx fx doc_post_tickets (Error 429 ''too many requests'' ''RATE_LIMITED'')"
    "nearly_documented tx fx doc_post_tickets_attachments (Error 429 ''too many requests'' ''RATE_LIMITED'')"
    by (simp_all add: nearly)
  show ?thesis
    using assms unfolding ticket_api_def list.set
    by (elim insertE emptyE; clarsimp simp: route_of_def ticket_routes_def Let_def no_health ticket_nearly limits; blast)
qed

text \<open>
  C36. What ticket-service replies is what its API document says, but for one thing. For every
  documented operation, whatever the body, the upload, the headers and the state, and whatever
  statements fail: the reply to a request that came through the gateway has a documented status, with a
  body of the documented type, or one of the statuses of the table above, if and only if it
  shows no ticket that nobody is assigned to: the agent of such a ticket is \<open>null\<close>, which is no
  integer.
\<close>
theorem ticket_replies_documented:
  assumes "op \<in> set ticket_api" and "rq_method r = op_method op"
    and "match_segs (template (op_path op)) (tl (Split (CHR ''/'') (rq_path r))) = Some ps"
    and "InternalOnlyMiddleware (tg_internalSecret cfg) r = (None :: ticket_data response option)"
  shows "ticket_answers tx fx op (fst (ticket_handle cfg rd env r srv)) \<longleftrightarrow> unassigned (fst (ticket_handle cfg rd env r srv)) = []"
proof -
  obtain limited k where "route_of cfg env r = Some (limited, k)" "ticket_health env r = None"
    and k: "\<And>d. nearly_documented tx fx op (fst (k d))"
      "limited \<Longrightarrow> nearly_documented tx fx op (Error 429 ''too many requests'' ''RATE_LIMITED'')"
    using documented_route [OF assms(1-3), of cfg env tx fx] by (metis prod.collapse)
  from ticket_handle_route [OF this(1,2) assms(4)] have "nearly_documented tx fx op (fst (ticket_handle cfg rd env r srv))"
    by (metis k)
  then show ?thesis unfolding nearly_documented_def .
qed

text \<open>The ticket of a caller that no agent has taken yet.\<close>

definition demo_open_ticket :: Ticket where
  "demo_open_ticket = (new_ticket ''printer'' [] 7 ''High'' [])\<lparr>ti_ID := 1\<rparr>"

definition demo_open_server :: TicketServer where
  "demo_open_server = demo_tserver (empty_ticket_db\<lparr>db_tickets := \<lparr>rows = [demo_open_ticket], seq = 2\<rparr>\<rparr>)"

theorem ticket_replies_documented_witness:
  "\<not> ticket_answers (\<lambda>_. []) (\<lambda>_. ''0'') doc_get_tickets_one (Success (T_ticket demo_open_ticket))"
proof -
  let ?r = "demo_treq ''GET'' ''/tickets/1'' ''7'' ''user'' None"
  have "InternalOnlyMiddleware (tg_internalSecret demo_tconfig) ?r = (None :: ticket_data response option)"
    by (simp add: InternalOnly_pass GetHeader_def demo_treq_def demo_tconfig_def)
  from ticket_replies_documented [OF _ _ _ this, of doc_get_tickets_one "[''1'']" "\<lambda>_. []" "\<lambda>_. ''0''" False demo_tenv demo_open_server]
  have "ticket_answers (\<lambda>_. []) (\<lambda>_. ''0'') doc_get_tickets_one (fst (ticket_handle demo_tconfig False demo_tenv ?r demo_open_server)) \<longleftrightarrow>
      unassigned (fst (ticket_handle demo_tconfig False demo_tenv ?r demo_open_server)) = []"
    by (simp add: ticket_api_def demo_treq_def)
  moreover have "fst (ticket_handle demo_tconfig False demo_tenv ?r demo_open_server) = Success (T_ticket demo_open_ticket)"
    by code_simp
  moreover have "ti_AssignedAgentID demo_open_ticket = None" by code_simp
  ultimately show ?thesis by simp
qed

end
