(* ===== verification/ApiContract.thy ===== *)
theory ApiContract
  imports AuthApi TicketApi Gateway
begin

section \<open>Calling the documented operations\<close>

text \<open>
  The two documents against the rest of the system: every documented operation is a route of the
  gateway, behind a token exactly if the document says so, and leads to its service.
\<close>

text \<open>The path of an operation is relative to the base path of its document.\<close>

definition full_template :: "Spec \<Rightarrow> Operation \<Rightarrow> seg list" where
  "full_template spec op = filter (\<lambda>s. s \<noteq> Lit []) (template (sp_BasePath spec)) @ template (op_path op)"

definition calls :: "Spec \<Rightarrow> Operation \<Rightarrow> request \<Rightarrow> bool" where
  "calls spec op r \<longleftrightarrow> rq_method r = op_method op \<and> hd (Split (CHR ''/'') (rq_path r)) = [] \<and>
     (\<exists>ps. match_segs (full_template spec op) (tl (Split (CHR ''/'') (rq_path r))) = Some ps)"

text \<open>How the gateway hands a request to a service.\<close>

fun service_proxy :: "upstream \<Rightarrow> request \<Rightarrow> 'd outcome" where
  "service_proxy AuthUpstream = proxyTrim ''/auth'' AuthUpstream"
| "service_proxy TicketUpstream = proxyTo TicketUpstream"

lemma join_Split: "join [sep] (Split sep s) = s"
proof (induction s)
  case (Cons c s)
  then show ?case by (cases "Split sep s"; cases "tl (Split sep s)") auto
qed simp

lemma path_of_Split: "hd (Split (CHR ''/'') p) = [] \<Longrightarrow> tl (Split (CHR ''/'') p) = ws \<Longrightarrow> ws \<noteq> [] \<Longrightarrow> p = CHR ''/'' # join ''/'' ws"
  using join_Split [of "CHR ''/''" p] by (cases "Split (CHR ''/'') p"; cases ws) auto

lemma base_templates [simp]:
  "filter (\<lambda>s. s \<noteq> Lit []) (template (sp_BasePath auth_spec)) = [Lit ''auth'']"
  "filter (\<lambda>s. s \<noteq> Lit []) (template (sp_BasePath ticket_spec)) = []"
  by (simp_all add: auth_spec_def ticket_spec_def template_def)

lemma auth_templates [simp]:
  "template ''/admin/agents'' = [Lit ''admin'', Lit ''agents'']" "template ''/admin/staff'' = [Lit ''admin'', Lit ''staff'']"
  "template ''/change-password'' = [Lit ''change-password'']" "template ''/login'' = [Lit ''login'']"
  "template ''/logout'' = [Lit ''logout'']" "template ''/me'' = [Lit ''me'']" "template ''/refresh'' = [Lit ''refresh'']"
  "template ''/me/availability'' = [Lit ''me'', Lit ''availability'']" "template ''/register'' = [Lit ''register'']"
  by (simp_all add: template_def)

lemma auth_bearer:
  "op \<in> set auth_api \<Longrightarrow> op_bearer op \<longleftrightarrow> op_path op \<notin> {''/login'', ''/register'', ''/refresh''}"
  unfolding auth_api_def list.set by (elim insertE emptyE) (simp_all add: auth_docs)

lemma ticket_bearer: "op \<in> set ticket_api \<Longrightarrow> op_bearer op"
  unfolding ticket_api_def list.set by (elim insertE emptyE) (simp_all add: ticket_docs)

lemma auth_call_path:
  assumes "op \<in> set auth_api" and "calls auth_spec op r"
  shows "rq_path r = ''/auth'' @ op_path op" and "rq_method r = op_method op"
proof -
  show "rq_method r = op_method op" using assms(2) by (simp add: calls_def)
  have p: "rq_path r = CHR ''/'' # join ''/'' ws" if "tl (Split (CHR ''/'') (rq_path r)) = ws" "ws \<noteq> []" for ws
    using path_of_Split assms(2) that unfolding calls_def by blast
  show "rq_path r = ''/auth'' @ op_path op"
    using assms unfolding auth_api_def list.set
    by (elim insertE emptyE) (auto simp: calls_def full_template_def dest!: p)
qed

lemma auth_route:
  assumes "op \<in> set auth_api" and "calls auth_spec op r"
  shows "gw_route jwt now secret ok r =
    (if op_bearer op then gw_auth jwt now secret (service_proxy AuthUpstream) r else service_proxy AuthUpstream r)"
proof -
  note b = auth_bearer [OF assms(1)]
  show ?thesis
    using assms(1) auth_call_path [OF assms] b unfolding auth_api_def list.set
    by (elim insertE emptyE) (simp_all add: gw_route_def gateway_routes_def Let_def anyMethods_def)
qed

lemma ticket_call_path:
  assumes "op \<in> set ticket_api" and "calls ticket_spec op r"
  shows "rq_method r = op_method op"
    and "rq_path r = op_path op \<and> (op_path op = ''/tickets'' \<or> is_prefix ''/reports/'' (op_path op)) \<or> is_prefix ''/tickets/'' (rq_path r)"
proof -
  show "rq_method r = op_method op" using assms(2) by (simp add: calls_def)
  have p: "rq_path r = CHR ''/'' # join ''/'' ws" if "tl (Split (CHR ''/'') (rq_path r)) = ws" "ws \<noteq> []" for ws
    using path_of_Split assms(2) that unfolding calls_def by blast
  show "rq_path r = op_path op \<and> (op_path op = ''/tickets'' \<or> is_prefix ''/reports/'' (op_path op)) \<or> is_prefix ''/tickets/'' (rq_path r)"
    using assms unfolding ticket_api_def list.set
    by (elim insertE emptyE) (auto simp: calls_def full_template_def dest!: p)
qed

lemma prefix_route:
  assumes "is_prefix ''/tickets/'' p"
  shows "p \<notin> {''/health'', ''/auth/login'', ''/auth/register'', ''/auth/refresh'', ''/auth/logout'', ''/auth/admin/staff'',
    ''/auth/admin/agents'', ''/auth/me'', ''/auth/me/availability'', ''/auth/change-password'', ''/reports/summary'',
    ''/reports/agents'', ''/reports/critical-trends'', ''/reports/queue-size'', ''/tickets''}"
  using assms by auto

lemma ticket_route:
  assumes "op \<in> set ticket_api" and "calls ticket_spec op r"
  shows "gw_route jwt now secret ok r = gw_auth jwt now secret (service_proxy TicketUpstream) r"
proof (cases "is_prefix ''/tickets/'' (rq_path r)")
  case True
  have "rq_method r \<in> set anyMethods"
    using assms(1) ticket_call_path(1) [OF assms] unfolding ticket_api_def list.set
    by (elim insertE emptyE) (simp_all add: anyMethods_def)
  with True prefix_route [OF True] show ?thesis
    by (simp add: gw_route_def gateway_routes_def Let_def)
next
  case False
  with ticket_call_path [OF assms] have "rq_path r = op_path op" "rq_method r = op_method op" by auto
  with assms(1) False show ?thesis unfolding ticket_api_def list.set
    by (elim insertE emptyE) (simp_all add: gw_route_def gateway_routes_def Let_def anyMethods_def)
qed

text \<open>Under the path the service gets, the operation is its own.\<close>

lemma service_sees:
  assumes "(spec, api, up) \<in> {(auth_spec, auth_api, AuthUpstream), (ticket_spec, ticket_api, TicketUpstream)}"
    and "op \<in> set api" and "calls spec op r" and "service_proxy up r = Forward up' r'"
  shows "up' = up \<and> rq_method r' = op_method op \<and>
    (\<exists>ps. match_segs (template (op_path op)) (tl (Split (CHR ''/'') (rq_path r'))) = Some ps)"
proof (cases "up = AuthUpstream")
  case True
  with assms have a: "op \<in> set auth_api" "calls auth_spec op r" by auto
  note path = auth_call_path [OF a]
  have "\<exists>ps. match_segs (template (op_path op)) (tl (Split (CHR ''/'') (op_path op))) = Some ps"
    using a(1) unfolding auth_api_def list.set by (elim insertE emptyE) simp_all
  moreover have "op_path op \<noteq> []" using a(1) unfolding auth_api_def list.set by (elim insertE emptyE) simp_all
  ultimately show ?thesis using assms(4) True path by (auto simp: proxyTrim_def)
next
  case False
  with assms have "up = TicketUpstream" "op \<in> set ticket_api" "calls ticket_spec op r" by auto
  then show ?thesis using assms(4) by (auto simp: calls_def full_template_def proxyTo_def)
qed

lemma gw_auth_no_token: "GetHeader ''Authorization'' r = [] \<Longrightarrow> gw_auth jwt now secret proxy r = Reply (Error 401 ''missing token'' ''UNAUTHORIZED'')"
  by (simp add: gw_auth_def authMiddleware_def)

lemma service_proxy_forwards: "service_proxy up r \<noteq> Reply reply"
  by (cases up) (simp_all add: proxyTrim_def proxyTo_def Let_def)

text \<open>
  C37. The documents describe what the gateway serves. Every documented operation of both services is
  a route of the gateway, at its base path, that leads to its service and to nothing else; it asks for a
  bearer token exactly if the document says so (without one the reply is 401 \<open>missing token\<close> for those
  operations and for no other); and the path the service gets is the path of the operation.
\<close>
theorem documented_routes:
  assumes "(spec, api, up) \<in> {(auth_spec, auth_api, AuthUpstream), (ticket_spec, ticket_api, TicketUpstream)}"
    and "op \<in> set api" and "calls spec op r"
  shows "gw_route jwt now secret ok r = (if op_bearer op then gw_auth jwt now secret (service_proxy up) r else service_proxy up r) \<and>
    (GetHeader ''Authorization'' r = [] \<longrightarrow>
      (gw_route jwt now secret ok r = Reply (Error 401 ''missing token'' ''UNAUTHORIZED'') \<longleftrightarrow> op_bearer op)) \<and>
    (\<forall>up' r'. service_proxy up r = Forward up' r' \<longrightarrow> up' = up \<and> rq_method r' = op_method op \<and>
      (\<exists>ps. match_segs (template (op_path op)) (tl (Split (CHR ''/'') (rq_path r'))) = Some ps))"
proof (intro conjI allI impI)
  show r: "gw_route jwt now secret ok r = (if op_bearer op then gw_auth jwt now secret (service_proxy up) r else service_proxy up r)"
    using assms auth_route [of op r jwt now secret ok] ticket_route [of op r jwt now secret ok] ticket_bearer [of op]
    by (auto simp del: service_proxy.simps)
  then show "gw_route jwt now secret ok r = Reply (Error 401 ''missing token'' ''UNAUTHORIZED'') \<longleftrightarrow> op_bearer op"
    if "GetHeader ''Authorization'' r = []"
    using that by (simp add: gw_auth_no_token service_proxy_forwards)
next
  fix up' r' assume "service_proxy up r = Forward up' r'"
  from service_sees [OF assms this] show "up' = up" "rq_method r' = op_method op"
    "\<exists>ps. match_segs (template (op_path op)) (tl (Split (CHR ''/'') (rq_path r'))) = Some ps" by blast+
qed

text \<open>A status change without a token, and a login without one.\<close>

theorem documented_routes_witness:
  "gw_route (demo_jwt ''k'' []) 0 ''k'' () (demo_treq ''PATCH'' ''/tickets/7/status'' [] [] None) =
     Reply (Error 401 ''missing token'' ''UNAUTHORIZED'') \<and>
   gw_route (demo_jwt ''k'' []) 0 ''k'' () (demo_treq ''POST'' ''/auth/login'' [] [] None) =
     service_proxy AuthUpstream (demo_treq ''POST'' ''/auth/login'' [] [] None)"
proof
  let ?t = "demo_treq ''PATCH'' ''/tickets/7/status'' [] [] None" and ?l = "demo_treq ''POST'' ''/auth/login'' [] [] None"
  have c: "calls ticket_spec doc_patch_tickets_status ?t" and n: "GetHeader ''Authorization'' ?t = []"
    by (simp_all add: calls_def full_template_def demo_treq_def GetHeader_def)
  have o: "doc_patch_tickets_status \<in> set ticket_api" by (simp add: ticket_api_def)
  have m: "(ticket_spec, ticket_api, TicketUpstream) \<in>
      {(auth_spec, auth_api, AuthUpstream), (ticket_spec, ticket_api, TicketUpstream)}" by simp
  show "gw_route (demo_jwt ''k'' []) 0 ''k'' () ?t = Reply (Error 401 ''missing token'' ''UNAUTHORIZED'')"
    by (rule iffD2 [OF documented_routes [OF m o c, THEN conjunct2, THEN conjunct1, rule_format, OF n] ticket_bearer [OF o]])
  have c: "calls auth_spec doc_post_login ?l" by (simp add: calls_def full_template_def demo_treq_def)
  have o: "doc_post_login \<in> set auth_api" by (simp add: auth_api_def)
  have m: "(auth_spec, auth_api, AuthUpstream) \<in>
      {(auth_spec, auth_api, AuthUpstream), (ticket_spec, ticket_api, TicketUpstream)}" by simp
  show "gw_route (demo_jwt ''k'' []) 0 ''k'' () ?l = service_proxy AuthUpstream ?l"
    by (rule trans [OF documented_routes [OF m o c, THEN conjunct1] if_not_P]) (simp add: auth_bearer [OF o])
qed

end
