(* ===== verification/ApiRequests.thy ===== *)
theory ApiRequests
  imports AuthApi TicketApi
begin

section \<open>Documented request bodies\<close>

text \<open>
  The schemas of the request bodies against the binding code of the handlers. A schema speaks of
  members by their exact names; encoding/json is more liberal (the case of a name is ignored, a
  repeated member overrides, \<open>null\<close> leaves a field alone). On bodies that use none of this
  (\<open>plain\<close>) both accept the same, but for two checks a schema has no word for.
\<close>

subsection \<open>Plain bodies\<close>

definition member :: "string \<Rightarrow> raw \<Rightarrow> raw option" where
  "member n b = (case b of Raw_obj kvs \<Rightarrow> map_of kvs n | _ \<Rightarrow> None)"

fun required_of :: "schema \<Rightarrow> string list" where
  "required_of (S_object req props) = req"
| "required_of _ = []"

fun properties_of :: "schema \<Rightarrow> string list" where
  "properties_of (S_object req props) = map fst props"
| "properties_of _ = []"

definition plain :: "schema \<Rightarrow> raw \<Rightarrow> bool" where
  "plain sc b = (case b of
     Raw_obj kvs \<Rightarrow> distinct (map fst kvs) \<and> Raw_null \<notin> snd ` set kvs \<and>
       (\<forall>k\<in>set (map fst kvs). \<forall>n\<in>set (properties_of sc). same_name k n \<longrightarrow> k = n)
   | _ \<Rightarrow> False)"

text \<open>
  The documented check and what it leaves out: a required string is not empty (the validator's
  \<open>required\<close>), and an e-mail address looks like one (its \<open>email\<close>).
\<close>

definition accepts :: "schema \<Rightarrow> (string \<Rightarrow> bool) \<Rightarrow> raw \<Rightarrow> bool" where
  "accepts sc is_email b \<longleftrightarrow> valid sc b \<and> (\<forall>k\<in>set (required_of sc). member k b \<noteq> Some (Raw_str [])) \<and>
     (\<forall>s. ''email'' \<in> set (properties_of sc) \<longrightarrow> member ''email'' b = Some (Raw_str s) \<longrightarrow> is_email s)"

lemma same_name_refl [simp]: "same_name n n"
  by (simp add: same_name_def)

lemma field_absent: "(\<forall>k\<in>set (map fst kvs). \<not> same_name k n) \<Longrightarrow> field dec n acc kvs = Some acc"
  by (induction kvs) auto

lemma field_plain:
  assumes "distinct (map fst kvs)" and "\<forall>k\<in>set (map fst kvs). same_name k n \<longrightarrow> k = n"
  shows "field dec n acc kvs = (case map_of kvs n of None \<Rightarrow> Some acc | Some v \<Rightarrow> dec v acc)"
  using assms
proof (induction kvs)
  case (Cons p kvs)
  obtain k v where p: "p = (k, v)" by fastforce
  show ?case
  proof (cases "k = n")
    case True
    with Cons.prems p have "\<forall>k\<in>set (map fst kvs). \<not> same_name k n" by auto
    with True p show ?thesis by (auto simp: field_absent split: option.split)
  next
    case False
    with Cons.prems p have "\<not> same_name k n" by auto
    with Cons False p show ?thesis by simp
  qed
qed simp

text \<open>The fields of a plain body.\<close>

definition plain_string :: "raw option \<Rightarrow> string option" where
  "plain_string v = (case v of None \<Rightarrow> Some [] | Some (Raw_str s) \<Rightarrow> Some s | Some _ \<Rightarrow> None)"

lemma map_of_not_null: "Raw_null \<notin> snd ` set kvs \<Longrightarrow> map_of kvs n \<noteq> Some Raw_null"
  by (force dest: map_of_SomeD)

lemma plain_field:
  assumes "plain sc (Raw_obj kvs)" and "n \<in> set (properties_of sc)"
  shows "field dec n acc kvs = (case map_of kvs n of None \<Rightarrow> Some acc | Some v \<Rightarrow> dec v acc)"
    and "map_of kvs n \<noteq> Some Raw_null"
proof -
  show "field dec n acc kvs = (case map_of kvs n of None \<Rightarrow> Some acc | Some v \<Rightarrow> dec v acc)"
    using assms by (intro field_plain) (auto simp: plain_def)
  show "map_of kvs n \<noteq> Some Raw_null"
    using assms(1) by (intro map_of_not_null) (simp add: plain_def)
qed

lemma plain_str_field:
  assumes "plain sc (Raw_obj kvs)" and "n \<in> set (properties_of sc)"
  shows "str_field n kvs = plain_string (map_of kvs n)" "str_member n kvs = plain_string (map_of kvs n)"
proof -
  have "(case map_of kvs n of None \<Rightarrow> Some [] | Some v \<Rightarrow> dec_string v []) = plain_string (map_of kvs n)"
    using plain_field(2) [OF assms] by (auto simp: plain_string_def split: option.split raw.split)
  then show "str_field n kvs = plain_string (map_of kvs n)" "str_member n kvs = plain_string (map_of kvs n)"
    by (simp_all add: str_field_def str_member_def plain_field(1) [OF assms])
qed

lemma plain_valid:
  assumes "distinct (map fst kvs)"
  shows "valid (S_object req props) (Raw_obj kvs) \<longleftrightarrow> (\<forall>k\<in>set req. map_of kvs k \<noteq> None) \<and>
    (\<forall>p\<in>set props. case map_of kvs (fst p) of None \<Rightarrow> True | Some x \<Rightarrow> valid (snd p) x)"
proof -
  have "k \<in> fst ` set kvs \<longleftrightarrow> map_of kvs k \<noteq> None" for k
    by (simp add: map_of_eq_None_iff)
  moreover have "(\<forall>(k, x)\<in>set kvs. k = n \<longrightarrow> P x) \<longleftrightarrow> (case map_of kvs n of None \<Rightarrow> True | Some x \<Rightarrow> P x)" for n P
    using map_of_eq_Some_iff [OF assms] by (cases "map_of kvs n") (auto simp flip: map_of_eq_Some_iff [OF assms])
  ultimately show ?thesis by simp
qed

lemma plain_string_None: "plain_string v = None \<longleftrightarrow> (\<exists>x. v = Some x \<and> (\<forall>s. x \<noteq> Raw_str s))"
  by (auto simp: plain_string_def split: option.split raw.split)

lemma plain_body: "plain sc b \<Longrightarrow> \<exists>kvs. b = Raw_obj kvs \<and> distinct (map fst kvs)"
  by (cases b) (auto simp: plain_def)

text \<open>What a string field of a plain body can be.\<close>

lemma string_cases [case_names absent string bad]:
  obtains "v = None" "plain_string v = Some []"
    | s where "v = Some (Raw_str s)" "plain_string v = Some s"
    | x where "v = Some x" "plain_string v = None" "\<forall>s. x \<noteq> Raw_str s" "\<And>lo hi. \<not> valid (S_string lo hi) x"
proof (cases v)
  case (Some x)
  then show ?thesis by (cases x) (auto intro: that simp: plain_string_def)
qed (auto intro: that simp: plain_string_def)

lemma RuneCount_Nil [simp]: "RuneCount [] = 0"
  by (simp add: RuneCount_def)

lemma plain_fields:
  assumes "plain sc b"
  obtains kvs where "b = Raw_obj kvs" and "distinct (map fst kvs)"
    and "\<And>n. n \<in> set (properties_of sc) \<Longrightarrow>
      str_field n kvs = plain_string (map_of kvs n) \<and> str_member n kvs = plain_string (map_of kvs n)"
proof -
  obtain kvs where b: "b = Raw_obj kvs" "distinct (map fst kvs)" using plain_body [OF assms] by blast
  with assms that show thesis by (blast intro: plain_str_field)
qed

lemma Register_body:
  assumes "plain schema_RegisterRequest b"
  shows "bind_RegisterRequest h (Some b) \<noteq> None \<longleftrightarrow> accepts schema_RegisterRequest (ah_is_email h) b"
proof -
  obtain kvs where b: "b = Raw_obj kvs" "distinct (map fst kvs)" and f: "\<And>n. n \<in> set (properties_of schema_RegisterRequest) \<Longrightarrow>
      str_field n kvs = plain_string (map_of kvs n) \<and> str_member n kvs = plain_string (map_of kvs n)"
    using plain_fields [OF assms] by blast
  show ?thesis
    using f unfolding b(1) bind_RegisterRequest_def accepts_def schema_RegisterRequest_def plain_valid [OF b(2)]
    by (cases "map_of kvs ''department''" rule: string_cases; cases "map_of kvs ''email''" rule: string_cases; cases "map_of kvs ''name''" rule: string_cases; cases "map_of kvs ''password''" rule: string_cases;
        auto simp: member_def required_def in_range_def)
qed

lemma Login_body:
  assumes "plain schema_LoginRequest b"
  shows "bind_LoginRequest h (Some b) \<noteq> None \<longleftrightarrow> accepts schema_LoginRequest (ah_is_email h) b"
proof -
  obtain kvs where b: "b = Raw_obj kvs" "distinct (map fst kvs)" and f: "\<And>n. n \<in> set (properties_of schema_LoginRequest) \<Longrightarrow>
      str_field n kvs = plain_string (map_of kvs n) \<and> str_member n kvs = plain_string (map_of kvs n)"
    using plain_fields [OF assms] by blast
  show ?thesis
    using f unfolding b(1) bind_LoginRequest_def accepts_def schema_LoginRequest_def plain_valid [OF b(2)]
    by (cases "map_of kvs ''email''" rule: string_cases; cases "map_of kvs ''password''" rule: string_cases;
        auto simp: member_def required_def in_range_def)
qed

lemma Refresh_body:
  assumes "plain schema_RefreshRequest b"
  shows "bind_RefreshRequest (Some b) \<noteq> None \<longleftrightarrow> accepts schema_RefreshRequest (\<lambda>_. True) b"
proof -
  obtain kvs where b: "b = Raw_obj kvs" "distinct (map fst kvs)" and f: "\<And>n. n \<in> set (properties_of schema_RefreshRequest) \<Longrightarrow>
      str_field n kvs = plain_string (map_of kvs n) \<and> str_member n kvs = plain_string (map_of kvs n)"
    using plain_fields [OF assms] by blast
  show ?thesis
    using f unfolding b(1) bind_RefreshRequest_def accepts_def schema_RefreshRequest_def plain_valid [OF b(2)]
    by (cases "map_of kvs ''refresh_token''" rule: string_cases;
        auto simp: member_def required_def in_range_def)
qed

lemma ChangePassword_body:
  assumes "plain schema_ChangePasswordRequest b"
  shows "bind_ChangePasswordRequest (Some b) \<noteq> None \<longleftrightarrow> accepts schema_ChangePasswordRequest (\<lambda>_. True) b"
proof -
  obtain kvs where b: "b = Raw_obj kvs" "distinct (map fst kvs)" and f: "\<And>n. n \<in> set (properties_of schema_ChangePasswordRequest) \<Longrightarrow>
      str_field n kvs = plain_string (map_of kvs n) \<and> str_member n kvs = plain_string (map_of kvs n)"
    using plain_fields [OF assms] by blast
  show ?thesis
    using f unfolding b(1) bind_ChangePasswordRequest_def accepts_def schema_ChangePasswordRequest_def plain_valid [OF b(2)]
    by (cases "map_of kvs ''old_password''" rule: string_cases; cases "map_of kvs ''new_password''" rule: string_cases;
        auto simp: member_def required_def in_range_def)
qed

lemma UpdateProfile_body:
  assumes "plain schema_UpdateProfileRequest b"
  shows "bind_UpdateProfileRequest (Some b) \<noteq> None \<longleftrightarrow> accepts schema_UpdateProfileRequest (\<lambda>_. True) b"
proof -
  obtain kvs where b: "b = Raw_obj kvs" "distinct (map fst kvs)" and f: "\<And>n. n \<in> set (properties_of schema_UpdateProfileRequest) \<Longrightarrow>
      str_field n kvs = plain_string (map_of kvs n) \<and> str_member n kvs = plain_string (map_of kvs n)"
    using plain_fields [OF assms] by blast
  show ?thesis
    using f unfolding b(1) bind_UpdateProfileRequest_def accepts_def schema_UpdateProfileRequest_def plain_valid [OF b(2)]
    by (cases "map_of kvs ''department''" rule: string_cases; cases "map_of kvs ''name''" rule: string_cases;
        auto simp: member_def required_def in_range_def)
qed

lemma UpdateAvailability_body:
  assumes "plain schema_UpdateAvailabilityRequest b"
  shows "bind_UpdateAvailabilityRequest (Some b) \<noteq> None \<longleftrightarrow> accepts schema_UpdateAvailabilityRequest (\<lambda>_. True) b"
proof -
  obtain kvs where b: "b = Raw_obj kvs" "distinct (map fst kvs)" and f: "\<And>n. n \<in> set (properties_of schema_UpdateAvailabilityRequest) \<Longrightarrow>
      str_field n kvs = plain_string (map_of kvs n) \<and> str_member n kvs = plain_string (map_of kvs n)"
    using plain_fields [OF assms] by blast
  show ?thesis
    using f unfolding b(1) bind_UpdateAvailabilityRequest_def accepts_def schema_UpdateAvailabilityRequest_def plain_valid [OF b(2)]
    by (cases "map_of kvs ''availability''" rule: string_cases;
        auto simp: member_def required_def in_range_def)
qed

lemma CreateTicket_body:
  assumes "plain schema_CreateTicketRequest b"
  shows "bind_CreateTicketRequest (Some b) \<noteq> None \<longleftrightarrow> accepts schema_CreateTicketRequest (\<lambda>_. True) b"
proof -
  obtain kvs where b: "b = Raw_obj kvs" "distinct (map fst kvs)" and f: "\<And>n. n \<in> set (properties_of schema_CreateTicketRequest) \<Longrightarrow>
      str_field n kvs = plain_string (map_of kvs n) \<and> str_member n kvs = plain_string (map_of kvs n)"
    using plain_fields [OF assms] by blast
  show ?thesis
    using f unfolding b(1) bind_CreateTicketRequest_def accepts_def schema_CreateTicketRequest_def plain_valid [OF b(2)]
    by (cases "map_of kvs ''department''" rule: string_cases; cases "map_of kvs ''description''" rule: string_cases; cases "map_of kvs ''priority''" rule: string_cases; cases "map_of kvs ''title''" rule: string_cases;
        auto simp: member_def required_def in_range_def)
qed

lemma UpdateStatus_body:
  assumes "plain schema_UpdateStatusRequest b"
  shows "bind_UpdateStatusRequest (Some b) \<noteq> None \<longleftrightarrow> accepts schema_UpdateStatusRequest (\<lambda>_. True) b"
proof -
  obtain kvs where b: "b = Raw_obj kvs" "distinct (map fst kvs)" and f: "\<And>n. n \<in> set (properties_of schema_UpdateStatusRequest) \<Longrightarrow>
      str_field n kvs = plain_string (map_of kvs n) \<and> str_member n kvs = plain_string (map_of kvs n)"
    using plain_fields [OF assms] by blast
  show ?thesis
    using f unfolding b(1) bind_UpdateStatusRequest_def accepts_def schema_UpdateStatusRequest_def plain_valid [OF b(2)]
    by (cases "map_of kvs ''status''" rule: string_cases;
        auto simp: member_def required_def in_range_def)
qed

lemma CreateStaff_body:
  assumes "plain schema_CreateStaffRequest b"
  shows "bind_CreateStaffRequest h (Some b) \<noteq> None \<longleftrightarrow> accepts schema_CreateStaffRequest (ah_is_email h) b"
proof -
  obtain kvs where b: "b = Raw_obj kvs" "distinct (map fst kvs)" and f: "\<And>n. n \<in> set (properties_of schema_CreateStaffRequest) \<Longrightarrow>
      str_field n kvs = plain_string (map_of kvs n) \<and> str_member n kvs = plain_string (map_of kvs n)"
    using plain_fields [OF assms] by blast
  let ?names = "{''department'', ''email'', ''name'', ''password'', ''role''}"
  have f: "str_field n kvs = plain_string (map_of kvs n)" if "n \<in> ?names" for n
    using f that by (auto simp: schema_CreateStaffRequest_def)
  have s: "map_of kvs n = None \<and> plain_string (map_of kvs n) = Some [] \<or>
      (\<exists>s. map_of kvs n = Some (Raw_str s) \<and> plain_string (map_of kvs n) = Some s)" if "plain_string (map_of kvs n) \<noteq> None" for n
    using that by (cases "map_of kvs n" rule: string_cases) auto
  show ?thesis
  proof (cases "\<exists>n\<in>?names. plain_string (map_of kvs n) = None")
    case True
    then have "bind_CreateStaffRequest h (Some b) = None"
      unfolding b(1) bind_CreateStaffRequest_def by (auto simp: f split: option.split)
    moreover have "\<not> accepts schema_CreateStaffRequest (ah_is_email h) b"
      using True unfolding b(1) accepts_def schema_CreateStaffRequest_def plain_valid [OF b(2)]
      by (auto simp: plain_string_None split: raw.splits)
    ultimately show ?thesis by simp
  next
    case False
    have c: "map_of kvs n = None \<and> plain_string (map_of kvs n) = Some [] \<or>
        (\<exists>s. map_of kvs n = Some (Raw_str s) \<and> plain_string (map_of kvs n) = Some s)" if m: "n \<in> ?names" for n
      by (rule s, rule notI, rule notE [OF False], rule bexI [OF _ m], assumption)
    have n: "''department'' \<in> ?names" "''email'' \<in> ?names" "''name'' \<in> ?names" "''password'' \<in> ?names" "''role'' \<in> ?names"
      by simp_all
    show ?thesis
      using c [OF n(1)] c [OF n(2)] c [OF n(3)] c [OF n(4)] c [OF n(5)]
      unfolding b(1) bind_CreateStaffRequest_def accepts_def schema_CreateStaffRequest_def plain_valid [OF b(2)]
      by (elim disjE exE conjE; simp add: f member_def required_def in_range_def; blast?)
  qed
qed

lemma CreateComment_body:
  assumes "plain schema_CreateCommentRequest b"
  shows "bind_CreateCommentRequest (Some b) \<noteq> None \<longleftrightarrow> accepts schema_CreateCommentRequest (\<lambda>_. True) b"
proof -
  obtain kvs where b: "b = Raw_obj kvs" "distinct (map fst kvs)" and f: "\<And>n. n \<in> set (properties_of schema_CreateCommentRequest) \<Longrightarrow>
      str_field n kvs = plain_string (map_of kvs n) \<and> str_member n kvs = plain_string (map_of kvs n)"
    using plain_fields [OF assms] by blast
  have i: "field dec_bool ''is_internal'' False kvs = (case map_of kvs ''is_internal'' of None \<Rightarrow> Some False | Some v \<Rightarrow> dec_bool v False)"
    "map_of kvs ''is_internal'' \<noteq> Some Raw_null"
    using plain_field [of schema_CreateCommentRequest kvs "''is_internal''"] assms b(1) by (simp_all add: schema_CreateCommentRequest_def)
  have flag: "(\<exists>x. (case map_of kvs ''is_internal'' of None \<Rightarrow> Some False | Some v \<Rightarrow> dec_bool v False) = Some x) \<longleftrightarrow>
      (case map_of kvs ''is_internal'' of None \<Rightarrow> True | Some x \<Rightarrow> valid S_boolean x)"
    using i(2) by (auto split: option.split raw.splits elim: dec_bool.elims)
  have body: "str_member ''body'' kvs = plain_string (map_of kvs ''body'')"
    using f by (simp add: schema_CreateCommentRequest_def)
  have "bind_CreateCommentRequest (Some b) \<noteq> None \<longleftrightarrow>
      (\<exists>t. plain_string (map_of kvs ''body'') = Some t \<and> t \<noteq> [] \<and> 1 \<le> RuneCount t \<and> RuneCount t \<le> 4000) \<and>
      (\<exists>x. field dec_bool ''is_internal'' False kvs = Some x)"
    unfolding b(1) bind_CreateCommentRequest_def by (auto simp: body required_def split: option.split)
  moreover have "accepts schema_CreateCommentRequest (\<lambda>_. True) b \<longleftrightarrow>
      (\<exists>t. plain_string (map_of kvs ''body'') = Some t \<and> t \<noteq> [] \<and> 1 \<le> RuneCount t \<and> RuneCount t \<le> 4000) \<and>
      (case map_of kvs ''is_internal'' of None \<Rightarrow> True | Some x \<Rightarrow> valid S_boolean x)"
    unfolding b(1) accepts_def schema_CreateCommentRequest_def plain_valid [OF b(2)]
    by (cases "map_of kvs ''body''" rule: string_cases; auto simp: member_def in_range_def simp del: valid.simps(5) cong: option.case_cong)
  ultimately show ?thesis using flag i(1) by simp
qed

text \<open>
  C38. The documents describe the bodies the handlers take. For every operation whose body can be
  refused, and every body without repeated, differently capitalised or \<open>null\<close> members: the handler
  accepts the body if and only if it is of the documented type, its required strings are not
  empty, and, for the accounts, the e-mail address looks like one.
\<close>
theorem documented_bodies:
  shows "(plain schema_RegisterRequest b \<longrightarrow>
      (bind_RegisterRequest h (Some b) \<noteq> None \<longleftrightarrow> accepts schema_RegisterRequest (ah_is_email h) b)) \<and>
    (plain schema_LoginRequest b \<longrightarrow>
      (bind_LoginRequest h (Some b) \<noteq> None \<longleftrightarrow> accepts schema_LoginRequest (ah_is_email h) b)) \<and>
    (plain schema_CreateStaffRequest b \<longrightarrow>
      (bind_CreateStaffRequest h (Some b) \<noteq> None \<longleftrightarrow> accepts schema_CreateStaffRequest (ah_is_email h) b)) \<and>
    (plain schema_RefreshRequest b \<longrightarrow>
      (bind_RefreshRequest (Some b) \<noteq> None \<longleftrightarrow> accepts schema_RefreshRequest (\<lambda>_. True) b)) \<and>
    (plain schema_ChangePasswordRequest b \<longrightarrow>
      (bind_ChangePasswordRequest (Some b) \<noteq> None \<longleftrightarrow> accepts schema_ChangePasswordRequest (\<lambda>_. True) b)) \<and>
    (plain schema_UpdateProfileRequest b \<longrightarrow>
      (bind_UpdateProfileRequest (Some b) \<noteq> None \<longleftrightarrow> accepts schema_UpdateProfileRequest (\<lambda>_. True) b)) \<and>
    (plain schema_UpdateAvailabilityRequest b \<longrightarrow>
      (bind_UpdateAvailabilityRequest (Some b) \<noteq> None \<longleftrightarrow> accepts schema_UpdateAvailabilityRequest (\<lambda>_. True) b)) \<and>
    (plain schema_CreateTicketRequest b \<longrightarrow>
      (bind_CreateTicketRequest (Some b) \<noteq> None \<longleftrightarrow> accepts schema_CreateTicketRequest (\<lambda>_. True) b)) \<and>
    (plain schema_UpdateStatusRequest b \<longrightarrow>
      (bind_UpdateStatusRequest (Some b) \<noteq> None \<longleftrightarrow> accepts schema_UpdateStatusRequest (\<lambda>_. True) b)) \<and>
    (plain schema_CreateCommentRequest b \<longrightarrow>
      (bind_CreateCommentRequest (Some b) \<noteq> None \<longleftrightarrow> accepts schema_CreateCommentRequest (\<lambda>_. True) b))"
  by (intro conjI impI Register_body Login_body CreateStaff_body Refresh_body ChangePassword_body UpdateProfile_body
      UpdateAvailability_body CreateTicket_body UpdateStatus_body CreateComment_body)

text \<open>A note that is not of the documented type: its flag is a string.\<close>

theorem documented_bodies_witness:
  "bind_CreateCommentRequest (Some (Raw_obj [(''body'', Raw_str ''on it''), (''is_internal'', Raw_str ''yes'')])) = None \<and>
   \<not> valid schema_CreateCommentRequest (Raw_obj [(''body'', Raw_str ''on it''), (''is_internal'', Raw_str ''yes'')])"
proof -
  let ?b = "Raw_obj [(''body'', Raw_str ''on it''), (''is_internal'', Raw_str ''yes'')]"
  have p: "plain schema_CreateCommentRequest ?b"
    by (simp add: plain_def schema_CreateCommentRequest_def same_name_def fold_char_def Let_def)
  have v: "\<not> valid schema_CreateCommentRequest ?b" by (simp add: schema_CreateCommentRequest_def)
  have "bind_CreateCommentRequest (Some ?b) \<noteq> None \<longleftrightarrow> accepts schema_CreateCommentRequest (\<lambda>_. True) ?b"
    using documented_bodies [THEN conjunct2, THEN conjunct2, THEN conjunct2, THEN conjunct2, THEN conjunct2, THEN conjunct2,
        THEN conjunct2, THEN conjunct2, THEN conjunct2, THEN mp, OF p] .
  with v have "bind_CreateCommentRequest (Some ?b) = None" by (auto simp only: accepts_def)
  with v show ?thesis by simp
qed

end
