(* ===== verification/Shutdown.thy ===== *)
theory Shutdown
  imports MessageBus
begin

section \<open>Graceful shutdown (cmd/main.go of the four services)\<close>

text \<open>
  What \<open>main\<close> does after the start-up: serve, wait for a signal, and then close things in an order.
  The steps of \<open>main\<close> interleave with the requests, with the WebSocket connections of
  notification-service and with its persist consumer, which nothing stops. Of net/http it takes
  what \<open>Server.Shutdown\<close> documents: it closes the listener, waits until every accepted connection
  has been answered or hijacked, and gives up when its context expires; of the sql package, that
  statements fail once the database is closed. \<open>logger.Log.Fatal\<close> ends the process with code 1.
\<close>

subsection \<open>The process\<close>

text \<open>Whether WebSocket clients are closed first, the time requests get, and whether there is a database.\<close>

record ShutdownConfig =
  sc_closeAll :: bool
  sc_timeout :: duration
  sc_db :: bool

definition auth_shutdown :: ShutdownConfig where
  "auth_shutdown = \<lparr>sc_closeAll = False, sc_timeout = 5 * second, sc_db = True\<rparr>"

definition ticket_shutdown :: ShutdownConfig where
  "ticket_shutdown = \<lparr>sc_closeAll = False, sc_timeout = 10 * second, sc_db = True\<rparr>"

definition notification_shutdown :: ShutdownConfig where
  "notification_shutdown = \<lparr>sc_closeAll = True, sc_timeout = 10 * second, sc_db = True\<rparr>"

definition gateway_shutdown :: ShutdownConfig where
  "gateway_shutdown = \<lparr>sc_closeAll = False, sc_timeout = 10 * second, sc_db = False\<rparr>"

definition shutdownWriteTimeout :: duration where "shutdownWriteTimeout = 2 * second"

text \<open>
  Where \<open>main\<close> is: serving; in \<open>CloseAll\<close>, writing to a client since \<open>t\<close>; about to call
  \<open>Shutdown\<close>; in it, with its deadline; about to close the database; about to return; gone.
\<close>

datatype main_pc =
    Running
  | Closing_clients time
  | Closing_listener time
  | Draining time
  | Closing_db
  | Returning
  | Exited nat

text \<open>How a request ended; one that was cut off was accepted at the given time.\<close>

datatype ending = Answered | Hijacked | Cut time

text \<open>
  \<open>pr_active\<close> holds the requests being served with the time they were accepted, \<open>pr_dlq\<close> what the
  persist consumer rejected. \<open>pr_ended\<close>, \<open>pr_signal\<close> (when the signal came) and \<open>pr_closed\<close> (how many
  clients \<open>CloseAll\<close> has closed) are not part of the program.
\<close>

record Proc =
  pr_now :: time
  pr_pc :: main_pc
  pr_listening :: bool
  pr_active :: "(nat \<times> time) list"
  pr_next :: nat
  pr_sockets :: "nat list"
  pr_db :: bool
  pr_rows :: notifications
  pr_dlq :: "string list"
  pr_ended :: "(nat \<times> ending) list"
  pr_signal :: "time option"
  pr_closed :: nat

definition started_proc :: "time \<Rightarrow> notifications \<Rightarrow> Proc" where
  "started_proc now t = \<lparr>pr_now = now, pr_pc = Running, pr_listening = True, pr_active = [], pr_next = 0, pr_sockets = [],
     pr_db = True, pr_rows = t, pr_dlq = [], pr_ended = [], pr_signal = None, pr_closed = 0\<rparr>"

definition exited :: "Proc \<Rightarrow> bool" where
  "exited s = (case pr_pc s of Exited c \<Rightarrow> True | _ \<Rightarrow> False)"

text \<open>\<open>CloseAll\<close> holds the mutex of the client table.\<close>

definition clients_locked :: "Proc \<Rightarrow> bool" where
  "clients_locked s = (case pr_pc s of Closing_clients t \<Rightarrow> True | _ \<Rightarrow> False)"

subsection \<open>Requests and consumers\<close>

definition accept_step :: "Proc \<Rightarrow> Proc" where
  "accept_step s = s\<lparr>pr_active := pr_active s @ [(pr_next s, pr_now s)], pr_next := Suc (pr_next s)\<rparr>"

definition answer_step :: "nat \<times> time \<Rightarrow> Proc \<Rightarrow> Proc" where
  "answer_step r s = s\<lparr>pr_active := remove1 r (pr_active s), pr_ended := pr_ended s @ [(fst r, Answered)]\<rparr>"

definition hijack_step :: "nat \<times> time \<Rightarrow> Proc \<Rightarrow> Proc" where
  "hijack_step r s = s\<lparr>pr_active := remove1 r (pr_active s), pr_ended := pr_ended s @ [(fst r, Hijacked)],
     pr_sockets := pr_sockets s @ [fst r]\<rparr>"

text \<open>A delivery of the persist consumer; with the database closed its INSERT fails.\<close>

definition persist_step :: "faults \<Rightarrow> string \<Rightarrow> Proc \<Rightarrow> Proc" where
  "persist_step ft body s =
     (case persist_delivery (if pr_db s then ft else (\<lambda>_. True)) False (pr_now s) body (pr_rows s) of
        (ok, t) \<Rightarrow> s\<lparr>pr_rows := t, pr_dlq := pr_dlq s @ (if ok then [] else [body])\<rparr>)"

subsection \<open>The steps of main\<close>

definition signal_step :: "ShutdownConfig \<Rightarrow> Proc \<Rightarrow> Proc" where
  "signal_step cfg s = s\<lparr>pr_pc := (if sc_closeAll cfg then Closing_clients (pr_now s) else Closing_listener (pr_now s)),
     pr_signal := Some (pr_now s)\<rparr>"

definition close_socket_step :: "nat \<Rightarrow> Proc \<Rightarrow> Proc" where
  "close_socket_step c s =
     s\<lparr>pr_pc := Closing_clients (pr_now s), pr_sockets := remove1 c (pr_sockets s), pr_closed := Suc (pr_closed s)\<rparr>"

definition shutdown_step :: "ShutdownConfig \<Rightarrow> Proc \<Rightarrow> Proc" where
  "shutdown_step cfg s = s\<lparr>pr_pc := Draining (pr_now s + sc_timeout cfg), pr_listening := False\<rparr>"

definition drained_step :: "ShutdownConfig \<Rightarrow> Proc \<Rightarrow> Proc" where
  "drained_step cfg s = s\<lparr>pr_pc := (if sc_db cfg then Closing_db else Returning)\<rparr>"

definition fatal_step :: "Proc \<Rightarrow> Proc" where
  "fatal_step s = s\<lparr>pr_pc := Exited 1, pr_active := [], pr_ended := pr_ended s @ map (\<lambda>(r, t). (r, Cut t)) (pr_active s)\<rparr>"

text \<open>
  How far the clock can move before \<open>main\<close> does: a write of \<open>CloseAll\<close> and the wait of \<open>Shutdown\<close> have
  deadlines; between them nothing waits.
\<close>

definition time_limit :: "Proc \<Rightarrow> time option" where
  "time_limit s =
     (case pr_pc s of
        Closing_clients t \<Rightarrow> Some (if pr_sockets s = [] then t else t + shutdownWriteTimeout)
      | Closing_listener t \<Rightarrow> Some t
      | Draining d \<Rightarrow> Some d
      | _ \<Rightarrow> None)"

inductive proc_step :: "ShutdownConfig \<Rightarrow> Proc \<Rightarrow> Proc \<Rightarrow> bool" for cfg s where
  p_accept: "pr_listening s \<Longrightarrow> \<not> exited s \<Longrightarrow> proc_step cfg s (accept_step s)"
| p_answer: "r \<in> set (pr_active s) \<Longrightarrow> \<not> exited s \<Longrightarrow> proc_step cfg s (answer_step r s)"
| p_hijack: "sc_closeAll cfg \<Longrightarrow> r \<in> set (pr_active s) \<Longrightarrow> \<not> exited s \<Longrightarrow> \<not> clients_locked s \<Longrightarrow> proc_step cfg s (hijack_step r s)"
| p_leave: "\<not> clients_locked s \<Longrightarrow> \<not> exited s \<Longrightarrow> proc_step cfg s (s\<lparr>pr_sockets := remove1 c (pr_sockets s)\<rparr>)"
| p_persist: "sc_closeAll cfg \<Longrightarrow> \<not> exited s \<Longrightarrow> proc_step cfg s (persist_step ft body s)"
| p_signal: "pr_pc s = Running \<Longrightarrow> proc_step cfg s (signal_step cfg s)"
| p_close_socket: "pr_pc s = Closing_clients t \<Longrightarrow> c \<in> set (pr_sockets s) \<Longrightarrow> proc_step cfg s (close_socket_step c s)"
| p_closed_all: "pr_pc s = Closing_clients t \<Longrightarrow> pr_sockets s = [] \<Longrightarrow> proc_step cfg s (s\<lparr>pr_pc := Closing_listener (pr_now s)\<rparr>)"
| p_shutdown: "pr_pc s = Closing_listener t \<Longrightarrow> proc_step cfg s (shutdown_step cfg s)"
| p_drained: "pr_pc s = Draining d \<Longrightarrow> pr_active s = [] \<Longrightarrow> proc_step cfg s (drained_step cfg s)"
| p_fatal: "pr_pc s = Draining d \<Longrightarrow> d \<le> pr_now s \<Longrightarrow> proc_step cfg s (fatal_step s)"
| p_close_db: "pr_pc s = Closing_db \<Longrightarrow> proc_step cfg s (s\<lparr>pr_pc := Returning, pr_db := False\<rparr>)"
| p_return: "pr_pc s = Returning \<Longrightarrow> proc_step cfg s (s\<lparr>pr_pc := Exited 0\<rparr>)"
| p_tick: "pr_now s \<le> now \<Longrightarrow> (\<forall>l. time_limit s = Some l \<longrightarrow> now \<le> l) \<Longrightarrow> proc_step cfg s (s\<lparr>pr_now := now\<rparr>)"

inductive proc_reachable :: "ShutdownConfig \<Rightarrow> Proc \<Rightarrow> bool" for cfg where
  proc_started: "proc_reachable cfg (started_proc now t)"
| proc_more: "proc_reachable cfg s \<Longrightarrow> proc_step cfg s s' \<Longrightarrow> proc_reachable cfg s'"

lemmas proc_steps = accept_step_def answer_step_def hijack_step_def persist_step_def signal_step_def
  close_socket_step_def shutdown_step_def drained_step_def fatal_step_def

subsection \<open>Invariants\<close>

text \<open>Every request that was accepted is being served or has ended.\<close>

definition known_requests :: "Proc \<Rightarrow> nat set" where
  "known_requests s = fst ` set (pr_active s) \<union> fst ` set (pr_ended s)"

definition accounted :: "Proc \<Rightarrow> bool" where
  "accounted s \<longleftrightarrow> {..<pr_next s} \<subseteq> known_requests s"

text \<open>When the requests that were cut off had been accepted.\<close>

definition cut_reqs :: "Proc \<Rightarrow> time set" where
  "cut_reqs s = {t. \<exists>r. (r, Cut t) \<in> set (pr_ended s)}"

text \<open>The order in which things are closed.\<close>

definition order_ok :: "Proc \<Rightarrow> bool" where
  "order_ok s \<longleftrightarrow>
     (pr_pc s \<in> {Closing_db, Returning} \<or> exited s \<longrightarrow> pr_active s = []) \<and>
     (pr_listening s \<longleftrightarrow> (case pr_pc s of Running \<Rightarrow> True | Closing_clients t \<Rightarrow> True | Closing_listener t \<Rightarrow> True | _ \<Rightarrow> False)) \<and>
     (pr_db s \<or> pr_pc s = Returning \<or> pr_pc s = Exited 0) \<and>
     (cut_reqs s \<noteq> {} \<longrightarrow> pr_pc s = Exited 1)"

text \<open>The times: how long closing the clients took, and since when the requests are being served.\<close>

definition times_ok :: "ShutdownConfig \<Rightarrow> Proc \<Rightarrow> bool" where
  "times_ok cfg s \<longleftrightarrow>
     (\<forall>r\<in>set (pr_active s). snd r \<le> pr_now s) \<and> (\<not> sc_closeAll cfg \<longrightarrow> pr_closed s = 0) \<and>
     (\<forall>t\<in>cut_reqs s. t + sc_timeout cfg \<le> pr_now s) \<and>
     (case pr_pc s of
        Running \<Rightarrow> pr_closed s = 0
      | Closing_clients t \<Rightarrow> sc_closeAll cfg \<and> (\<exists>g. pr_signal s = Some g \<and> t \<le> pr_now s \<and> t \<le> g + int (pr_closed s) * shutdownWriteTimeout \<and>
          pr_now s \<le> (if pr_sockets s = [] then t else t + shutdownWriteTimeout))
      | Closing_listener t \<Rightarrow> \<exists>g. pr_signal s = Some g \<and> t = pr_now s \<and> t \<le> g + int (pr_closed s) * shutdownWriteTimeout
      | Draining d \<Rightarrow> \<exists>g. pr_signal s = Some g \<and> pr_now s \<le> d \<and> d \<le> g + int (pr_closed s) * shutdownWriteTimeout + sc_timeout cfg \<and>
          (\<forall>r\<in>set (pr_active s). snd r + sc_timeout cfg \<le> d)
      | _ \<Rightarrow> True)"

lemma persist_step_same:
  "pr_pc (persist_step ft body s) = pr_pc s" "pr_now (persist_step ft body s) = pr_now s"
  "pr_active (persist_step ft body s) = pr_active s" "pr_ended (persist_step ft body s) = pr_ended s"
  "pr_next (persist_step ft body s) = pr_next s" "pr_listening (persist_step ft body s) = pr_listening s"
  "pr_db (persist_step ft body s) = pr_db s" "pr_signal (persist_step ft body s) = pr_signal s"
  "pr_closed (persist_step ft body s) = pr_closed s" "pr_sockets (persist_step ft body s) = pr_sockets s"
  by (simp_all add: persist_step_def split: prod.split)

lemma accounted_more:
  "accounted s \<Longrightarrow> pr_next s' = pr_next s \<Longrightarrow> known_requests s \<subseteq> known_requests s' \<Longrightarrow> accounted s'"
  unfolding accounted_def by simp

lemma known_remove: "fst ` set xs \<subseteq> insert (fst r) (fst ` set (remove1 r xs))"
proof
  fix q assume "q \<in> fst ` set xs"
  then obtain t where q: "(q, t) \<in> set xs" by auto
  show "q \<in> insert (fst r) (fst ` set (remove1 r xs))"
  proof (cases "(q, t) = r")
    case False
    with q have "(q, t) \<in> set (remove1 r xs)" by simp
    then show ?thesis by (metis fst_conv imageI insertI2)
  qed auto
qed

lemma accounted_step:
  assumes "accounted s" and "proc_step cfg s s'"
  shows "accounted s'"
  using assms(2)
proof (cases rule: proc_step.cases)
  case p_accept
  with assms(1) show ?thesis
    by (auto simp: accounted_def known_requests_def accept_step_def lessThan_Suc)
next
  case (p_answer r)
  have "known_requests s \<subseteq> known_requests s'"
    using known_remove [of "pr_active s" r] by (auto simp: p_answer answer_step_def known_requests_def)
  with assms(1) show ?thesis by (rule_tac accounted_more) (simp_all add: p_answer answer_step_def)
next
  case (p_hijack r)
  have "known_requests s \<subseteq> known_requests s'"
    using known_remove [of "pr_active s" r] by (auto simp: p_hijack hijack_step_def known_requests_def)
  with assms(1) show ?thesis by (rule_tac accounted_more) (simp_all add: p_hijack hijack_step_def)
next
  case p_fatal
  have "fst ` set (map (\<lambda>(r, t). (r, Cut t)) xs) = fst ` set xs" for xs :: "(nat \<times> time) list" by force
  then have "known_requests (fatal_step s) = known_requests s" by (simp add: fatal_step_def known_requests_def image_Un Un_commute)
  with assms(1) show ?thesis by (rule_tac accounted_more) (auto simp: p_fatal fatal_step_def)
qed (use assms(1) in \<open>simp_all add: accounted_def known_requests_def persist_step_same signal_step_def close_socket_step_def
  shutdown_step_def drained_step_def\<close>)

lemma order_step:
  assumes "order_ok s" and "proc_step cfg s s'"
  shows "order_ok s'"
  using assms(2,1)
  by (cases rule: proc_step.cases)
    (auto simp: order_ok_def exited_def cut_reqs_def persist_step_same accept_step_def answer_step_def hijack_step_def
      signal_step_def close_socket_step_def shutdown_step_def drained_step_def fatal_step_def split: main_pc.splits)

lemma remove1_mem: "x \<in> set (remove1 y xs) \<Longrightarrow> x \<in> set xs"
  by (meson notin_set_remove1)

lemma times_step:
  assumes "times_ok cfg s" and "order_ok s" and "0 \<le> sc_timeout cfg" and "proc_step cfg s s'"
  shows "times_ok cfg s'"
  using assms(4,1-3)
  by (cases rule: proc_step.cases)
    (auto simp: times_ok_def order_ok_def exited_def cut_reqs_def persist_step_same accept_step_def answer_step_def hijack_step_def clients_locked_def
      shutdownWriteTimeout_def signal_step_def close_socket_step_def shutdown_step_def drained_step_def fatal_step_def time_limit_def algebra_simps
      dest!: remove1_mem split: main_pc.splits if_splits)

lemma proc_invariant:
  assumes "proc_reachable cfg s" and "0 \<le> sc_timeout cfg"
  shows "accounted s \<and> order_ok s \<and> times_ok cfg s"
  using assms(1)
proof induction
  case proc_started
  show ?case by (simp add: started_proc_def accounted_def order_ok_def times_ok_def cut_reqs_def exited_def)
next
  case (proc_more s s')
  then show ?case using accounted_step order_step times_step [OF _ _ assms(2)] by blast
qed

subsection \<open>The end is near\<close>

definition proc_runs :: "ShutdownConfig \<Rightarrow> Proc \<Rightarrow> Proc \<Rightarrow> bool" where
  "proc_runs cfg = (proc_step cfg)\<^sup>*\<^sup>*"

lemma runs_more: "proc_step cfg s s' \<Longrightarrow> proc_runs cfg s' s'' \<Longrightarrow> proc_runs cfg s s''"
  by (simp add: proc_runs_def converse_rtranclp_into_rtranclp)

lemma runs_same: "proc_runs cfg s s"
  by (simp add: proc_runs_def)

lemma exit_from_draining:
  assumes "pr_pc s = Draining d" and "pr_now s \<le> d"
  shows "\<exists>s'. proc_runs cfg s s' \<and> exited s' \<and> pr_now s' = d"
proof -
  have "proc_step cfg s (s\<lparr>pr_now := d\<rparr>)" using assms p_tick [of s d cfg] by (simp add: time_limit_def)
  moreover have "proc_step cfg (s\<lparr>pr_now := d\<rparr>) (fatal_step (s\<lparr>pr_now := d\<rparr>))" using assms p_fatal [of "s\<lparr>pr_now := d\<rparr>" d cfg] by simp
  ultimately have "proc_runs cfg s (fatal_step (s\<lparr>pr_now := d\<rparr>))" by (meson runs_more runs_same)
  then show ?thesis by (intro exI [of _ "fatal_step (s\<lparr>pr_now := d\<rparr>)"]) (simp add: exited_def fatal_step_def)
qed

lemma exit_from_listener:
  assumes "pr_pc s = Closing_listener t" and "0 \<le> sc_timeout cfg"
  shows "\<exists>s'. proc_runs cfg s s' \<and> exited s'"
proof -
  have "proc_step cfg s (shutdown_step cfg s)" using assms by (intro p_shutdown)
  moreover have "\<exists>s'. proc_runs cfg (shutdown_step cfg s) s' \<and> exited s' \<and> pr_now s' = pr_now s + sc_timeout cfg"
    using assms(2) by (intro exit_from_draining) (simp_all add: shutdown_step_def)
  ultimately show ?thesis by (meson runs_more)
qed

lemma exit_from_clients:
  "pr_pc s = Closing_clients t \<Longrightarrow> 0 \<le> sc_timeout cfg \<Longrightarrow> \<exists>s'. proc_runs cfg s s' \<and> exited s'"
proof (induction "length (pr_sockets s)" arbitrary: s t)
  case 0
  then have "proc_step cfg s (s\<lparr>pr_pc := Closing_listener (pr_now s)\<rparr>)" by (intro p_closed_all) simp_all
  moreover have "\<exists>s'. proc_runs cfg (s\<lparr>pr_pc := Closing_listener (pr_now s)\<rparr>) s' \<and> exited s'"
    using 0 by (intro exit_from_listener) simp_all
  ultimately show ?case by (meson runs_more)
next
  case (Suc n)
  then obtain c where c: "c \<in> set (pr_sockets s)" by (metis length_Suc_conv list.set_intros(1))
  then have "proc_step cfg s (close_socket_step c s)" using Suc.prems(1) by (rule_tac p_close_socket)
  moreover have "\<exists>s'. proc_runs cfg (close_socket_step c s) s' \<and> exited s'"
    using Suc c by (intro Suc.hyps(1)) (simp_all add: close_socket_step_def length_remove1)
  ultimately show ?case by (meson runs_more)
qed

lemma exit_from_returning:
  assumes "pr_pc s \<in> {Closing_db, Returning}"
  shows "\<exists>s'. proc_runs cfg s s' \<and> exited s'"
proof -
  have r: "\<exists>s'. proc_runs cfg u s' \<and> exited s'" if "pr_pc u = Returning" for u
    using p_return [OF that] by (intro exI [of _ "u\<lparr>pr_pc := Exited 0\<rparr>"]) (auto simp: exited_def intro: runs_more runs_same)
  show ?thesis
  proof (cases "pr_pc s = Returning")
    case False
    with assms have "proc_step cfg s (s\<lparr>pr_pc := Returning, pr_db := False\<rparr>)" by (intro p_close_db) simp
    moreover have "\<exists>s'. proc_runs cfg (s\<lparr>pr_pc := Returning, pr_db := False\<rparr>) s' \<and> exited s'" by (rule r) simp
    ultimately show ?thesis by (meson runs_more)
  qed (rule r)
qed

lemma can_exit:
  assumes "times_ok cfg s" and "0 \<le> sc_timeout cfg" and "pr_pc s \<noteq> Running"
  shows "\<exists>s'. proc_runs cfg s s' \<and> exited s'"
proof (cases "pr_pc s")
  case (Draining d)
  with assms(1) have "pr_now s \<le> d" by (auto simp: times_ok_def)
  with exit_from_draining [OF Draining] show ?thesis by blast
next
  case (Exited c)
  then show ?thesis by (auto simp: exited_def intro: runs_same)
qed (use assms(2,3) in \<open>auto intro: exit_from_listener exit_from_clients exit_from_returning\<close>)

subsection \<open>Properties\<close>

text \<open>
  C40. Shutting down is orderly, in every service and whenever the signal comes: as long as a request
  is being served the database is open; a process that ends with code 0 has answered every request it
  accepted (or handed its connection to a WebSocket); a request is only cut off by an end with code 1,
  and has then been served for the whole timeout of the service; and \<open>main\<close> always comes to an end,
  waiting for requests until the timeout after the signal, plus two seconds for each WebSocket
  client that had to be closed first.
\<close>
theorem shutdown_graceful:
  assumes "cfg \<in> {auth_shutdown, ticket_shutdown, notification_shutdown, gateway_shutdown}" and "proc_reachable cfg s"
  shows "(pr_active s \<noteq> [] \<longrightarrow> pr_db s) \<and>
    (pr_pc s = Exited 0 \<longrightarrow> (\<forall>r<pr_next s. (r, Answered) \<in> set (pr_ended s) \<or> (r, Hijacked) \<in> set (pr_ended s))) \<and>
    (\<forall>r t. (r, Cut t) \<in> set (pr_ended s) \<longrightarrow> pr_pc s = Exited 1 \<and> t + sc_timeout cfg \<le> pr_now s) \<and>
    (\<forall>d. pr_pc s = Draining d \<longrightarrow> (\<exists>g. pr_signal s = Some g \<and> pr_now s \<le> d \<and>
       d \<le> g + (if sc_closeAll cfg then int (pr_closed s) * (2 * second) else 0) + sc_timeout cfg)) \<and>
    (pr_pc s \<noteq> Running \<longrightarrow> (\<exists>s'. proc_runs cfg s s' \<and> exited s'))"
proof (intro conjI allI impI)
  have t: "0 \<le> sc_timeout cfg"
    using assms(1) by (auto simp: auth_shutdown_def ticket_shutdown_def notification_shutdown_def gateway_shutdown_def)
  note inv = proc_invariant [OF assms(2) t]
  show "pr_db s" if "pr_active s \<noteq> []" using inv that by (auto simp: order_ok_def exited_def)
  show "(r, Answered) \<in> set (pr_ended s) \<or> (r, Hijacked) \<in> set (pr_ended s)" if "pr_pc s = Exited 0" "r < pr_next s" for r
  proof -
    have "pr_active s = []" "cut_reqs s = {}" using inv that by (auto simp: order_ok_def exited_def)
    with inv that obtain e where "(r, e) \<in> set (pr_ended s)" by (force simp: accounted_def known_requests_def)
    with \<open>cut_reqs s = {}\<close> show ?thesis by (cases e) (auto simp: cut_reqs_def)
  qed
  show "pr_pc s = Exited 1" "u + sc_timeout cfg \<le> pr_now s" if "(r, Cut u) \<in> set (pr_ended s)" for r u
    using inv that by (auto simp: order_ok_def times_ok_def cut_reqs_def)
  show "\<exists>g. pr_signal s = Some g \<and> pr_now s \<le> d \<and>
       d \<le> g + (if sc_closeAll cfg then int (pr_closed s) * (2 * second) else 0) + sc_timeout cfg" if "pr_pc s = Draining d" for d
    using inv that by (auto simp: times_ok_def shutdownWriteTimeout_def)
  show "\<exists>s'. proc_runs cfg s s' \<and> exited s'" if "pr_pc s \<noteq> Running" using inv t that by (blast intro: can_exit)
qed

text \<open>The gateway cuts off a request whose upstream needs longer than ten seconds.\<close>

definition cut_proc :: Proc where
  "cut_proc = fatal_step ((shutdown_step gateway_shutdown (signal_step gateway_shutdown
     (accept_step (started_proc 0 empty_table))))\<lparr>pr_now := 10 * second\<rparr>)"

lemma cut_proc_reachable: "proc_reachable gateway_shutdown cut_proc"
proof -
  define s where "s = shutdown_step gateway_shutdown (signal_step gateway_shutdown (accept_step (started_proc 0 empty_table)))"
  have s: "pr_pc s = Draining (10 * second)" "pr_now s = 0"
    by (simp_all add: s_def proc_steps started_proc_def gateway_shutdown_def)
  have "proc_reachable gateway_shutdown s" unfolding s_def
  proof (rule proc_more [OF _ p_shutdown], rule proc_more [OF _ p_signal], rule proc_more [OF proc_started p_accept])
  qed (simp_all add: proc_steps started_proc_def exited_def gateway_shutdown_def)
  moreover have "proc_step gateway_shutdown s (s\<lparr>pr_now := 10 * second\<rparr>)"
    using s p_tick [of s "10 * second" gateway_shutdown] by (simp add: time_limit_def)
  moreover have "proc_step gateway_shutdown (s\<lparr>pr_now := 10 * second\<rparr>) cut_proc"
    using s(1) p_fatal [of "s\<lparr>pr_now := 10 * second\<rparr>" "10 * second"] by (simp add: cut_proc_def s_def)
  ultimately show ?thesis by (blast intro: proc_more)
qed

theorem shutdown_graceful_witness:
  "pr_ended cut_proc = [(0, Cut 0)] \<and> pr_pc cut_proc = Exited 1 \<and> 0 + sc_timeout gateway_shutdown \<le> pr_now cut_proc"
proof -
  have e: "pr_ended cut_proc = [(0, Cut 0)]" by (simp add: cut_proc_def proc_steps started_proc_def)
  have "gateway_shutdown \<in> {auth_shutdown, ticket_shutdown, notification_shutdown, gateway_shutdown}" by simp
  from shutdown_graceful [OF this cut_proc_reachable, THEN conjunct2, THEN conjunct2, THEN conjunct1, rule_format, of 0 0]
  show ?thesis by (simp add: e)
qed

text \<open>
  What the order of notification-service leaves open. A WebSocket that is accepted between \<open>CloseAll\<close>
  and \<open>Shutdown\<close> is never closed, and an event that is delivered between \<open>sqlDB.Close\<close> and the end of
  the process goes to the dead-letter queue although nothing is wrong with it.
\<close>

lemma persist_closed: "stored_for body = Some u \<Longrightarrow> persist_delivery (\<lambda>_. True) False now body t = (False, t)"
  by (auto simp: persist_delivery_def persist_body_def stored_for_def Notifications_Create_def exec_stmt_def split: option.splits)

definition late_proc :: Proc where
  "late_proc = (persist_step (\<lambda>_. False) demo_message ((drained_step notification_shutdown
     (shutdown_step notification_shutdown (hijack_step (0, 0) ((signal_step notification_shutdown
     (accept_step (started_proc 0 empty_table)))\<lparr>pr_pc := Closing_listener 0\<rparr>))))\<lparr>pr_pc := Returning, pr_db := False\<rparr>))
     \<lparr>pr_pc := Exited 0\<rparr>"

theorem notification_shutdown_gaps:
  "proc_reachable notification_shutdown late_proc \<and> pr_pc late_proc = Exited 0 \<and> pr_sockets late_proc = [0] \<and>
   pr_dlq late_proc = [demo_message]"
proof (intro conjI)
  let ?cfg = notification_shutdown
  define s1 where "s1 = signal_step ?cfg (accept_step (started_proc 0 empty_table))"
  define s2 where "s2 = hijack_step (0, 0) (s1\<lparr>pr_pc := Closing_listener 0\<rparr>)"
  define s3 where "s3 = drained_step ?cfg (shutdown_step ?cfg s2)"
  define s4 where "s4 = s3\<lparr>pr_pc := Returning, pr_db := False\<rparr>"
  define s5 where "s5 = persist_step (\<lambda>_. False) demo_message s4"
  note defs = proc_steps started_proc_def exited_def notification_shutdown_def clients_locked_def
  have "proc_reachable ?cfg s1" unfolding s1_def
  proof (rule proc_more [OF _ p_signal], rule proc_more [OF proc_started p_accept])
  qed (simp_all add: defs)
  moreover have "proc_step ?cfg s1 (s1\<lparr>pr_pc := Closing_listener 0\<rparr>)"
    using p_closed_all [of s1 0 ?cfg] by (simp add: s1_def defs)
  moreover have "proc_step ?cfg (s1\<lparr>pr_pc := Closing_listener 0\<rparr>) s2"
    unfolding s2_def by (rule p_hijack) (simp_all add: s1_def defs)
  ultimately have "proc_reachable ?cfg s2" by (blast intro: proc_more)
  moreover have "proc_step ?cfg s2 (shutdown_step ?cfg s2)"
    by (rule p_shutdown [of _ 0]) (simp add: s2_def s1_def defs)
  moreover have "proc_step ?cfg (shutdown_step ?cfg s2) s3"
    unfolding s3_def by (rule p_drained [of _ "10 * second"]) (simp_all add: s2_def s1_def defs)
  ultimately have "proc_reachable ?cfg s3" by (blast intro: proc_more)
  moreover have "proc_step ?cfg s3 s4"
    unfolding s4_def by (rule p_close_db) (simp add: s3_def defs)
  moreover have "proc_step ?cfg s4 s5"
    unfolding s5_def by (rule p_persist) (simp_all add: s4_def exited_def notification_shutdown_def)
  ultimately have "proc_reachable ?cfg s5" by (blast intro: proc_more)
  moreover have "proc_step ?cfg s5 late_proc"
    using p_return [of s5 ?cfg] by (simp add: s5_def s4_def s3_def s2_def s1_def late_proc_def persist_step_same)
  ultimately show "proc_reachable ?cfg late_proc" by (rule proc_more)
  show "pr_pc late_proc = Exited 0" by (simp add: late_proc_def)
  show "pr_sockets late_proc = [0]" by (simp add: late_proc_def persist_step_same drained_step_def shutdown_step_def
      hijack_step_def signal_step_def accept_step_def started_proc_def)
  show "pr_dlq late_proc = [demo_message]"
    by (simp add: late_proc_def persist_step_def persist_closed [OF demo_message_target] drained_step_def shutdown_step_def
      hijack_step_def signal_step_def accept_step_def started_proc_def)
qed

end
