(* ===== verification/Consumers.thy ===== *)
theory Consumers
  imports QueueTopology Notifications
begin

section \<open>The two consumers of a replica (internal/consumer/consumer.go)\<close>

text \<open>
  \<open>StartConsumer\<close> runs two endless loops, one for each consumer: dial, open a channel, make the
  declarations, serve until the connection ends, pause, and again. The persist loop keeps the flag
  that \<open>IsConnected\<close> returns and \<open>/health\<close> reports. What a consumer does with a message is in
  \<open>MessageBus\<close> and \<open>WsHub\<close>; the declarations and the broker are those of \<open>QueueTopology\<close>.
\<close>

datatype consumer_pc = Dialling | Setting_up "amqp_call list" | Serving | Paused

record Consumers =
  cn_persist :: consumer_pc
  cn_broadcast :: consumer_pc
  cn_connected :: bool
  cn_topology :: topology

definition IsConnected :: "Consumers \<Rightarrow> bool" where
  "IsConnected s = cn_connected s"

text \<open>
  One step of a loop: \<open>works\<close> says whether the connection works at this moment. A dial that fails
  is the end of \<open>dialWithRetry\<close>, after its last attempt.
\<close>

fun loop_step :: "amqp_call list \<Rightarrow> bool \<Rightarrow> consumer_pc \<Rightarrow> topology \<Rightarrow> consumer_pc \<times> topology" where
  "loop_step calls works Dialling t = (if works then Setting_up calls else Paused, t)"
| "loop_step calls works (Setting_up []) t = (Serving, t)"
| "loop_step calls works (Setting_up (c # cs)) t =
     (if \<not> works then (Paused, t)
      else case broker_call c t of None \<Rightarrow> (Paused, t) | Some t' \<Rightarrow> (Setting_up cs, t'))"
| "loop_step calls works Serving t = (if works then Serving else Paused, t)"
| "loop_step calls works Paused t = (Dialling, t)"

text \<open>The flag: set where the serving loop begins, reset by the deferred call where the function returns from it.\<close>

definition persist_loop :: "string \<Rightarrow> bool \<Rightarrow> Consumers \<Rightarrow> Consumers" where
  "persist_loop queueType works s =
     (case loop_step (consumePersist_calls queueType) works (cn_persist s) (cn_topology s) of (pc, t) \<Rightarrow>
        s\<lparr>cn_persist := pc, cn_topology := t,
          cn_connected := (if cn_persist s = Setting_up [] then True
                           else if cn_persist s = Serving \<and> pc = Paused then False else cn_connected s)\<rparr>)"

text \<open>The queue of the replica goes with its connection.\<close>

definition broadcast_loop :: "string \<Rightarrow> bool \<Rightarrow> Consumers \<Rightarrow> Consumers" where
  "broadcast_loop name works s =
     (case loop_step (consumeBroadcast_calls name) works (cn_broadcast s) (cn_topology s) of (pc, t) \<Rightarrow>
        s\<lparr>cn_broadcast := pc, cn_topology := if pc = Paused then end_broadcast name t else t\<rparr>)"

text \<open>
  A replica from its start, in any interleaving of its loops with the calls and departures of other
  clients of the broker that are configured with the same queue type.
\<close>

inductive replica :: "string \<Rightarrow> string \<Rightarrow> Consumers \<Rightarrow> bool" for qt name where
  started: "conforms qt t \<Longrightarrow> replica qt name \<lparr>cn_persist = Dialling, cn_broadcast = Dialling, cn_connected = False, cn_topology = t\<rparr>"
| persist: "replica qt name s \<Longrightarrow> replica qt name (persist_loop qt works s)"
| broadcast: "replica qt name s \<Longrightarrow> replica qt name (broadcast_loop name works s)"
| other_call: "replica qt name s \<Longrightarrow> allowed qt c \<Longrightarrow> x \<in> set (calls_of c) \<Longrightarrow> broker_call x (cn_topology s) = Some t' \<Longrightarrow>
    replica qt name (s\<lparr>cn_topology := t'\<rparr>)"
| other_gone: "replica qt name s \<Longrightarrow> other \<notin> {dlqQueue, persistQueue, name} \<Longrightarrow>
    replica qt name (s\<lparr>cn_topology := end_broadcast other (cn_topology s)\<rparr>)"

subsection \<open>Invariant\<close>

definition pending_ok :: "amqp_call list \<Rightarrow> consumer_pc \<Rightarrow> topology \<Rightarrow> bool" where
  "pending_ok calls pc t \<longleftrightarrow> (\<forall>cs. pc = Setting_up cs \<longrightarrow> (\<exists>pre. calls = pre @ cs \<and> (\<forall>x\<in>set pre. done_call t x)))"

definition replica_ok :: "string \<Rightarrow> string \<Rightarrow> Consumers \<Rightarrow> bool" where
  "replica_ok qt name s \<longleftrightarrow> conforms qt (cn_topology s) \<and> (cn_connected s \<longleftrightarrow> cn_persist s = Serving) \<and>
     pending_ok (consumePersist_calls qt) (cn_persist s) (cn_topology s) \<and>
     pending_ok (consumeBroadcast_calls name) (cn_broadcast s) (cn_topology s)"

lemma pending_Paused [simp]: "pending_ok calls Paused t"
  by (simp add: pending_ok_def)

lemma pending_mono: "pending_ok calls pc t \<Longrightarrow> (\<And>x. done_call t x \<Longrightarrow> done_call t' x) \<Longrightarrow> pending_ok calls pc t'"
  unfolding pending_ok_def by blast

lemma conforms_end: "conforms qt t \<Longrightarrow> conforms qt (end_broadcast name t)"
  by (auto simp: conforms_def end_broadcast_def split: if_splits)

lemma pending_end:
  assumes "pending_ok calls pc t" and "\<not> uses_queue name calls"
  shows "pending_ok calls pc (end_broadcast name t)"
  unfolding pending_ok_def
proof (intro allI impI)
  fix cs assume "pc = Setting_up cs"
  then obtain pre where pre: "calls = pre @ cs" "\<forall>x\<in>set pre. done_call t x" using assms(1) by (auto simp: pending_ok_def)
  then have "\<not> uses_queue name pre" using assms(2) by simp
  then have "\<forall>x\<in>set pre. done_call (end_broadcast name t) x" using pre(2) done_end uses_queue_in by blast
  with pre(1) show "\<exists>pre. calls = pre @ cs \<and> (\<forall>x\<in>set pre. done_call (end_broadcast name t) x)" by blast
qed

lemma persist_calls_queues: "name \<notin> {dlqQueue, persistQueue} \<Longrightarrow> \<not> uses_queue name (consumePersist_calls qt)"
  by (auto simp: uses_queue_def consumePersist_calls_def)

lemma broadcast_calls_queues: "other \<noteq> name \<Longrightarrow> \<not> uses_queue other (consumeBroadcast_calls name)"
  by (auto simp: uses_queue_def consumeBroadcast_calls_def)

lemma loop_step_ok:
  assumes "loop_step (calls_of c) works pc t = (pc', t')" and "allowed qt c" and "conforms qt t" and "pending_ok (calls_of c) pc t"
  shows "conforms qt t' \<and> pending_ok (calls_of c) pc' t' \<and> (\<forall>x. done_call t x \<longrightarrow> done_call t' x)"
proof -
  have "conforms qt t' \<and> done_call t' x \<and> (\<forall>y. done_call t y \<longrightarrow> done_call t' y) \<and> (\<exists>pre. calls_of c = pre @ x # xs \<and> (\<forall>y\<in>set pre. done_call t y))"
    if "pc = Setting_up (x # xs)" "broker_call x t = Some t'" for x xs
  proof -
    obtain pre where pre: "calls_of c = pre @ x # xs" "\<forall>y\<in>set pre. done_call t y" using assms(4) \<open>pc = Setting_up (x # xs)\<close> unfolding pending_ok_def by blast
    then have "call_conforms qt x" using calls_conform [OF assms(2)] by simp
    with broker_effect [OF that(2) assms(3)] pre show ?thesis by blast
  qed
  then show ?thesis
    using assms(1,3)
    by (cases "(calls_of c, works, pc, t)" rule: loop_step.cases)
      (fastforce simp: pending_ok_def split: if_splits option.splits intro: exI [of _ "[]"] exI [of _ "pre @ [x]" for pre x])+
qed

lemma replica_is_ok:
  assumes "replica qt name s" and "name \<notin> {dlqQueue, persistQueue}"
  shows "replica_ok qt name s"
  using assms(1)
proof (induction rule: replica.induct)
  case (started t)
  then show ?case by (simp add: replica_ok_def pending_ok_def)
next
  case (persist s works)
  obtain pc t where l: "loop_step (consumePersist_calls qt) works (cn_persist s) (cn_topology s) = (pc, t)" by fastforce
  have "conforms qt t \<and> pending_ok (consumePersist_calls qt) pc t \<and> (\<forall>x. done_call (cn_topology s) x \<longrightarrow> done_call t x)"
    using loop_step_ok [of "Persist qt" works "cn_persist s" "cn_topology s" pc t qt] l persist.IH
    by (simp add: allowed_def replica_ok_def)
  moreover have "pc = Serving \<longleftrightarrow> cn_persist s = Setting_up [] \<or> cn_persist s = Serving \<and> works"
    using l by (cases "(consumePersist_calls qt, works, cn_persist s, cn_topology s)" rule: loop_step.cases)
      (auto split: if_splits option.splits)
  moreover have "cn_persist s = Serving \<Longrightarrow> pc = (if works then Serving else Paused)" using l by auto
  ultimately show ?case
    using persist.IH pending_mono [of "consumeBroadcast_calls name" "cn_broadcast s" "cn_topology s" t]
    by (auto simp: persist_loop_def l replica_ok_def)
next
  case (broadcast s works)
  obtain pc t where l: "loop_step (consumeBroadcast_calls name) works (cn_broadcast s) (cn_topology s) = (pc, t)" by fastforce
  have t: "conforms qt t" "pending_ok (consumeBroadcast_calls name) pc t" "\<And>x. done_call (cn_topology s) x \<Longrightarrow> done_call t x"
    using loop_step_ok [of "Broadcast name" works "cn_broadcast s" "cn_topology s" pc t qt] l broadcast.IH assms(2)
    by (simp_all add: allowed_def replica_ok_def)
  have p: "pending_ok (consumePersist_calls qt) (cn_persist s) t"
    using broadcast.IH t(3) pending_mono [of "consumePersist_calls qt" "cn_persist s" "cn_topology s" t] by (simp add: replica_ok_def)
  show ?case
    using broadcast.IH t p conforms_end [of qt t name] pending_end [OF p persist_calls_queues [OF assms(2)]]
    by (auto simp: broadcast_loop_def l replica_ok_def)
next
  case (other_call s c x t')
  then have "call_conforms qt x" using calls_conform by blast
  then have "conforms qt t'" "\<And>y. done_call (cn_topology s) y \<Longrightarrow> done_call t' y"
    using broker_effect [OF other_call.hyps(4)] other_call.IH by (auto simp: replica_ok_def)
  then show ?case using other_call.IH pending_mono by (simp add: replica_ok_def) blast
next
  case (other_gone s other)
  then have "\<not> uses_queue other (consumePersist_calls qt)" "\<not> uses_queue other (consumeBroadcast_calls name)"
    using persist_calls_queues broadcast_calls_queues by auto
  then show ?case using other_gone.IH by (simp add: replica_ok_def conforms_end pending_end)
qed

subsection \<open>Recovery\<close>

text \<open>The steps a loop still has to make before it serves, when nothing fails.\<close>

fun steps_left :: "nat \<Rightarrow> consumer_pc \<Rightarrow> nat" where
  "steps_left n Serving = 0"
| "steps_left n (Setting_up cs) = Suc (length cs)"
| "steps_left n Dialling = n + 2"
| "steps_left n Paused = n + 3"

lemma loop_step_works:
  assumes "conforms qt t" and "allowed qt c" and "pending_ok (calls_of c) pc t" and "loop_step (calls_of c) True pc t = (pc', t')"
  shows "steps_left (length (calls_of c)) pc' = steps_left (length (calls_of c)) pc - 1" and "pc \<noteq> Paused \<Longrightarrow> pc' \<noteq> Paused"
proof -
  have "broker_call x t \<noteq> None" if "pc = Setting_up (x # xs)" for x xs
  proof -
    obtain pre where pre: "calls_of c = pre @ x # xs" "\<forall>y\<in>set pre. done_call t y" using assms(3) \<open>pc = Setting_up (x # xs)\<close> unfolding pending_ok_def by blast
    have "needs pre x" using calls_ordered [of c] well_ordered_at [of "[]" pre x xs] pre(1) by simp
    moreover have "call_conforms qt x" using calls_conform [OF assms(2)] pre(1) by simp
    ultimately show ?thesis using broker_accepts [OF assms(1)] pre(2) by blast
  qed
  then show "steps_left (length (calls_of c)) pc' = steps_left (length (calls_of c)) pc - 1" "pc \<noteq> Paused \<Longrightarrow> pc' \<noteq> Paused"
    using assms(4) by (cases "(calls_of c, True, pc, t)" rule: loop_step.cases; auto split: option.splits)+
qed

lemma length_calls [simp]: "length (consumePersist_calls qt) = 7" "length (consumeBroadcast_calls name) = 4"
  by (simp_all add: consumePersist_calls_def consumeBroadcast_calls_def)

lemma persist_loop_works:
  assumes "replica qt name s" and "name \<notin> {dlqQueue, persistQueue}"
  shows "steps_left 7 (cn_persist (persist_loop qt True s)) = steps_left 7 (cn_persist s) - 1"
proof -
  obtain pc t where l: "loop_step (consumePersist_calls qt) True (cn_persist s) (cn_topology s) = (pc, t)" by fastforce
  have "steps_left (length (calls_of (Persist qt))) pc = steps_left (length (calls_of (Persist qt))) (cn_persist s) - 1"
    using replica_is_ok [OF assms] l by (intro loop_step_works(1)) (auto simp: replica_ok_def allowed_def)
  then show ?thesis by (simp add: persist_loop_def l)
qed

lemma broadcast_loop_works:
  assumes "replica qt name s" and "name \<notin> {dlqQueue, persistQueue}"
  shows "steps_left 4 (cn_broadcast (broadcast_loop name True s)) = steps_left 4 (cn_broadcast s) - 1"
proof -
  obtain pc t where l: "loop_step (consumeBroadcast_calls name) True (cn_broadcast s) (cn_topology s) = (pc, t)" by fastforce
  have "steps_left (length (calls_of (Broadcast name))) pc = steps_left (length (calls_of (Broadcast name))) (cn_broadcast s) - 1"
    using replica_is_ok [OF assms] l assms(2) by (intro loop_step_works(1)) (auto simp: replica_ok_def allowed_def)
  then show ?thesis by (simp add: broadcast_loop_def l)
qed

lemma loops_iterate:
  assumes "replica qt name s" and "name \<notin> {dlqQueue, persistQueue}"
  shows "replica qt name ((persist_loop qt True ^^ n) s) \<and> steps_left 7 (cn_persist ((persist_loop qt True ^^ n) s)) = steps_left 7 (cn_persist s) - n"
    and "replica qt name ((broadcast_loop name True ^^ n) s) \<and> steps_left 4 (cn_broadcast ((broadcast_loop name True ^^ n) s)) = steps_left 4 (cn_broadcast s) - n"
  by (induction n) (auto simp: assms persist_loop_works [OF _ assms(2)] broadcast_loop_works [OF _ assms(2)] intro: replica.intros)

lemma serving_left: "steps_left n pc = 0 \<longleftrightarrow> pc = Serving"
  by (cases pc) simp_all

lemma persist_left: "replica qt name s \<Longrightarrow> name \<notin> {dlqQueue, persistQueue} \<Longrightarrow> steps_left 7 (cn_persist s) \<le> 10 \<and> steps_left 4 (cn_broadcast s) \<le> 7"
  by (drule (1) replica_is_ok) (cases "cn_persist s"; cases "cn_broadcast s";
    auto simp: replica_ok_def pending_ok_def consumePersist_calls_def consumeBroadcast_calls_def dest!: arg_cong [where f = length])

text \<open>
  C34. The consumers recover by themselves: from whatever state a replica is in, ten steps of the
  persist loop and seven of the broadcast loop in which the connection works are enough for both
  to serve again; no declaration is refused.
\<close>
theorem consumers_recover:
  assumes "replica qt name s" and "name \<notin> {dlqQueue, persistQueue}"
  shows "let s' = (broadcast_loop name True ^^ 7) ((persist_loop qt True ^^ 10) s) in
    cn_persist s' = Serving \<and> cn_broadcast s' = Serving \<and> IsConnected s'"
proof -
  let ?s1 = "(persist_loop qt True ^^ 10) s" and ?s2 = "(broadcast_loop name True ^^ 7) ((persist_loop qt True ^^ 10) s)"
  have 1: "replica qt name ?s1" "cn_persist ?s1 = Serving"
    using loops_iterate(1) [OF assms, of 10] persist_left [OF assms] serving_left [of 7 "cn_persist ?s1"] by simp_all
  have 2: "replica qt name ?s2" "cn_broadcast ?s2 = Serving"
    using loops_iterate(2) [OF 1(1) assms(2), of 7] persist_left [OF 1(1) assms(2)] serving_left [of 4 "cn_broadcast ?s2"] by simp_all
  have "cn_persist ((broadcast_loop name True ^^ n) s') = cn_persist s'" for n s'
    by (induction n) (simp_all add: broadcast_loop_def split: prod.split)
  with 1(2) have "cn_persist ?s2 = Serving" by simp
  with 2 replica_is_ok [OF 2(1) assms(2)] show ?thesis by (simp add: Let_def IsConnected_def replica_ok_def)
qed

theorem consumers_recover_witness:
  "IsConnected ((broadcast_loop ''amq.gen-1'' True ^^ 7) ((persist_loop ''quorum'' True ^^ 10)
     \<lparr>cn_persist = Dialling, cn_broadcast = Dialling, cn_connected = False, cn_topology = empty_topology\<rparr>))"
proof -
  have "conforms ''quorum'' empty_topology" by (simp add: conforms_def empty_topology_def)
  from consumers_recover [OF started [OF this], of "''amq.gen-1''"] show ?thesis by (simp add: Let_def)
qed

definition broadcast_down :: "string \<Rightarrow> string \<Rightarrow> Consumers \<Rightarrow> bool" where
  "broadcast_down qt name s \<longleftrightarrow> replica qt name s \<and> cn_persist s = Serving \<and> (cn_broadcast s = Dialling \<or> cn_broadcast s = Paused)"

lemma broadcast_stays_down: "broadcast_down qt name s \<Longrightarrow> broadcast_down qt name ((broadcast_loop name False ^^ n) s)"
proof (induction n)
  case (Suc n)
  let ?s = "(broadcast_loop name False ^^ n) s"
  have d: "broadcast_down qt name ?s" using Suc by simp
  have "replica qt name (broadcast_loop name False ?s)" using d by (auto simp: broadcast_down_def intro: replica.broadcast)
  moreover have "cn_persist (broadcast_loop name False ?s) = Serving"
    "cn_broadcast (broadcast_loop name False ?s) = Dialling \<or> cn_broadcast (broadcast_loop name False ?s) = Paused"
    using d by (auto simp: broadcast_down_def broadcast_loop_def)
  ultimately show ?case by (simp add: broadcast_down_def)
qed simp

text \<open>
  What \<open>/health\<close> says: it is the persist consumer that it asks. While that one serves, the replica
  reports 200, however long its broadcast consumer has been failing to connect, and with it every
  live notification of its clients.
\<close>
theorem health_ignores_broadcast:
  assumes "name \<notin> {dlqQueue, persistQueue}"
  shows "\<exists>s. replica qt name s \<and> (\<forall>n. let s' = (broadcast_loop name False ^^ n) s in
    replica qt name s' \<and> cn_broadcast s' \<noteq> Serving \<and>
    status (fst (notif_handle cfg (env\<lparr>ne_connected := IsConnected s', ne_db_up := True\<rparr>)
      \<lparr>rq_method = ''GET'', rq_path = ''/health'', rq_headers = (\<lambda>_. []), rq_query = (\<lambda>_. []), rq_ip = ip, rq_body = None\<rparr> t)) = 200)"
proof -
  let ?init = "\<lparr>cn_persist = Dialling, cn_broadcast = Dialling, cn_connected = False, cn_topology = empty_topology\<rparr>"
  let ?s = "(persist_loop qt True ^^ 10) ?init"
  have r0: "replica qt name ?init" by (rule started) (simp add: conforms_def empty_topology_def)
  have i: "replica qt name ?s \<and> steps_left 7 (cn_persist ?s) = steps_left 7 (cn_persist ?init) - 10"
    by (rule loops_iterate(1) [OF r0 assms])
  have s: "replica qt name ?s" by (rule conjunct1 [OF i])
  have "steps_left 7 (cn_persist ?s) = 0" by (subst conjunct2 [OF i]) simp
  then have p: "cn_persist ?s = Serving" unfolding serving_left .
  have "cn_broadcast ((persist_loop qt True ^^ n) ?init) = Dialling" for n
    by (induction n) (simp_all add: persist_loop_def split: prod.split)
  then have down: "broadcast_down qt name ((broadcast_loop name False ^^ n) ?s)" for n
    using s p by (intro broadcast_stays_down) (simp add: broadcast_down_def)
  then have "IsConnected ((broadcast_loop name False ^^ n) ?s)" for n
    using replica_is_ok [OF _ assms] by (auto simp: broadcast_down_def IsConnected_def replica_ok_def)
  moreover have "cn_broadcast ((broadcast_loop name False ^^ n) ?s) \<noteq> Serving" "replica qt name ((broadcast_loop name False ^^ n) ?s)" for n
    using down [of n] by (auto simp: broadcast_down_def)
  ultimately show ?thesis
    using s by (intro exI [of _ ?s]) (simp add: Let_def notif_handle_def clean_path_def)
qed

theorem health_ignores_broadcast_witness:
  "\<exists>s. replica ''classic'' ''amq.gen-1'' s \<and> IsConnected s \<and> cn_broadcast s \<noteq> Serving"
proof -
  from health_ignores_broadcast [of "''amq.gen-1''" "''classic''"] obtain s where
    "replica ''classic'' ''amq.gen-1'' ((broadcast_loop ''amq.gen-1'' False ^^ 0) s)"
    "status (fst (notif_handle demo_nconfig (demo_nenv\<lparr>ne_connected := IsConnected ((broadcast_loop ''amq.gen-1'' False ^^ 0) s), ne_db_up := True\<rparr>)
      \<lparr>rq_method = ''GET'', rq_path = ''/health'', rq_headers = (\<lambda>_. []), rq_query = (\<lambda>_. []), rq_ip = [], rq_body = None\<rparr> demo_ntable)) = 200"
    "cn_broadcast ((broadcast_loop ''amq.gen-1'' False ^^ 0) s) \<noteq> Serving"
    unfolding Let_def by fastforce
  then show ?thesis by (intro exI [of _ s]) (simp add: notif_handle_def clean_path_def split: if_splits)
qed

end
