(* ===== verification/Strconv.thy ===== *)
theory Strconv
  imports GoStd Complex_Main
begin

section \<open>Numbers and durations as text: strconv.ParseFloat and time.ParseDuration\<close>

text \<open>
  The two parsers the configuration uses. A float64 is here the rational number it was read from:
  rounding to 53 bits is not modelled, underflow to zero and the range error of overflow are.
\<close>

subsection \<open>strconv.ParseFloat\<close>

datatype f64_value = Finite rat | PosInf | NegInf | NaN

definition to_lower :: "char \<Rightarrow> char" where
  "to_lower c = (if CHR ''A'' \<le> c \<and> c \<le> CHR ''Z'' then char_of (of_char c + 32 :: nat) else c)"

text \<open>\<open>special\<close>: any case, and no sign before \<open>nan\<close>.\<close>

definition special :: "string \<Rightarrow> f64_value option" where
  "special s =
     (let l = map to_lower s in
      if l \<in> {''inf'', ''infinity'', ''+inf'', ''+infinity''} then Some PosInf
      else if l \<in> {''-inf'', ''-infinity''} then Some NegInf
      else if l = ''nan'' then Some NaN else None)"

definition base_digit :: "bool \<Rightarrow> char \<Rightarrow> nat option" where
  "base_digit hex c =
     (if is_digit c then Some (digit_val c)
      else if hex \<and> CHR ''a'' \<le> to_lower c \<and> to_lower c \<le> CHR ''f'' then Some (of_char (to_lower c) - 87) else None)"

text \<open>The digits and the point: their value, the digits after the point, whether there was one, the rest.\<close>

fun mantissa :: "bool \<Rightarrow> bool \<Rightarrow> nat \<Rightarrow> nat \<Rightarrow> bool \<Rightarrow> string \<Rightarrow> nat \<times> nat \<times> bool \<times> string" where
  "mantissa hex sawdot m k sawdigits [] = (m, k, sawdigits, [])"
| "mantissa hex sawdot m k sawdigits (c # cs) =
     (if c = CHR ''_'' then mantissa hex sawdot m k sawdigits cs
      else if c = CHR ''.'' then
        (if sawdot then (m, k, sawdigits, c # cs) else mantissa hex True m k sawdigits cs)
      else case base_digit hex c of
             None \<Rightarrow> (m, k, sawdigits, c # cs)
           | Some d \<Rightarrow> mantissa hex sawdot ((if hex then 16 else 10) * m + d) (if sawdot then Suc k else k) True cs)"

text \<open>The digits of an exponent; from 10000 on further digits are ignored.\<close>

fun exponent :: "nat \<Rightarrow> string \<Rightarrow> nat \<times> string" where
  "exponent e [] = (e, [])"
| "exponent e (c # cs) =
     (if c = CHR ''_'' then exponent e cs
      else if is_digit c then exponent (if e < 10000 then 10 * e + digit_val c else e) cs
      else (e, c # cs))"

definition strip_sign :: "string \<Rightarrow> bool \<times> string" where
  "strip_sign s = (if s \<noteq> [] \<and> (hd s = CHR ''+'' \<or> hd s = CHR ''-'') then (hd s = CHR ''-'', tl s) else (False, s))"

text \<open>\<open>underscoreOK\<close>: an underscore only between digits, or after a base prefix.\<close>

datatype saw = Saw_begin | Saw_digit | Saw_underscore | Saw_other

fun underscores :: "bool \<Rightarrow> saw \<Rightarrow> string \<Rightarrow> bool" where
  "underscores hex saw [] = (saw \<noteq> Saw_underscore)"
| "underscores hex saw (c # cs) =
     (if base_digit hex c \<noteq> None then underscores hex Saw_digit cs
      else if c = CHR ''_'' then saw = Saw_digit \<and> underscores hex Saw_underscore cs
      else saw \<noteq> Saw_underscore \<and> underscores hex Saw_other cs)"

definition underscoreOK :: "string \<Rightarrow> bool" where
  "underscoreOK s =
     (let t = snd (strip_sign s) in
      if length t \<ge> 2 \<and> hd t = CHR ''0'' \<and> to_lower (t ! 1) \<in> {CHR ''b'', CHR ''o'', CHR ''x''}
      then underscores (to_lower (t ! 1) = CHR ''x'') Saw_digit (drop 2 t)
      else underscores False Saw_begin t)"

definition pow_int :: "rat \<Rightarrow> int \<Rightarrow> rat" where
  "pow_int b e = (if 0 \<le> e then b ^ nat e else 1 / b ^ nat (- e))"

text \<open>\<open>readFloat\<close> on a string that is a number from end to end.\<close>

definition readFloat :: "string \<Rightarrow> rat option" where
  "readFloat s =
     (let (neg, t) = strip_sign s;
          hex = (length t > 2 \<and> hd t = CHR ''0'' \<and> to_lower (t ! 1) = CHR ''x'');
          (m, k, sawdigits, r) = mantissa hex False 0 0 False (if hex then drop 2 t else t);
          value = (\<lambda>e. (if neg then - 1 else 1) * of_nat m *
                    (if hex then pow_int 2 (e - 4 * int k) else pow_int 10 (e - int k)))
      in if \<not> sawdigits \<or> CHR ''_'' \<in> set s \<and> \<not> underscoreOK s then None
         else if r \<noteq> [] \<and> to_lower (hd r) = (if hex then CHR ''p'' else CHR ''e'') then
           (let (eneg, r) = strip_sign (tl r) in
            if r = [] \<or> \<not> is_digit (hd r) then None
            else (let (e, r) = exponent 0 r in
                  if r = [] then Some (value (if eneg then - int e else int e)) else None))
         else if hex then None
         else if r = [] then Some (value 0) else None)"

text \<open>Beyond the largest float64 \<open>ParseFloat\<close> returns an error; half of the smallest one rounds to zero.\<close>

definition ParseFloat :: "string \<Rightarrow> f64_value option" where
  "ParseFloat s =
     (case special s of
        Some v \<Rightarrow> Some v
      | None \<Rightarrow>
          (case readFloat s of
             None \<Rightarrow> None
           | Some q \<Rightarrow>
               if \<bar>q\<bar> \<ge> 2 ^ 1024 - 2 ^ 970 then None
               else Some (Finite (if \<bar>q\<bar> \<le> 1 / 2 ^ 1075 then 0 else q))))"

text \<open>The comparison \<open>v <= 0\<close>: false for NaN.\<close>

fun f64_le_0 :: "f64_value \<Rightarrow> bool" where
  "f64_le_0 (Finite q) = (q \<le> 0)"
| "f64_le_0 PosInf = False"
| "f64_le_0 NegInf = True"
| "f64_le_0 NaN = False"

lemmas float_simps = ParseFloat_def special_def readFloat_def strip_sign_def Let_def to_lower_def is_digit_def
  digit_val_def base_digit_def pow_int_def underscoreOK_def

lemma ParseFloat_examples:
  "ParseFloat ''10'' = Some (Finite 10)" "ParseFloat ''-2.5e-1'' = Some (Finite (- 1 / 4))"
  "ParseFloat ''1_000.5'' = Some (Finite (2001 / 2))" "ParseFloat ''0x1.8p1'' = Some (Finite 3)"
  "ParseFloat ''1e400'' = None" "ParseFloat ''nan'' = Some NaN" "ParseFloat ''-inf'' = Some NegInf"
  "ParseFloat ''5 '' = None" "ParseFloat ''.'' = None" "ParseFloat ''_1'' = None" "ParseFloat ''0x1'' = None"
  by (simp_all add: float_simps)

subsection \<open>time.ParseDuration\<close>

definition micro_units :: "string list" where
  "micro_units = [''us'', map char_of [194, 181, 115 :: nat], map char_of [206, 188, 115 :: nat]]"

definition unitMap :: "string \<Rightarrow> nat option" where
  "unitMap u =
     (if u = ''ns'' then Some 1 else if u \<in> set micro_units then Some 1000 else if u = ''ms'' then Some 1000000
      else if u = ''s'' then Some 1000000000 else if u = ''m'' then Some 60000000000
      else if u = ''h'' then Some 3600000000000 else None)"

text \<open>\<open>leadingFraction\<close>: digits that no longer fit are ignored.\<close>

fun leadingFraction :: "nat \<Rightarrow> nat \<Rightarrow> string \<Rightarrow> nat \<times> nat" where
  "leadingFraction x scale [] = (x, scale)"
| "leadingFraction x scale (c # cs) =
     (if x > (2 ^ 63 - 1) div 10 \<or> 10 * x + digit_val c > 2 ^ 63 then (x, scale)
      else leadingFraction (10 * x + digit_val c) (10 * scale) cs)"

definition is_unit_char :: "char \<Rightarrow> bool" where
  "is_unit_char c \<longleftrightarrow> c \<noteq> CHR ''.'' \<and> \<not> is_digit c"

text \<open>
  One number with its unit and the rest of the string. The fraction is the integer part of the
  exact quotient (the code computes it in float64, to the nanosecond).
\<close>

definition dur_term :: "string \<Rightarrow> (nat \<times> string) option" where
  "dur_term s =
     (let ds = takeWhile is_digit s; v = dec_val 0 ds; s1 = dropWhile is_digit s;
          dot = (s1 \<noteq> [] \<and> hd s1 = CHR ''.'');
          fs = (if dot then takeWhile is_digit (tl s1) else []);
          s2 = (if dot then dropWhile is_digit (tl s1) else s1);
          (f, scale) = leadingFraction 0 1 fs;
          u = takeWhile is_unit_char s2; s3 = dropWhile is_unit_char s2
      in if v > 2 ^ 63 then None
         else if ds = [] \<and> fs = [] then None
         else if u = [] then None
         else case unitMap u of
                None \<Rightarrow> None
              | Some unit \<Rightarrow>
                  if v > 2 ^ 63 div unit then None
                  else (let w = v * unit + f * unit div scale in
                        if f > 0 \<and> w > 2 ^ 63 then None else Some (w, s3)))"

lemma dur_term_shorter: "dur_term s = Some (v, s') \<Longrightarrow> length s' < length s"
proof -
  have d: "length (dropWhile P xs) \<le> length xs" for P and xs :: string by (rule length_dropWhile_le)
  have u: "length (dropWhile is_unit_char xs) < length xs" if "takeWhile is_unit_char xs \<noteq> []" for xs
    using that by (cases xs) (auto simp: less_Suc_eq_le length_dropWhile_le split: if_splits)
  assume a: "dur_term s = Some (v, s')"
  define s1 where "s1 = dropWhile is_digit s"
  define s2 where "s2 = (if s1 \<noteq> [] \<and> hd s1 = CHR ''.'' then dropWhile is_digit (tl s1) else s1)"
  have "takeWhile is_unit_char s2 \<noteq> []" "s' = dropWhile is_unit_char s2"
    using a unfolding dur_term_def s2_def s1_def Let_def by (auto split: prod.splits if_splits option.splits)
  then have "length s' < length s2" using u by blast
  also have "length s2 \<le> length s1" using d [of is_digit "tl s1"] by (auto simp: s2_def)
  also have "length s1 \<le> length s" unfolding s1_def by (rule d)
  finally show ?thesis .
qed

text \<open>The sum is a \<open>uint64\<close>; it wraps around in one case only, two terms of \<open>2 ^ 63\<close>.\<close>

function dur_loop :: "nat \<Rightarrow> string \<Rightarrow> nat option" where
  "dur_loop d s =
     (if s = [] then Some d
      else case dur_term s of
             None \<Rightarrow> None
           | Some (v, s') \<Rightarrow>
               let d' = (d + v) mod 2 ^ 64 in if d' > 2 ^ 63 then None else dur_loop d' s')"
  by pat_completeness auto
termination
  by (relation "measure (\<lambda>(d, s). length s)") (auto dest: dur_term_shorter)

declare dur_loop.simps [simp del]

definition ParseDuration :: "string \<Rightarrow> duration option" where
  "ParseDuration s =
     (let (neg, t) = strip_sign s in
      if t = ''0'' then Some 0
      else if t = [] then None
      else case dur_loop 0 t of
             None \<Rightarrow> None
           | Some d \<Rightarrow>
               if neg then Some (wrap64 (- int d)) else if d > 2 ^ 63 - 1 then None else Some (int d))"

subsection \<open>A decimal number with a unit is read exactly\<close>

lemma Atoi_show_nat: "n < 2 ^ 63 \<Longrightarrow> Atoi (show_nat n) = Some (int n)"
proof -
  assume "n < 2 ^ 63"
  then have b: "int n < 2 ^ 63" using of_nat_less_iff [of n "2 ^ 63", where ?'a = int] by simp
  obtain c cs where s: "show_nat n = c # cs" using show_nat_ne [of n] by (cases "show_nat n") auto
  then have "is_digit c" using show_nat_digits [of n] by (simp add: s)
  then have "c \<noteq> CHR ''+''" "c \<noteq> CHR ''-''" by (auto simp: is_digit_def)
  moreover have "list_all is_digit (c # cs)" "dec_val 0 (c # cs) = n" using show_nat_digits [of n] dec_val_show_nat [of n] by (simp_all add: s)
  ultimately show ?thesis unfolding s using b by (simp add: Let_def)
qed

lemma micro_unit_chars: "list_all (\<lambda>u. u \<noteq> [] \<and> list_all is_unit_char u) micro_units"
  by code_simp

lemma unit_chars: "unitMap u = Some k \<Longrightarrow> u \<noteq> [] \<and> list_all is_unit_char u \<and> 0 < k"
  using micro_unit_chars
  by (auto simp: unitMap_def is_unit_char_def is_digit_def list_all_iff split: if_splits)

lemma dur_term_show_nat:
  assumes "unitMap u = Some k" and "n \<le> 2 ^ 63 div k"
  shows "dur_term (show_nat n @ u) = Some (n * k, [])"
proof -
  note u = unit_chars [OF assms(1)]
  obtain c cs where cu: "u = c # cs" using u by (cases u) auto
  then have c: "\<not> is_digit c" "c \<noteq> CHR ''.''" using u by (auto simp: is_unit_char_def)
  have u': "takeWhile is_digit u = []" "dropWhile is_digit u = u" "hd u \<noteq> CHR ''.''" "u \<noteq> []" using c by (simp_all add: cu)
  have d: "takeWhile is_digit (show_nat n @ u) = show_nat n" "dropWhile is_digit (show_nat n @ u) = u"
    using show_nat_digits [of n] u' by (simp_all add: takeWhile_append2 dropWhile_append2 list_all_iff)
  have t: "takeWhile is_unit_char u = u" "dropWhile is_unit_char u = []" using u by (simp_all add: list_all_iff)
  have "n \<le> 2 ^ 63" using assms(2) div_le_dividend [of "2 ^ 63" k] by linarith
  then show ?thesis using assms u'(3,4) by (simp add: dur_term_def Let_def d t)
qed

lemma ParseDuration_show_nat:
  assumes "unitMap u = Some k" and "n * k < 2 ^ 63"
  shows "ParseDuration (show_nat n @ u) = Some (int (n * k))"
proof -
  note u = unit_chars [OF assms(1)]
  obtain c cs where s: "show_nat n = c # cs" using show_nat_ne [of n] by (cases "show_nat n") auto
  then have "is_digit c" using show_nat_digits [of n] by simp
  then have c: "c \<noteq> CHR ''+''" "c \<noteq> CHR ''-''" by (auto simp: is_digit_def)
  have sg: "strip_sign (show_nat n @ u) = (False, show_nat n @ u)" using c by (simp add: strip_sign_def s)
  have "n \<le> 2 ^ 63 div k" using assms(2) u by (simp add: less_eq_div_iff_mult_less_eq)
  then have t: "dur_term (show_nat n @ u) = Some (n * k, [])" by (rule dur_term_show_nat [OF assms(1)])
  have "dur_loop 0 (show_nat n @ u) = Some (n * k)"
    unfolding dur_loop.simps [of 0 "show_nat n @ u"] using t assms(2) by (simp add: Let_def dur_loop.simps [of _ "[]"])
  moreover have "show_nat n @ u \<noteq> ''0''"
  proof
    assume "show_nat n @ u = ''0''"
    with s u show False by auto
  qed
  ultimately show ?thesis using assms(2) sg show_nat_ne [of n] by (simp add: ParseDuration_def)
qed

end
