(* ===== verification/Config.thy ===== *)
theory Config
  imports Strconv WsHub
begin

section \<open>Configuration of the four services (pkg/config/config.go)\<close>

text \<open>
  Each service reads its configuration from environment variables: texts as they are, numbers and
  durations with a default for what is missing, malformed or not positive, lists split at commas.
  \<open>Load\<close> ends the process when a required variable is empty. The helpers are the same in the
  services that have them. An unset variable is the empty string, as \<open>os.Getenv\<close> has it.
\<close>

type_synonym environment = "string \<Rightarrow> string"

subsection \<open>Values\<close>

definition parseIntOrDefault :: "string \<Rightarrow> int \<Rightarrow> int" where
  "parseIntOrDefault raw def =
     (if raw = [] then def else case Atoi raw of None \<Rightarrow> def | Some v \<Rightarrow> if v \<le> 0 then def else v)"

definition parseDurationOrDefault :: "string \<Rightarrow> duration \<Rightarrow> duration" where
  "parseDurationOrDefault raw def =
     (if raw = [] then def else case ParseDuration raw of None \<Rightarrow> def | Some v \<Rightarrow> if v \<le> 0 then def else v)"

definition parseFloatOrDefault :: "string \<Rightarrow> f64_value \<Rightarrow> f64_value" where
  "parseFloatOrDefault raw def =
     (if raw = [] then def else case ParseFloat raw of None \<Rightarrow> def | Some v \<Rightarrow> if f64_le_0 v then def else v)"

definition queueTypeOrDefault :: "string \<Rightarrow> string" where
  "queueTypeOrDefault raw = (if raw = [] then ''classic'' else raw)"

definition parseOrigins :: "string \<Rightarrow> string list" where
  "parseOrigins raw =
     (if TrimSpace raw = [] then [''*''] else filter (\<lambda>p. p \<noteq> []) (map TrimSpace (Split (CHR '','') raw)))"

definition splitCSV :: "string \<Rightarrow> string list" where
  "splitCSV raw = filter (\<lambda>p. p \<noteq> []) (map TrimSpace (Split (CHR '','') raw))"

definition defaultDBMaxOpenConns :: int where "defaultDBMaxOpenConns = 20"
definition defaultDBMaxIdleConns :: int where "defaultDBMaxIdleConns = 5"
definition defaultDBConnMaxLifetime :: duration where "defaultDBConnMaxLifetime = 30 * minute"

subsection \<open>auth-service\<close>

record AuthServiceConfig =
  acf_AppPort :: string
  acf_JWTSecret :: string
  acf_DBHost :: string
  acf_DBUser :: string
  acf_DBPassword :: string
  acf_DBName :: string
  acf_DBPort :: string
  acf_InternalSecret :: string
  acf_EnableSwagger :: bool
  acf_AuthRateLimitRPS :: f64_value
  acf_AuthRateLimitBurst :: f64_value
  acf_RedisURL :: string
  acf_DBMaxOpenConns :: int
  acf_DBMaxIdleConns :: int
  acf_DBConnMaxLifetime :: duration
  acf_MaxSessionsPerUser :: int
  acf_BootstrapAdminEmail :: string
  acf_BootstrapAdminPassword :: string

definition AuthServiceConfig_Load :: "environment \<Rightarrow> string + AuthServiceConfig" where
  "AuthServiceConfig_Load env =
    (let AppConfig = \<lparr>acf_AppPort = env ''APP_PORT'',
       acf_JWTSecret = env ''JWT_SECRET'',
       acf_DBHost = env ''DB_HOST'',
       acf_DBUser = env ''DB_USER'',
       acf_DBPassword = env ''DB_PASSWORD'',
       acf_DBName = env ''DB_NAME'',
       acf_DBPort = env ''DB_PORT'',
       acf_InternalSecret = env ''INTERNAL_SHARED_SECRET'',
       acf_EnableSwagger = (env ''ENABLE_SWAGGER'' = ''true''),
       acf_AuthRateLimitRPS = parseFloatOrDefault (env ''AUTH_RATE_LIMIT_RPS'') (Finite 5),
       acf_AuthRateLimitBurst = parseFloatOrDefault (env ''AUTH_RATE_LIMIT_BURST'') (Finite 10),
       acf_RedisURL = env ''REDIS_URL'',
       acf_DBMaxOpenConns = parseIntOrDefault (env ''DB_MAX_OPEN_CONNS'') defaultDBMaxOpenConns,
       acf_DBMaxIdleConns = parseIntOrDefault (env ''DB_MAX_IDLE_CONNS'') defaultDBMaxIdleConns,
       acf_DBConnMaxLifetime = parseDurationOrDefault (env ''DB_CONN_MAX_LIFETIME'') defaultDBConnMaxLifetime,
       acf_MaxSessionsPerUser = parseIntOrDefault (env ''MAX_SESSIONS_PER_USER'') 5,
       acf_BootstrapAdminEmail = env ''BOOTSTRAP_ADMIN_EMAIL'',
       acf_BootstrapAdminPassword = env ''BOOTSTRAP_ADMIN_PASSWORD''\<rparr> in
     if acf_AppPort AppConfig = [] then Inl ''APP_PORT is required''
     else if acf_JWTSecret AppConfig = [] then Inl ''JWT_SECRET is required''
     else if acf_DBHost AppConfig = [] then Inl ''DB_HOST is required''
     else if acf_InternalSecret AppConfig = [] then Inl ''INTERNAL_SHARED_SECRET is required''
     else Inr AppConfig)"

subsection \<open>ticket-service\<close>

record TicketServiceConfig =
  tcf_AppPort :: string
  tcf_RabbitMQURL :: string
  tcf_RabbitQueueType :: string
  tcf_DBHost :: string
  tcf_DBUser :: string
  tcf_DBPassword :: string
  tcf_DBName :: string
  tcf_DBPort :: string
  tcf_InternalSecret :: string
  tcf_TicketRateLimitRPS :: f64_value
  tcf_TicketRateLimitBurst :: f64_value
  tcf_RedisURL :: string
  tcf_EnableSwagger :: bool
  tcf_DBMaxOpenConns :: int
  tcf_DBMaxIdleConns :: int
  tcf_DBConnMaxLifetime :: duration

definition TicketServiceConfig_Load :: "environment \<Rightarrow> string + TicketServiceConfig" where
  "TicketServiceConfig_Load env =
    (let AppConfig = \<lparr>tcf_AppPort = env ''APP_PORT'',
       tcf_RabbitMQURL = env ''RABBITMQ_URL'',
       tcf_RabbitQueueType = queueTypeOrDefault (env ''RABBITMQ_QUEUE_TYPE''),
       tcf_DBHost = env ''DB_HOST'',
       tcf_DBUser = env ''DB_USER'',
       tcf_DBPassword = env ''DB_PASSWORD'',
       tcf_DBName = env ''DB_NAME'',
       tcf_DBPort = env ''DB_PORT'',
       tcf_InternalSecret = env ''INTERNAL_SHARED_SECRET'',
       tcf_TicketRateLimitRPS = parseFloatOrDefault (env ''TICKET_RATE_LIMIT_RPS'') (Finite 5),
       tcf_TicketRateLimitBurst = parseFloatOrDefault (env ''TICKET_RATE_LIMIT_BURST'') (Finite 10),
       tcf_RedisURL = env ''REDIS_URL'',
       tcf_EnableSwagger = (env ''ENABLE_SWAGGER'' = ''true''),
       tcf_DBMaxOpenConns = parseIntOrDefault (env ''DB_MAX_OPEN_CONNS'') defaultDBMaxOpenConns,
       tcf_DBMaxIdleConns = parseIntOrDefault (env ''DB_MAX_IDLE_CONNS'') defaultDBMaxIdleConns,
       tcf_DBConnMaxLifetime = parseDurationOrDefault (env ''DB_CONN_MAX_LIFETIME'') defaultDBConnMaxLifetime\<rparr> in
     if tcf_AppPort AppConfig = [] then Inl ''APP_PORT is required''
     else if tcf_DBHost AppConfig = [] then Inl ''DB_HOST is required''
     else if tcf_InternalSecret AppConfig = [] then Inl ''INTERNAL_SHARED_SECRET is required''
     else Inr AppConfig)"

subsection \<open>notification-service\<close>

record NotificationServiceConfig =
  ncf_AppPort :: string
  ncf_RabbitMQURL :: string
  ncf_RabbitQueueType :: string
  ncf_JWTSecret :: string
  ncf_AllowedOrigins :: "string list"
  ncf_WSRateLimitRPS :: f64_value
  ncf_WSRateLimitBurst :: f64_value
  ncf_TrustedProxies :: "string list"
  ncf_RedisURL :: string
  ncf_MaxWSConnections :: int
  ncf_DBHost :: string
  ncf_DBUser :: string
  ncf_DBPassword :: string
  ncf_DBName :: string
  ncf_DBPort :: string
  ncf_DBMaxOpenConns :: int
  ncf_DBMaxIdleConns :: int
  ncf_DBConnMaxLifetime :: duration

definition NotificationServiceConfig_Load :: "environment \<Rightarrow> string + NotificationServiceConfig" where
  "NotificationServiceConfig_Load env =
    (let AppConfig = \<lparr>ncf_AppPort = env ''APP_PORT'',
       ncf_RabbitMQURL = env ''RABBITMQ_URL'',
       ncf_RabbitQueueType = queueTypeOrDefault (env ''RABBITMQ_QUEUE_TYPE''),
       ncf_JWTSecret = env ''JWT_SECRET'',
       ncf_AllowedOrigins = parseOrigins (env ''ALLOWED_ORIGINS''),
       ncf_WSRateLimitRPS = parseFloatOrDefault (env ''WS_RATE_LIMIT_RPS'') (Finite 5),
       ncf_WSRateLimitBurst = parseFloatOrDefault (env ''WS_RATE_LIMIT_BURST'') (Finite 10),
       ncf_TrustedProxies = splitCSV (env ''TRUSTED_PROXIES''),
       ncf_RedisURL = env ''REDIS_URL'',
       ncf_MaxWSConnections = parseIntOrDefault (env ''MAX_WS_CONNECTIONS'') 1000,
       ncf_DBHost = env ''DB_HOST'',
       ncf_DBUser = env ''DB_USER'',
       ncf_DBPassword = env ''DB_PASSWORD'',
       ncf_DBName = env ''DB_NAME'',
       ncf_DBPort = env ''DB_PORT'',
       ncf_DBMaxOpenConns = parseIntOrDefault (env ''DB_MAX_OPEN_CONNS'') defaultDBMaxOpenConns,
       ncf_DBMaxIdleConns = parseIntOrDefault (env ''DB_MAX_IDLE_CONNS'') defaultDBMaxIdleConns,
       ncf_DBConnMaxLifetime = parseDurationOrDefault (env ''DB_CONN_MAX_LIFETIME'') defaultDBConnMaxLifetime\<rparr> in
     if ncf_AppPort AppConfig = [] then Inl ''APP_PORT is required''
     else if ncf_JWTSecret AppConfig = [] then Inl ''JWT_SECRET is required''
     else if ncf_DBHost AppConfig = [] then Inl ''DB_HOST is required''
     else Inr AppConfig)"

subsection \<open>api-gateway\<close>

record GatewayServiceConfig =
  gcf_AppPort :: string
  gcf_JWTSecret :: string
  gcf_AuthServiceURL :: string
  gcf_TicketServiceURL :: string
  gcf_AllowedOrigins :: "string list"
  gcf_RateLimitRPS :: f64_value
  gcf_RateLimitBurst :: f64_value
  gcf_InternalSecret :: string
  gcf_RedisURL :: string

definition GatewayServiceConfig_Load :: "environment \<Rightarrow> string + GatewayServiceConfig" where
  "GatewayServiceConfig_Load env =
    (let AppConfig = \<lparr>gcf_AppPort = env ''APP_PORT'',
       gcf_JWTSecret = env ''JWT_SECRET'',
       gcf_AuthServiceURL = env ''AUTH_SERVICE_URL'',
       gcf_TicketServiceURL = env ''TICKET_SERVICE_URL'',
       gcf_AllowedOrigins = parseOrigins (env ''ALLOWED_ORIGINS''),
       gcf_RateLimitRPS = parseFloatOrDefault (env ''RATE_LIMIT_RPS'') (Finite 10),
       gcf_RateLimitBurst = parseFloatOrDefault (env ''RATE_LIMIT_BURST'') (Finite 20),
       gcf_InternalSecret = env ''INTERNAL_SHARED_SECRET'',
       gcf_RedisURL = env ''REDIS_URL''\<rparr> in
     if gcf_AppPort AppConfig = [] then Inl ''APP_PORT is required''
     else if gcf_JWTSecret AppConfig = [] then Inl ''JWT_SECRET is required''
     else if gcf_InternalSecret AppConfig = [] then Inl ''INTERNAL_SHARED_SECRET is required''
     else Inr AppConfig)"

subsection \<open>What a loaded configuration guarantees\<close>

lemma parseIntOrDefault_range: "0 < def \<Longrightarrow> def < 2 ^ 63 \<Longrightarrow> 0 < parseIntOrDefault raw def \<and> parseIntOrDefault raw def < 2 ^ 63"
  by (cases raw) (auto simp: parseIntOrDefault_def Let_def split: option.splits if_splits)

lemma parseDurationOrDefault_pos: "0 < def \<Longrightarrow> 0 < parseDurationOrDefault raw def"
  by (auto simp: parseDurationOrDefault_def split: option.splits)

text \<open>A rate or burst: positive, infinite or not a number.\<close>

definition rate_value :: "f64_value \<Rightarrow> bool" where
  "rate_value v \<longleftrightarrow> v = NaN \<or> v = PosInf \<or> (\<exists>q>0. v = Finite q)"

lemma parseFloatOrDefault_rate: "rate_value def \<Longrightarrow> rate_value (parseFloatOrDefault raw def)"
proof -
  have "rate_value v" if "\<not> f64_le_0 v" for v using that by (cases v) (auto simp: rate_value_def)
  then show "rate_value def \<Longrightarrow> rate_value (parseFloatOrDefault raw def)"
    by (auto simp: parseFloatOrDefault_def split: option.splits)
qed

lemma parseFloatOrDefault_finite: "0 < q \<Longrightarrow> rate_value (parseFloatOrDefault raw (Finite q))"
  by (rule parseFloatOrDefault_rate) (simp add: rate_value_def)

text \<open>The first of the required variables that is empty.\<close>

definition missing :: "environment \<Rightarrow> string list \<Rightarrow> string option" where
  "missing env ks = map_option (\<lambda>k. k @ '' is required'') (List.find (\<lambda>k. env k = []) ks)"

definition loads :: "environment \<Rightarrow> string list \<Rightarrow> string + 'c \<Rightarrow> ('c \<Rightarrow> bool) \<Rightarrow> bool" where
  "loads env ks r ok \<longleftrightarrow> (case missing env ks of Some e \<Rightarrow> r = Inl e | None \<Rightarrow> \<exists>c. r = Inr c \<and> ok c)"

definition pool_ok :: "int \<Rightarrow> int \<Rightarrow> duration \<Rightarrow> bool" where
  "pool_ok open_conns idle lifetime \<longleftrightarrow> 0 < open_conns \<and> open_conns < 2 ^ 63 \<and> 0 < idle \<and> idle < 2 ^ 63 \<and> 0 < lifetime"

lemma default_pool:
  "pool_ok (parseIntOrDefault a defaultDBMaxOpenConns) (parseIntOrDefault b defaultDBMaxIdleConns)
     (parseDurationOrDefault c defaultDBConnMaxLifetime)"
  using parseIntOrDefault_range [of defaultDBMaxOpenConns a] parseIntOrDefault_range [of defaultDBMaxIdleConns b]
    parseDurationOrDefault_pos [of defaultDBConnMaxLifetime c]
  by (simp add: pool_ok_def defaultDBMaxOpenConns_def defaultDBMaxIdleConns_def defaultDBConnMaxLifetime_def)

lemmas load_simps = loads_def missing_def Let_def default_pool parseFloatOrDefault_finite

text \<open>
  C31. No service starts on a half configuration. Each \<open>Load\<close> ends the process exactly when one of
  its required variables is empty, naming the first of them, whatever the other variables hold; and
  otherwise yields pool sizes, limits and a lifetime that are positive and fit their type. A
  malformed value is never an error. A rate or burst that is accepted is positive, infinite or not
  a number: \<open>NaN\<close> passes the check \<open>v <= 0\<close>.
\<close>
theorem config_load:
  "loads env [''APP_PORT'', ''JWT_SECRET'', ''DB_HOST'', ''INTERNAL_SHARED_SECRET''] (AuthServiceConfig_Load env)
     (\<lambda>c. pool_ok (acf_DBMaxOpenConns c) (acf_DBMaxIdleConns c) (acf_DBConnMaxLifetime c) \<and>
        0 < acf_MaxSessionsPerUser c \<and> acf_MaxSessionsPerUser c < 2 ^ 63 \<and>
        rate_value (acf_AuthRateLimitRPS c) \<and> rate_value (acf_AuthRateLimitBurst c)) \<and>
   loads env [''APP_PORT'', ''DB_HOST'', ''INTERNAL_SHARED_SECRET''] (TicketServiceConfig_Load env)
     (\<lambda>c. pool_ok (tcf_DBMaxOpenConns c) (tcf_DBMaxIdleConns c) (tcf_DBConnMaxLifetime c) \<and>
        rate_value (tcf_TicketRateLimitRPS c) \<and> rate_value (tcf_TicketRateLimitBurst c)) \<and>
   loads env [''APP_PORT'', ''JWT_SECRET'', ''DB_HOST''] (NotificationServiceConfig_Load env)
     (\<lambda>c. pool_ok (ncf_DBMaxOpenConns c) (ncf_DBMaxIdleConns c) (ncf_DBConnMaxLifetime c) \<and>
        0 < ncf_MaxWSConnections c \<and> ncf_MaxWSConnections c < 2 ^ 63 \<and>
        rate_value (ncf_WSRateLimitRPS c) \<and> rate_value (ncf_WSRateLimitBurst c)) \<and>
   loads env [''APP_PORT'', ''JWT_SECRET'', ''INTERNAL_SHARED_SECRET''] (GatewayServiceConfig_Load env)
     (\<lambda>c. rate_value (gcf_RateLimitRPS c) \<and> rate_value (gcf_RateLimitBurst c))"
proof (intro conjI)
  show "loads env [''APP_PORT'', ''JWT_SECRET'', ''DB_HOST'', ''INTERNAL_SHARED_SECRET''] (AuthServiceConfig_Load env)
     (\<lambda>c. pool_ok (acf_DBMaxOpenConns c) (acf_DBMaxIdleConns c) (acf_DBConnMaxLifetime c) \<and>
        0 < acf_MaxSessionsPerUser c \<and> acf_MaxSessionsPerUser c < 2 ^ 63 \<and>
        rate_value (acf_AuthRateLimitRPS c) \<and> rate_value (acf_AuthRateLimitBurst c))"
    using parseIntOrDefault_range [of 5 "env ''MAX_SESSIONS_PER_USER''"] by (simp add: AuthServiceConfig_Load_def load_simps)
  show "loads env [''APP_PORT'', ''JWT_SECRET'', ''DB_HOST''] (NotificationServiceConfig_Load env)
     (\<lambda>c. pool_ok (ncf_DBMaxOpenConns c) (ncf_DBMaxIdleConns c) (ncf_DBConnMaxLifetime c) \<and>
        0 < ncf_MaxWSConnections c \<and> ncf_MaxWSConnections c < 2 ^ 63 \<and>
        rate_value (ncf_WSRateLimitRPS c) \<and> rate_value (ncf_WSRateLimitBurst c))"
    using parseIntOrDefault_range [of 1000 "env ''MAX_WS_CONNECTIONS''"] by (simp add: NotificationServiceConfig_Load_def load_simps)
qed (simp_all add: TicketServiceConfig_Load_def GatewayServiceConfig_Load_def load_simps)

text \<open>Numbers and durations are read as they are written.\<close>

lemma config_number: "0 < n \<Longrightarrow> n < 2 ^ 63 \<Longrightarrow> parseIntOrDefault (show_nat n) def = int n"
  by (simp add: parseIntOrDefault_def Atoi_show_nat)

lemma config_duration:
  assumes "unitMap u = Some k" and "0 < n" and "n * k < 2 ^ 63"
  shows "parseDurationOrDefault (show_nat n @ u) def = int (n * k)"
proof -
  have "0 < n * k" using assms(2) unit_chars [OF assms(1)] by simp
  then have "\<not> int (n * k) \<le> 0" by linarith
  then show ?thesis unfolding parseDurationOrDefault_def ParseDuration_show_nat [OF assms(1,3)] by simp
qed

lemma origin_listed:
  "x \<noteq> [] \<Longrightarrow> (\<exists>p\<in>S. f p \<noteq> [] \<and> (f p = ''*'' \<or> f p = x)) \<longleftrightarrow> (\<exists>p\<in>S. f p = x \<or> f p = ''*'')"
  by force

text \<open>
  Which web pages may open a WebSocket, in terms of the configuration text: all when
  ALLOWED_ORIGINS is blank, else those whose origin is one of its comma separated entries, blanks
  around it ignored, or all when an entry is the star; a client that sends no origin always may.
  A text of commas and blanks only allows no web page at all.
\<close>
theorem ws_origins_configured:
  assumes "NotificationServiceConfig_Load env = Inr cfg"
  shows "checkOrigin (ncf_AllowedOrigins cfg) r \<longleftrightarrow>
    GetHeader ''Origin'' r = [] \<or> TrimSpace (env ''ALLOWED_ORIGINS'') = [] \<or>
    (\<exists>entry\<in>set (Split (CHR '','') (env ''ALLOWED_ORIGINS'')).
       TrimSpace entry = GetHeader ''Origin'' r \<or> TrimSpace entry = ''*'')"
proof -
  have "ncf_AllowedOrigins cfg = parseOrigins (env ''ALLOWED_ORIGINS'')"
    using assms by (auto simp: NotificationServiceConfig_Load_def Let_def split: if_splits)
  then show ?thesis
    by (cases "TrimSpace (env ''ALLOWED_ORIGINS'') = []"; cases "GetHeader ''Origin'' r = []") (simp_all add: checkOrigin_def parseOrigins_def Let_def origin_listed)
qed

definition demo_env :: environment where
  "demo_env k = (if k = ''ALLOWED_ORIGINS'' then '' a , ,b'' else ''x'')"

definition demo_origin :: "string \<Rightarrow> request" where
  "demo_origin o' = \<lparr>rq_method = ''GET'', rq_path = ''/ws'', rq_headers = (\<lambda>h. if h = ''Origin'' then o' else []),
     rq_query = (\<lambda>_. []), rq_ip = ''1'', rq_body = None\<rparr>"

theorem ws_origins_configured_witness:
  "\<exists>cfg. NotificationServiceConfig_Load demo_env = Inr cfg \<and> checkOrigin (ncf_AllowedOrigins cfg) (demo_origin ''a'') \<and>
     \<not> checkOrigin (ncf_AllowedOrigins cfg) (demo_origin ''c'')"
proof -
  have t: "TrimSpace '' a , ,b'' = ''a , ,b''" by code_simp
  have s: "map TrimSpace (Split (CHR '','') '' a , ,b'') = [''a'', [], ''b'']" by code_simp
  have e: "demo_env ''ALLOWED_ORIGINS'' = '' a , ,b''" by (simp add: demo_env_def)
  obtain cfg where cfg: "NotificationServiceConfig_Load demo_env = Inr cfg"
    by (simp add: NotificationServiceConfig_Load_def Let_def demo_env_def)
  have "GetHeader ''Origin'' (demo_origin x) = x" for x by (simp add: demo_origin_def GetHeader_def)
  then have "checkOrigin (ncf_AllowedOrigins cfg) (demo_origin x) \<longleftrightarrow> x = [] \<or> x \<in> set (map TrimSpace (Split (CHR '','') '' a , ,b'')) \<or>
      ''*'' \<in> set (map TrimSpace (Split (CHR '','') '' a , ,b''))" for x
    unfolding ws_origins_configured [OF cfg] e t by auto
  then have "checkOrigin (ncf_AllowedOrigins cfg) (demo_origin x) \<longleftrightarrow> x \<in> {[], ''a'', ''b''}" for x
    unfolding s by auto
  then show ?thesis using cfg by simp
qed

end
