(* ===== verification/Migrations.thy ===== *)
theory Migrations
  imports Prelude
begin

section \<open>Schema migrations at start-up (internal/migrations)\<close>

text \<open>
  \<open>Run\<close>, the same in the three services with a database, and its steps when several replicas
  start at once. golang-migrate is a parameter: \<open>documented\<close> states what its documentation says
  of \<open>Version\<close>, \<open>Force\<close> and \<open>Up\<close>. The migration files are those of the source, as the tables,
  columns and indexes each of them creates.
\<close>

subsection \<open>The database as the migrations see it\<close>

text \<open>
  The row of \<open>schema_migrations\<close> (none in a database that the tool has not seen) and the tables,
  columns and indexes there are.
\<close>

record MigrationDb =
  md_version :: "nat option"
  md_dirty :: bool
  md_objects :: "string list"

type_synonym migrations = "string list list"  \<comment> \<open>what 000001, 000002, \<dots> create\<close>

definition auth_migrations :: migrations where
  "auth_migrations =
     [[''users'', ''refresh_tokens''],
      [''refresh_tokens.created_at'', ''refresh_tokens.expires_at'', ''idx_refresh_tokens_user_id'']]"

definition ticket_migrations :: migrations where
  "ticket_migrations = [[''tickets'', ''ticket_status_histories'', ''ticket_comments'', ''ticket_attachments'']]"

definition notification_migrations :: migrations where
  "notification_migrations = [[''notifications'', ''idx_notifications_user_id'']]"

datatype mig_err =
    ErrNoChange
  | ErrDirty nat      \<comment> \<open>a previous migration failed half-way\<close>
  | ErrStatement nat  \<comment> \<open>the file of that version failed\<close>
  | ErrConnection

text \<open>The methods of \<open>migrate.Migrate\<close> that \<open>Run\<close> calls; \<open>None\<close> is \<open>ErrNilVersion\<close>.\<close>

record migrator =
  mg_Version :: "MigrationDb \<Rightarrow> (nat \<times> bool) option"
  mg_Force :: "nat \<Rightarrow> MigrationDb \<Rightarrow> MigrationDb"
  mg_Up :: "MigrationDb \<Rightarrow> (mig_err + unit) \<times> MigrationDb"

text \<open>The next file applied: its statements run as one transaction, so what exists already fails it.\<close>

definition next_applies :: "migrations \<Rightarrow> nat \<Rightarrow> MigrationDb \<Rightarrow> bool" where
  "next_applies files v db \<longleftrightarrow> set (files ! v) \<inter> set (md_objects db) = {}"

definition apply_next :: "migrations \<Rightarrow> nat \<Rightarrow> MigrationDb \<Rightarrow> MigrationDb" where
  "apply_next files v db = db\<lparr>md_version := Some (Suc v), md_objects := md_objects db @ files ! v\<rparr>"

abbreviation version_of :: "MigrationDb \<Rightarrow> nat" where
  "version_of db \<equiv> (case md_version db of None \<Rightarrow> 0 | Some v \<Rightarrow> v)"

text \<open>
  What golang-migrate documents: \<open>Version\<close> reads the row; \<open>Force\<close> writes it, clean, whatever it
  was; \<open>Up\<close> refuses a dirty database, says so when nothing is to be done, and else applies the
  files after the current version one by one, leaving the version of a file that fails dirty.
\<close>

definition documented :: "migrations \<Rightarrow> migrator \<Rightarrow> bool" where
  "documented files mg \<longleftrightarrow>
     (\<forall>db. mg_Version mg db = map_option (\<lambda>v. (v, md_dirty db)) (md_version db)) \<and>
     (\<forall>v db. mg_Force mg v db = db\<lparr>md_version := Some v, md_dirty := False\<rparr>) \<and>
     (\<forall>db. md_dirty db \<longrightarrow> mg_Up mg db = (Inl (ErrDirty (version_of db)), db)) \<and>
     (\<forall>db. \<not> md_dirty db \<longrightarrow> version_of db = length files \<longrightarrow> mg_Up mg db = (Inl ErrNoChange, db)) \<and>
     (\<forall>db. \<not> md_dirty db \<longrightarrow> version_of db < length files \<longrightarrow> \<not> next_applies files (version_of db) db \<longrightarrow>
        mg_Up mg db = (Inl (ErrStatement (Suc (version_of db))),
          db\<lparr>md_version := Some (Suc (version_of db)), md_dirty := True\<rparr>)) \<and>
     (\<forall>db. \<not> md_dirty db \<longrightarrow> version_of db < length files \<longrightarrow> next_applies files (version_of db) db \<longrightarrow>
        mg_Up mg db = (case mg_Up mg (apply_next files (version_of db) db) of
          (r, db') \<Rightarrow> (if r = Inl ErrNoChange then Inr () else r, db')))"

subsection \<open>migrate.go\<close>

text \<open>The query on \<open>information_schema.tables\<close>.\<close>

definition tableExists :: "string \<Rightarrow> MigrationDb \<Rightarrow> bool" where
  "tableExists name db \<longleftrightarrow> name \<in> set (md_objects db)"

text \<open>\<open>ft\<close> says which of the calls fail for want of the database (0 to 2 construct the tool).\<close>

definition run_Up :: "migrator \<Rightarrow> bool \<Rightarrow> MigrationDb \<Rightarrow> (mig_err + unit) \<times> MigrationDb" where
  "run_Up mg fails db =
     (if fails then (Inl ErrConnection, db)
      else case mg_Up mg db of
             (Inl e, db') \<Rightarrow> if e \<noteq> ErrNoChange then (Inl e, db') else (Inr (), db')
           | (Inr u, db') \<Rightarrow> (Inr (), db'))"

definition Run :: "migrator \<Rightarrow> (nat \<Rightarrow> bool) \<Rightarrow> string \<Rightarrow> MigrationDb \<Rightarrow> (mig_err + unit) \<times> MigrationDb" where
  "Run mg ft adoptionCheckTable db =
     (if ft 0 then (Inl ErrConnection, db)
      else if ft 1 then (Inl ErrConnection, db)
      else if ft 2 then (Inl ErrConnection, db)
      else if ft 3 then (Inl ErrConnection, db)
      else case mg_Version mg db of
             None \<Rightarrow>
               if ft 4 then (Inl ErrConnection, db)
               else if tableExists adoptionCheckTable db then
                 (if ft 5 then (Inl ErrConnection, db) else run_Up mg (ft 6) (mg_Force mg 1 db))
               else run_Up mg (ft 6) db
           | Some (version, dirty) \<Rightarrow>
               if dirty then (Inl (ErrDirty version), db) else run_Up mg (ft 6) db)"

subsection \<open>One replica\<close>

lemma documentedD:
  assumes "documented files mg"
  shows "mg_Version mg db = map_option (\<lambda>v. (v, md_dirty db)) (md_version db)"
    and "mg_Force mg v db = db\<lparr>md_version := Some v, md_dirty := False\<rparr>"
    and "md_dirty db \<Longrightarrow> mg_Up mg db = (Inl (ErrDirty (version_of db)), db)"
    and "\<not> md_dirty db \<Longrightarrow> version_of db = length files \<Longrightarrow> mg_Up mg db = (Inl ErrNoChange, db)"
    and "\<not> md_dirty db \<Longrightarrow> version_of db < length files \<Longrightarrow> \<not> next_applies files (version_of db) db \<Longrightarrow>
        mg_Up mg db = (Inl (ErrStatement (Suc (version_of db))),
          db\<lparr>md_version := Some (Suc (version_of db)), md_dirty := True\<rparr>)"
    and "\<not> md_dirty db \<Longrightarrow> version_of db < length files \<Longrightarrow> next_applies files (version_of db) db \<Longrightarrow>
        mg_Up mg db = (case mg_Up mg (apply_next files (version_of db) db) of
          (r, db') \<Rightarrow> (if r = Inl ErrNoChange then Inr () else r, db'))"
  using assms unfolding documented_def by blast+

text \<open>
  A database with its first \<open>v\<close> migrations, and nothing of the later ones.
\<close>

definition at_version :: "migrations \<Rightarrow> nat \<Rightarrow> MigrationDb \<Rightarrow> bool" where
  "at_version files v db \<longleftrightarrow> v \<le> length files \<and> version_of db = v \<and> \<not> md_dirty db \<and>
     set (concat (take v files)) \<subseteq> set (md_objects db) \<and> set (md_objects db) \<inter> set (concat (drop v files)) = {}"

lemma at_version_next:
  assumes "at_version files v db" and "v < length files" and "distinct (concat files)"
  shows "next_applies files v db" and "at_version files (Suc v) (apply_next files v db)"
proof -
  have d: "drop v files = files ! v # drop (Suc v) files" using assms(2) by (rule Cons_nth_drop_Suc [symmetric])
  show "next_applies files v db" using assms(1) d by (auto simp: at_version_def next_applies_def)
  have "distinct (concat (drop v files))"
    using assms(3) append_take_drop_id [of v files] concat_append [of "take v files" "drop v files"] by (metis distinct_append)
  then have "set (files ! v) \<inter> set (concat (drop (Suc v) files)) = {}" by (simp add: d)
  moreover have "concat (take (Suc v) files) = concat (take v files) @ files ! v"
    using assms(2) by (simp add: take_Suc_conv_app_nth)
  ultimately show "at_version files (Suc v) (apply_next files v db)"
    using assms(1,2) d by (auto simp: at_version_def apply_next_def)
qed

lemma Up_from:
  assumes "documented files mg" and "distinct (concat files)" and "at_version files v db"
  shows "\<exists>db'. mg_Up mg db = (if v = length files then Inl ErrNoChange else Inr (), db') \<and>
    at_version files (length files) db' \<and> (v = length files \<longrightarrow> db' = db) \<and> (md_version db \<noteq> None \<or> 0 < length files \<longrightarrow> md_version db' = Some (length files))"
  using assms(3)
proof (induction "length files - v" arbitrary: v db)
  case 0
  then have "v = length files" by (simp add: at_version_def)
  with 0 documentedD(4) [OF assms(1), of db] show ?case by (auto simp: at_version_def split: option.splits)
next
  case (Suc n)
  then have lt: "v < length files" by simp
  note nx = at_version_next [OF Suc.prems lt assms(2)]
  have "version_of db = v" "\<not> md_dirty db" using Suc.prems by (simp_all add: at_version_def)
  then have up: "mg_Up mg db = (case mg_Up mg (apply_next files v db) of (r, db') \<Rightarrow> (if r = Inl ErrNoChange then Inr () else r, db'))"
    using documentedD(6) [OF assms(1), of db] nx(1) lt by simp
  have "md_version (apply_next files v db) \<noteq> None" by (simp add: apply_next_def)
  with Suc.hyps(1) [OF _ nx(2)] Suc.hyps(2) obtain db' where
    "mg_Up mg (apply_next files v db) = (if Suc v = length files then Inl ErrNoChange else Inr (), db')"
    "at_version files (length files) db'" "md_version db' = Some (length files)" by force
  with up lt show ?case by auto
qed

text \<open>
  A database as \<open>Run\<close> may find it: one the tool has migrated to some version; an empty one; or one
  from before the tool, with exactly the objects of the first migration.
\<close>

definition startable :: "migrations \<Rightarrow> MigrationDb \<Rightarrow> bool" where
  "startable files db \<longleftrightarrow> \<not> md_dirty db \<and>
     (case md_version db of
        Some v \<Rightarrow> at_version files v db
      | None \<Rightarrow> at_version files 0 db \<or> at_version files 1 (db\<lparr>md_version := Some 1\<rparr>))"

lemma run_Up_from:
  assumes "documented files mg" and "distinct (concat files)" and "files \<noteq> []" and "at_version files v db"
  shows "\<exists>db'. run_Up mg False db = (Inr (), db') \<and> at_version files (length files) db' \<and> md_version db' = Some (length files)"
  using Up_from [OF assms(1,2,4)] assms(3) by (auto simp: run_Up_def)

lemma Run_migrates:
  assumes "documented files mg" and "distinct (concat files)" and "files \<noteq> []" and "tbl \<in> set (hd files)"
    and "startable files db" and "\<forall>i. \<not> ft i"
  shows "\<exists>db'. Run mg ft tbl db = (Inr (), db') \<and> md_version db' = Some (length files) \<and> \<not> md_dirty db' \<and>
    set (concat files) \<subseteq> set (md_objects db') \<and> Run mg ft tbl db' = (Inr (), db')"
proof -
  note D = documentedD [OF assms(1)]
  note U = run_Up_from [OF assms(1-3)]
  have hd_files: "set (hd files) \<subseteq> set (concat files)" "concat (take 1 files) = hd files" using assms(3) by (cases files; simp)+
  have first: "\<exists>db'. Run mg ft tbl db = (Inr (), db') \<and> at_version files (length files) db' \<and> md_version db' = Some (length files)"
  proof (cases "md_version db")
    case (Some v)
    with assms(5) have "at_version files v db" "\<not> md_dirty db" by (simp_all add: startable_def)
    with U assms(6) Some show ?thesis by (simp add: Run_def D(1))
  next
    case None
    show ?thesis
    proof (cases "at_version files 0 db")
      case True
      then have "\<not> tableExists tbl db" using assms(4) hd_files by (auto simp: at_version_def tableExists_def)
      with U [OF True] assms(6) None show ?thesis by (simp add: Run_def D(1))
    next
      case False
      with assms(5) None have a: "at_version files 1 (db\<lparr>md_version := Some 1\<rparr>)" "\<not> md_dirty db" by (simp_all add: startable_def)
      then have "set (hd files) \<subseteq> set (md_objects db)" unfolding at_version_def hd_files(2) by simp
      then have "tableExists tbl db" using assms(4) by (auto simp: tableExists_def)
      moreover have "mg_Force mg 1 db = db\<lparr>md_version := Some 1\<rparr>" using a(2) by (simp add: D(2))
      ultimately show ?thesis using U [OF a(1)] assms(6) None by (simp add: Run_def D(1))
    qed
  qed
  then obtain db' where db': "Run mg ft tbl db = (Inr (), db')" "at_version files (length files) db'" "md_version db' = Some (length files)"
    by blast
  moreover have "Run mg ft tbl db' = (Inr (), db')"
    using db'(2,3) D(1,4) [of db'] assms(6) by (simp add: Run_def run_Up_def at_version_def)
  ultimately show ?thesis by (auto simp: at_version_def)
qed

lemma migrations_run_auth:
  assumes "documented auth_migrations mg" and "startable auth_migrations db" and "\<forall>i. \<not> ft i"
  shows "\<exists>db'. Run mg ft ''users'' db = (Inr (), db') \<and> md_version db' = Some 2 \<and> \<not> md_dirty db' \<and>
    set (concat auth_migrations) \<subseteq> set (md_objects db')"
  using Run_migrates [OF assms(1) _ _ _ assms(2,3), of "''users''"] by (auto simp: auth_migrations_def)

text \<open>
  One start migrates the schema. From any database that the service may find (never
  migrated, migrated to an older or the current version, or created before the tool was adopted,
  with the tables of the first migration but no version) and when the database answers, \<open>Run\<close>
  succeeds and leaves the current version, clean, with everything the files create; running it
  again changes nothing.
\<close>
theorem migrations_run:
  assumes "documented files mg" and "distinct (concat files)" and "files \<noteq> []" and "tbl \<in> set (hd files)"
    and "startable files db" and "\<forall>i. \<not> ft i"
  shows "\<exists>db'. Run mg ft tbl db = (Inr (), db') \<and> md_version db' = Some (length files) \<and> \<not> md_dirty db' \<and>
    set (concat files) \<subseteq> set (md_objects db') \<and> Run mg ft tbl db' = (Inr (), db')"
  by (rule Run_migrates [OF assms])

text \<open>golang-migrate, small enough to run.\<close>

fun demo_Up :: "nat \<Rightarrow> migrations \<Rightarrow> MigrationDb \<Rightarrow> (mig_err + unit) \<times> MigrationDb" where
  "demo_Up 0 files db = (Inl ErrNoChange, db)"
| "demo_Up (Suc n) files db =
     (if \<not> next_applies files (version_of db) db then
        (Inl (ErrStatement (Suc (version_of db))), db\<lparr>md_version := Some (Suc (version_of db)), md_dirty := True\<rparr>)
      else case demo_Up n files (apply_next files (version_of db) db) of
             (r, db') \<Rightarrow> (if r = Inl ErrNoChange then Inr () else r, db'))"

definition demo_migrate :: "migrations \<Rightarrow> migrator" where
  "demo_migrate files = \<lparr>mg_Version = (\<lambda>db. map_option (\<lambda>v. (v, md_dirty db)) (md_version db)),
     mg_Force = (\<lambda>v db. db\<lparr>md_version := Some v, md_dirty := False\<rparr>),
     mg_Up = (\<lambda>db. if md_dirty db then (Inl (ErrDirty (version_of db)), db) else demo_Up (length files - version_of db) files db)\<rparr>"

lemma demo_Up_step:
  "v < length files \<Longrightarrow> version_of db = v \<Longrightarrow> demo_Up (length files - v) files db =
    (if \<not> next_applies files v db then (Inl (ErrStatement (Suc v)), db\<lparr>md_version := Some (Suc v), md_dirty := True\<rparr>)
     else case demo_Up (length files - Suc v) files (apply_next files v db) of (r, db') \<Rightarrow> (if r = Inl ErrNoChange then Inr () else r, db'))"
proof -
  assume "v < length files" "version_of db = v"
  then have "length files - v = Suc (length files - Suc v)" by simp
  then show ?thesis using \<open>version_of db = v\<close> by simp
qed

lemma demo_documented: "documented files (demo_migrate files)"
proof -
  have "version_of (apply_next files v db) = Suc v" "md_dirty (apply_next files v db) = md_dirty db" for v db
    by (simp_all add: apply_next_def)
  then show ?thesis unfolding documented_def demo_migrate_def by (simp add: demo_Up_step)
qed

definition legacy_auth :: MigrationDb where
  "legacy_auth = \<lparr>md_version = None, md_dirty = False, md_objects = [''users'', ''refresh_tokens'']\<rparr>"

theorem migrations_run_witness:
  "\<exists>db'. Run (demo_migrate auth_migrations) (\<lambda>_. False) ''users'' legacy_auth = (Inr (), db') \<and> md_version db' = Some 2"
proof -
  have "startable auth_migrations legacy_auth" by (simp add: startable_def at_version_def legacy_auth_def auth_migrations_def)
  from migrations_run [OF demo_documented [of auth_migrations] _ _ _ this, of "''users''" "\<lambda>_. False"]
  show ?thesis by (auto simp: auth_migrations_def)
qed

subsection \<open>Several replicas\<close>

text \<open>
  The steps of \<open>Run\<close> between which other replicas may run, each of them atomic: reading the
  version, the query for the table, and \<open>Force\<close> and \<open>Up\<close>, which hold the advisory lock.
\<close>

datatype mig_pc = At_Version | At_Check | At_Force | At_Up | Finished "mig_err + unit"

definition mig_step :: "migrator \<Rightarrow> string \<Rightarrow> mig_pc \<Rightarrow> MigrationDb \<Rightarrow> mig_pc \<times> MigrationDb" where
  "mig_step mg tbl pc db =
     (case pc of
        At_Version \<Rightarrow> ((case mg_Version mg db of
            None \<Rightarrow> At_Check
          | Some (version, dirty) \<Rightarrow> if dirty then Finished (Inl (ErrDirty version)) else At_Up), db)
      | At_Check \<Rightarrow> (if tableExists tbl db then At_Force else At_Up, db)
      | At_Force \<Rightarrow> (At_Up, mg_Force mg 1 db)
      | At_Up \<Rightarrow> (case run_Up mg False db of (r, db') \<Rightarrow> (Finished r, db'))
      | Finished r \<Rightarrow> (Finished r, db))"

text \<open>A replica that runs alone does what \<open>Run\<close> does.\<close>

lemma Run_steps:
  "Run mg (\<lambda>_. False) tbl db = (r, db') \<longleftrightarrow>
    ((\<lambda>(pc, db). mig_step mg tbl pc db) ^^ 4) (At_Version, db) = (Finished r, db')"
  by (auto simp: Run_def mig_step_def eval_nat_numeral split: option.splits prod.splits)

text \<open>Any number of replicas: those that have not started are at the first step.\<close>

inductive replicas :: "migrator \<Rightarrow> string \<Rightarrow> MigrationDb \<Rightarrow> MigrationDb \<Rightarrow> (nat \<Rightarrow> mig_pc) \<Rightarrow> bool" for mg tbl db0 where
  no_replica: "replicas mg tbl db0 db0 (\<lambda>_. At_Version)"
| replica_step: "replicas mg tbl db0 db pcs \<Longrightarrow> mig_step mg tbl (pcs i) db = (pc, db') \<Longrightarrow> replicas mg tbl db0 db' (pcs(i := pc))"

definition untouched :: "string list \<Rightarrow> MigrationDb \<Rightarrow> bool" where
  "untouched objs db \<longleftrightarrow> md_version db = None \<and> \<not> md_dirty db \<and> set objs \<inter> set (md_objects db) = {}"

definition legacy :: "string list \<Rightarrow> MigrationDb \<Rightarrow> bool" where
  "legacy objs db \<longleftrightarrow> md_version db = None \<and> \<not> md_dirty db \<and> set objs \<subseteq> set (md_objects db)"

definition migrated :: "string list \<Rightarrow> MigrationDb \<Rightarrow> bool" where
  "migrated objs db \<longleftrightarrow> md_version db = Some 1 \<and> \<not> md_dirty db \<and> set objs \<subseteq> set (md_objects db)"

definition replicas_ok :: "string list \<Rightarrow> MigrationDb \<Rightarrow> (nat \<Rightarrow> mig_pc) \<Rightarrow> bool" where
  "replicas_ok objs db pcs \<longleftrightarrow> (untouched objs db \<or> legacy objs db \<or> migrated objs db) \<and>
     (\<forall>i. pcs i = At_Force \<longrightarrow> \<not> untouched objs db) \<and>
     (\<forall>i. pcs i = At_Up \<longrightarrow> \<not> legacy objs db) \<and>
     (\<forall>i r. pcs i = Finished r \<longrightarrow> r = Inr () \<and> migrated objs db)"

lemma single_Up:
  assumes "documented [objs] mg" and "untouched objs db \<or> migrated objs db"
  shows "\<exists>db'. run_Up mg False db = (Inr (), db') \<and> migrated objs db'"
proof -
  note D = documentedD [OF assms(1)]
  from assms(2) show ?thesis
  proof
    assume u: "untouched objs db"
    define db' where "db' = db\<lparr>md_version := Some 1, md_objects := md_objects db @ objs\<rparr>"
    have "apply_next [objs] 0 db = db'" "next_applies [objs] 0 db" "version_of db = 0" "\<not> md_dirty db"
      using u by (auto simp: apply_next_def next_applies_def untouched_def db'_def)
    moreover have "mg_Up mg db' = (Inl ErrNoChange, db')" using D(4) [of db'] u by (simp add: db'_def untouched_def)
    ultimately have "mg_Up mg db = (Inr (), db')" using D(6) [of db] by simp
    moreover have "migrated objs db'" using u by (simp add: db'_def migrated_def untouched_def)
    ultimately show ?thesis by (simp add: run_Up_def)
  next
    assume "migrated objs db"
    with D(4) [of db] show ?thesis by (simp add: run_Up_def migrated_def)
  qed
qed

lemma replicas_ok_step:
  assumes "documented [objs] mg" and "tbl \<in> set objs" and "replicas_ok objs db pcs" and "mig_step mg tbl (pcs i) db = (pc, db')"
  shows "replicas_ok objs db' (pcs(i := pc))"
proof -
  note D = documentedD [OF assms(1)]
  have tbl: "\<not> (untouched objs db \<and> tableExists tbl db)" "untouched objs db \<or> tableExists tbl db"
    using assms(2,3) by (auto simp: replicas_ok_def untouched_def legacy_def migrated_def tableExists_def)
  have legacy_not: "\<not> (legacy objs db \<and> untouched objs db)" using assms(2) by (auto simp: legacy_def untouched_def)
  have migrated_not: "migrated objs db \<Longrightarrow> \<not> untouched objs db \<and> \<not> legacy objs db" by (simp add: migrated_def untouched_def legacy_def)
  show ?thesis
  proof (cases "pcs i")
    case At_Version
    then have "db' = db" "pc = At_Check \<and> (untouched objs db \<or> legacy objs db) \<or> pc = At_Up \<and> migrated objs db"
      using assms(3,4) by (auto simp: mig_step_def D(1) replicas_ok_def untouched_def legacy_def migrated_def split: option.splits)
    then show ?thesis using assms(3) migrated_not by (auto simp: replicas_ok_def)
  next
    case At_Check
    then have "db' = db" "pc = (if tableExists tbl db then At_Force else At_Up)" using assms(4) by (auto simp: mig_step_def)
    then show ?thesis using assms(3) tbl legacy_not by (auto simp: replicas_ok_def)
  next
    case At_Force
    then have "migrated objs db'" "pc = At_Up"
      using assms(3,4) by (auto simp: mig_step_def D(2) replicas_ok_def untouched_def legacy_def migrated_def)
    moreover then have "\<not> untouched objs db' \<and> \<not> legacy objs db'" by (simp add: migrated_def untouched_def legacy_def)
    ultimately show ?thesis using assms(3) by (auto simp: replicas_ok_def)
  next
    case At_Up
    then have "untouched objs db \<or> migrated objs db" using assms(3) by (auto simp: replicas_ok_def)
    from single_Up [OF assms(1) this] At_Up assms(4) have "migrated objs db'" "pc = Finished (Inr ())" by (auto simp: mig_step_def)
    moreover then have "\<not> untouched objs db' \<and> \<not> legacy objs db'" by (simp add: migrated_def untouched_def legacy_def)
    ultimately show ?thesis using assms(3) by (auto simp: replicas_ok_def)
  next
    case (Finished r)
    then have "db' = db" "pc = pcs i" using assms(4) by (auto simp: mig_step_def)
    then show ?thesis using assms(3) by simp
  qed
qed

text \<open>
  The services with one migration (ticket-service and notification-service) may start in any
  number of replicas at once, on an empty database or one from before the tool: in every
  interleaving no start fails, the schema is never dirty, and a start that has finished has the
  tables.
\<close>
theorem replicas_start_safely:
  assumes "files \<in> {ticket_migrations, notification_migrations}" and "documented files mg" and "tbl \<in> set (hd files)"
    and "untouched (hd files) db0 \<or> legacy (hd files) db0" and "replicas mg tbl db0 db pcs"
  shows "\<not> md_dirty db \<and> (\<forall>i r. pcs i = Finished r \<longrightarrow> r = Inr () \<and> md_version db = Some 1 \<and> set (hd files) \<subseteq> set (md_objects db))"
proof -
  have files: "files = [hd files]" using assms(1) by (auto simp: ticket_migrations_def notification_migrations_def)
  then have doc: "documented [hd files] mg" using assms(2) by simp
  have "replicas_ok (hd files) db pcs"
    using assms(5)
  proof (induction rule: replicas.induct)
    case no_replica
    then show ?case using assms(4) by (auto simp: replicas_ok_def)
  next
    case (replica_step db pcs i pc db')
    then show ?case using replicas_ok_step [OF doc assms(3)] by blast
  qed
  then show ?thesis by (auto simp: replicas_ok_def untouched_def legacy_def migrated_def)
qed

definition empty_db :: MigrationDb where
  "empty_db = \<lparr>md_version = None, md_dirty = False, md_objects = []\<rparr>"

theorem replicas_start_safely_witness:
  "\<exists>pcs db. pcs 3 = Finished (Inr ()) \<and> \<not> md_dirty db \<and> md_version db = Some 1 \<and>
     replicas (demo_migrate ticket_migrations) ''tickets'' empty_db db pcs"
proof -
  let ?mg = "demo_migrate ticket_migrations"
  define db where "db = empty_db\<lparr>md_version := Some 1, md_objects := hd ticket_migrations\<rparr>"
  have "replicas ?mg ''tickets'' empty_db empty_db ((\<lambda>_. At_Version)(3 := At_Check))"
    by (rule replica_step [OF no_replica]) (simp add: mig_step_def demo_migrate_def empty_db_def)
  then have "replicas ?mg ''tickets'' empty_db empty_db ((\<lambda>_. At_Version)(3 := At_Check, 3 := At_Up))"
    by (rule replica_step) (simp add: mig_step_def tableExists_def empty_db_def)
  then have r: "replicas ?mg ''tickets'' empty_db db ((\<lambda>_. At_Version)(3 := At_Check, 3 := At_Up, 3 := Finished (Inr ())))"
    by (rule replica_step) (simp add: mig_step_def run_Up_def demo_migrate_def empty_db_def ticket_migrations_def next_applies_def apply_next_def db_def)
  define pcs where "pcs = (\<lambda>_ :: nat. At_Version)(3 := At_Check, 3 := At_Up, 3 := Finished (Inr ()))"
  have "\<not> md_dirty db \<and> (\<forall>i r. pcs i = Finished r \<longrightarrow> r = Inr () \<and> md_version db = Some 1 \<and> set (hd ticket_migrations) \<subseteq> set (md_objects db))"
    unfolding pcs_def by (rule replicas_start_safely [OF _ demo_documented _ _ r])
      (simp_all add: ticket_migrations_def untouched_def empty_db_def)
  moreover have "pcs 3 = Finished (Inr ())" by (simp add: pcs_def)
  ultimately show ?thesis using r unfolding pcs_def by blast
qed

text \<open>
  C32. auth-service has a second migration, and there two replicas that start at once on an empty
  database can break it: one reads that no version is set, the other migrates to version 2, and
  the first, finding the table, marks version 1 and applies the second file again, which fails.
  The schema is then dirty, and no later start succeeds.
\<close>
theorem migration_race:
  assumes "documented auth_migrations mg"
  shows "\<exists>db pcs. replicas mg ''users'' empty_db db pcs \<and> md_dirty db \<and> (\<forall>ft. \<exists>e. Run mg ft ''users'' db = (Inl e, db))"
proof -
  note D = documentedD [OF assms]
  define db1 where "db1 = empty_db\<lparr>md_version := Some 1, md_objects := auth_migrations ! 0\<rparr>"
  define db2 where "db2 = empty_db\<lparr>md_version := Some 2, md_objects := auth_migrations ! 0 @ auth_migrations ! 1\<rparr>"
  define db3 where "db3 = db2\<lparr>md_version := Some 1\<rparr>"
  define db4 where "db4 = db3\<lparr>md_version := Some 2, md_dirty := True\<rparr>"
  note defs = db1_def db2_def db3_def db4_def empty_db_def auth_migrations_def next_applies_def apply_next_def
  have "mg_Up mg db2 = (Inl ErrNoChange, db2)" using D(4) [of db2] by (simp add: defs)
  moreover have "apply_next auth_migrations 1 db1 = db2" "apply_next auth_migrations 0 empty_db = db1" by (simp_all add: defs)
  moreover have "mg_Up mg db1 = (case mg_Up mg (apply_next auth_migrations 1 db1) of (r, db') \<Rightarrow> (if r = Inl ErrNoChange then Inr () else r, db'))"
    using D(6) [of db1] by (simp add: defs)
  moreover have "mg_Up mg empty_db = (case mg_Up mg (apply_next auth_migrations 0 empty_db) of (r, db') \<Rightarrow> (if r = Inl ErrNoChange then Inr () else r, db'))"
    using D(6) [of empty_db] by (simp add: defs)
  ultimately have up0: "mg_Up mg empty_db = (Inr (), db2)" by simp
  have up3: "mg_Up mg db3 = (Inl (ErrStatement 2), db4)" using D(5) [of db3] by (simp add: defs)
  have force: "mg_Force mg (Suc 0) db2 = db3" by (simp add: D(2) defs)
  let ?R = "replicas mg ''users'' empty_db"
  have "?R empty_db ((\<lambda>_. At_Version)(0 := At_Check))"
    by (rule replica_step [OF no_replica]) (simp add: mig_step_def D(1) empty_db_def)
  then have "?R empty_db ((\<lambda>_. At_Version)(0 := At_Check, 1 := At_Check))"
    by (rule replica_step) (simp add: mig_step_def D(1) empty_db_def)
  then have "?R empty_db ((\<lambda>_. At_Version)(0 := At_Check, 1 := At_Check, 1 := At_Up))"
    by (rule replica_step) (simp add: mig_step_def tableExists_def empty_db_def)
  then have "?R db2 ((\<lambda>_. At_Version)(0 := At_Check, 1 := At_Check, 1 := At_Up, 1 := Finished (Inr ())))"
    by (rule replica_step) (simp add: mig_step_def run_Up_def up0)
  then have "?R db2 ((\<lambda>_. At_Version)(0 := At_Check, 1 := At_Check, 1 := At_Up, 1 := Finished (Inr ()), 0 := At_Force))"
    by (rule replica_step) (simp add: mig_step_def tableExists_def defs)
  then have "?R db3 ((\<lambda>_. At_Version)(0 := At_Check, 1 := At_Check, 1 := At_Up, 1 := Finished (Inr ()), 0 := At_Force, 0 := At_Up))"
    by (rule replica_step) (simp add: mig_step_def force)
  then have "?R db4 ((\<lambda>_. At_Version)(0 := At_Check, 1 := At_Check, 1 := At_Up, 1 := Finished (Inr ()), 0 := At_Force, 0 := At_Up,
      0 := Finished (Inl (ErrStatement 2))))"
    by (rule replica_step) (simp add: mig_step_def run_Up_def up3)
  moreover have "md_dirty db4" "mg_Version mg db4 = Some (2, True)" by (simp_all add: D(1) defs)
  moreover then have "\<exists>e. Run mg ft ''users'' db4 = (Inl e, db4)" for ft by (simp add: Run_def)
  ultimately show ?thesis by blast
qed

theorem migration_race_witness:
  "\<exists>db pcs. replicas (demo_migrate auth_migrations) ''users'' empty_db db pcs \<and> md_dirty db"
  using migration_race [OF demo_documented] by blast

end
