(* ===== verification/Startup.thy ===== *)
theory Startup
  imports Config Migrations AuthService TicketService Notifications QueueTopology
begin

section \<open>Starting the services (cmd/main.go, internal/repository/postgres.go and pool.go)\<close>

text \<open>
  What \<open>main\<close> does before it serves: configuration, the database with its pool, migrations, the
  first admin, and the checks that end the process (\<open>Fatal\<close>, here the text it logs). The
  environment of a start says which calls fail, \<open>ListenAndServe\<close> on the configured address among
  them, which ends the process too. Signals and the graceful shutdown are in \<open>Shutdown\<close>.
\<close>

subsection \<open>The connection pool\<close>

text \<open>
  The settings of \<open>database/sql\<close>: no more idle connections than open ones; an idle count of zero
  stands for the default of two, a negative one for none.
\<close>

record Pool =
  po_maxOpen :: int
  po_maxIdleCount :: int
  po_maxLifetime :: duration

definition maxIdleConns :: "Pool \<Rightarrow> int" where
  "maxIdleConns p = (if po_maxIdleCount p = 0 then 2 else if po_maxIdleCount p < 0 then 0 else po_maxIdleCount p)"

definition SetMaxIdleConns :: "int \<Rightarrow> Pool \<Rightarrow> Pool" where
  "SetMaxIdleConns n p =
     (let p' = p\<lparr>po_maxIdleCount := if n > 0 then n else - 1\<rparr> in
      if po_maxOpen p' > 0 \<and> maxIdleConns p' > po_maxOpen p' then p'\<lparr>po_maxIdleCount := po_maxOpen p'\<rparr> else p')"

definition SetMaxOpenConns :: "int \<Rightarrow> Pool \<Rightarrow> Pool" where
  "SetMaxOpenConns n p =
     (let p' = p\<lparr>po_maxOpen := if n < 0 then 0 else n\<rparr> in
      if po_maxOpen p' > 0 \<and> maxIdleConns p' > po_maxOpen p' then SetMaxIdleConns n p' else p')"

definition SetConnMaxLifetime :: "duration \<Rightarrow> Pool \<Rightarrow> Pool" where
  "SetConnMaxLifetime d p = p\<lparr>po_maxLifetime := if d < 0 then 0 else d\<rparr>"

definition new_pool :: Pool where
  "new_pool = \<lparr>po_maxOpen = 0, po_maxIdleCount = 0, po_maxLifetime = 0\<rparr>"

definition applyPool :: "int \<Rightarrow> int \<Rightarrow> duration \<Rightarrow> Pool \<Rightarrow> Pool" where
  "applyPool maxOpen maxIdle maxLifetime p = SetConnMaxLifetime maxLifetime (SetMaxIdleConns maxIdle (SetMaxOpenConns maxOpen p))"

lemma applyPool_bounded:
  assumes "0 < maxOpen" and "0 < maxIdle" and "0 < maxLifetime"
  shows "applyPool maxOpen maxIdle maxLifetime p =
    \<lparr>po_maxOpen = maxOpen, po_maxIdleCount = min maxIdle maxOpen, po_maxLifetime = maxLifetime\<rparr>"
  using assms by (simp add: applyPool_def SetConnMaxLifetime_def SetMaxIdleConns_def SetMaxOpenConns_def maxIdleConns_def Let_def)

subsection \<open>NewPostgresDB\<close>

text \<open>
  \<open>opens i\<close>: the i-th attempt reaches the database. Every failed attempt is followed by two
  seconds of sleep, the last one too. \<open>no_instance\<close> is an error of \<open>db.DB()\<close>.
\<close>

datatype db_result = Db_connected Pool | Db_instance_error | Db_open_error

fun open_attempts :: "(nat \<Rightarrow> bool) \<Rightarrow> bool \<Rightarrow> Pool \<Rightarrow> nat \<Rightarrow> nat \<Rightarrow> duration \<Rightarrow> db_result \<times> duration" where
  "open_attempts opens no_instance p i 0 slept = (Db_open_error, slept)"
| "open_attempts opens no_instance p i (Suc n) slept =
     (if opens i then (if no_instance then Db_instance_error else Db_connected p, slept)
      else open_attempts opens no_instance p (Suc i) n (slept + 2 * second))"

definition NewPostgresDB :: "(nat \<Rightarrow> bool) \<Rightarrow> bool \<Rightarrow> int \<Rightarrow> int \<Rightarrow> duration \<Rightarrow> db_result \<times> duration" where
  "NewPostgresDB opens no_instance maxOpen maxIdle maxLifetime =
     open_attempts opens no_instance (applyPool maxOpen maxIdle maxLifetime new_pool) 0 10 0"

lemma open_attempts_result:
  "open_attempts opens no_instance p i n slept =
    (case List.find opens [i..<i + n] of
       None \<Rightarrow> (Db_open_error, slept + 2 * second * int n)
     | Some j \<Rightarrow> (if no_instance then Db_instance_error else Db_connected p, slept + 2 * second * int (j - i)))"
proof (induction n arbitrary: i slept)
  case (Suc n)
  have "j - i = Suc (j - Suc i)" if "List.find opens [Suc i..<Suc i + n] = Some j" for j
    using find_SomeD [OF that] by auto
  moreover have "[i..<i + Suc n] = i # [Suc i..<Suc i + n]" by (simp add: upt_rec)
  ultimately show ?case by (auto simp: Suc.IH algebra_simps split: option.split)
qed simp

subsection \<open>The environment of a start\<close>

record StartEnv =
  se_vars :: environment
  se_opens :: "nat \<Rightarrow> bool"
  se_no_instance :: bool       \<comment> \<open>\<open>db.DB()\<close> fails in \<open>NewPostgresDB\<close>\<close>
  se_no_sqlDB :: bool          \<comment> \<open>\<open>db.DB()\<close> fails in \<open>main\<close>\<close>
  se_migrate_ft :: "nat \<Rightarrow> bool"
  se_bootstrap_ft :: "nat \<Rightarrow> faults"
  se_redis_url :: "string \<Rightarrow> bool"  \<comment> \<open>\<open>redis.ParseURL\<close> accepts it\<close>
  se_salt :: nat
  se_listens :: "string \<Rightarrow> bool"  \<comment> \<open>\<open>ListenAndServe\<close> can bind the address\<close>

text \<open>The part the three services with a database share: connect, then migrate.\<close>

definition open_database ::
  "migrator \<Rightarrow> string \<Rightarrow> StartEnv \<Rightarrow> int \<Rightarrow> int \<Rightarrow> duration \<Rightarrow> MigrationDb \<Rightarrow> (string + Pool) \<times> MigrationDb" where
  "open_database mg tbl env maxOpen maxIdle maxLifetime md =
     (case fst (NewPostgresDB (se_opens env) (se_no_instance env) maxOpen maxIdle maxLifetime) of
        Db_open_error \<Rightarrow> (Inl ''failed to connect database'', md)
      | Db_instance_error \<Rightarrow> (Inl ''failed to connect database'', md)
      | Db_connected pool \<Rightarrow>
          if se_no_sqlDB env then (Inl ''failed to get database instance'', md)
          else case Run mg (se_migrate_ft env) tbl md of
                 (Inl _, md') \<Rightarrow> (Inl ''failed to run migrations'', md')
               | (Inr _, md') \<Rightarrow> (Inr pool, md'))"

text \<open>
  A configured limiter: the arguments of \<open>NewLimiter\<close>, which ends the process on a URL that does
  not parse.
\<close>

record LimiterArgs =
  la_redisURL :: string
  la_prefix :: string
  la_rps :: f64_value
  la_burst :: f64_value

definition limiter_args :: "(string \<Rightarrow> bool) \<Rightarrow> string \<Rightarrow> string \<Rightarrow> f64_value \<Rightarrow> f64_value \<Rightarrow> string + LimiterArgs" where
  "limiter_args url_ok redisURL prefix rps burst =
     (if redisURL \<noteq> [] \<and> \<not> url_ok redisURL then Inl ''invalid REDIS_URL''
      else Inr \<lparr>la_redisURL = redisURL, la_prefix = prefix, la_rps = rps, la_burst = burst\<rparr>)"

text \<open>\<open>ListenAndServe\<close> on all interfaces, or the end of the process.\<close>

definition listen_on :: "(string \<Rightarrow> bool) \<Rightarrow> string \<Rightarrow> 'r \<Rightarrow> string + 'r" where
  "listen_on listens port running = (if listens (CHR '':'' # port) then Inr running else Inl ''listen'')"

subsection \<open>auth-service\<close>

record AuthRunning =
  ar_port :: string
  ar_pool :: Pool
  ar_jwtSecret :: string
  ar_maxSessions :: int
  ar_internalSecret :: string
  ar_swagger :: bool
  ar_limiter :: LimiterArgs

definition auth_main ::
  "migrator \<Rightarrow> Bcrypt \<Rightarrow> StartEnv \<Rightarrow> MigrationDb \<times> users \<Rightarrow> (string + AuthRunning) \<times> MigrationDb \<times> users" where
  "auth_main mg bc env db =
     (case AuthServiceConfig_Load (se_vars env) of
        Inl e \<Rightarrow> (Inl e, db)
      | Inr cfg \<Rightarrow>
          (case open_database mg ''users'' env (acf_DBMaxOpenConns cfg) (acf_DBMaxIdleConns cfg) (acf_DBConnMaxLifetime cfg) (fst db) of
             (Inl e, md) \<Rightarrow> (Inl e, md, snd db)
           | (Inr pool, md) \<Rightarrow>
               (let us = snd (bootstrapAdmin bc userRepository (se_salt env) (se_bootstrap_ft env)
                      (acf_BootstrapAdminEmail cfg) (acf_BootstrapAdminPassword cfg) (snd db))
                in case limiter_args (se_redis_url env) (acf_RedisURL cfg) ''rl:auth:'' (acf_AuthRateLimitRPS cfg) (acf_AuthRateLimitBurst cfg) of
                     Inl e \<Rightarrow> (Inl e, md, us)
                   | Inr la \<Rightarrow>
                       (listen_on (se_listens env) (acf_AppPort cfg)
                          \<lparr>ar_port = acf_AppPort cfg, ar_pool = pool, ar_jwtSecret = acf_JWTSecret cfg,
                           ar_maxSessions = acf_MaxSessionsPerUser cfg, ar_internalSecret = acf_InternalSecret cfg,
                           ar_swagger = acf_EnableSwagger cfg, ar_limiter = la\<rparr>, md, us))))"

subsection \<open>ticket-service and notification-service\<close>

record TicketRunning =
  tr_port :: string
  tr_pool :: Pool
  tr_queueType :: string
  tr_internalSecret :: string
  tr_swagger :: bool
  tr_limiter :: LimiterArgs

definition ticket_main :: "migrator \<Rightarrow> StartEnv \<Rightarrow> MigrationDb \<Rightarrow> (string + TicketRunning) \<times> MigrationDb" where
  "ticket_main mg env db =
     (case TicketServiceConfig_Load (se_vars env) of
        Inl e \<Rightarrow> (Inl e, db)
      | Inr cfg \<Rightarrow>
          (case open_database mg ''tickets'' env (tcf_DBMaxOpenConns cfg) (tcf_DBMaxIdleConns cfg) (tcf_DBConnMaxLifetime cfg) db of
             (Inl e, md) \<Rightarrow> (Inl e, md)
           | (Inr pool, md) \<Rightarrow>
               if \<not> ValidateQueueType (tcf_RabbitQueueType cfg) then (Inl ''invalid queue type'', md)
               else (case limiter_args (se_redis_url env) (tcf_RedisURL cfg) ''rl:ticket:'' (tcf_TicketRateLimitRPS cfg) (tcf_TicketRateLimitBurst cfg) of
                       Inl e \<Rightarrow> (Inl e, md)
                     | Inr la \<Rightarrow>
                         (listen_on (se_listens env) (tcf_AppPort cfg)
                            \<lparr>tr_port = tcf_AppPort cfg, tr_pool = pool, tr_queueType = tcf_RabbitQueueType cfg,
                             tr_internalSecret = tcf_InternalSecret cfg, tr_swagger = tcf_EnableSwagger cfg, tr_limiter = la\<rparr>, md))))"

record NotificationRunning =
  nr_port :: string
  nr_pool :: Pool
  nr_queueType :: string
  nr_jwtSecret :: string
  nr_allowedOrigins :: "string list"
  nr_maxConnections :: int
  nr_proxies :: proxies
  nr_limiter :: LimiterArgs

definition notification_main :: "migrator \<Rightarrow> StartEnv \<Rightarrow> MigrationDb \<Rightarrow> (string + NotificationRunning) \<times> MigrationDb" where
  "notification_main mg env db =
     (case NotificationServiceConfig_Load (se_vars env) of
        Inl e \<Rightarrow> (Inl e, db)
      | Inr cfg \<Rightarrow>
          (case open_database mg ''notifications'' env (ncf_DBMaxOpenConns cfg) (ncf_DBMaxIdleConns cfg) (ncf_DBConnMaxLifetime cfg) db of
             (Inl e, md) \<Rightarrow> (Inl e, md)
           | (Inr pool, md) \<Rightarrow>
               (case SetTrustedProxies (ncf_TrustedProxies cfg) of
                  Inl c \<Rightarrow> (Inl ''invalid trusted proxy'', md)
                | Inr ps \<Rightarrow>
                    if \<not> ValidateQueueType (ncf_RabbitQueueType cfg) then (Inl ''invalid queue type'', md)
                    else (case limiter_args (se_redis_url env) (ncf_RedisURL cfg) ''rl:ws:'' (ncf_WSRateLimitRPS cfg) (ncf_WSRateLimitBurst cfg) of
                            Inl e \<Rightarrow> (Inl e, md)
                          | Inr la \<Rightarrow>
                              (listen_on (se_listens env) (ncf_AppPort cfg)
                                 \<lparr>nr_port = ncf_AppPort cfg, nr_pool = pool, nr_queueType = ncf_RabbitQueueType cfg,
                                  nr_jwtSecret = ncf_JWTSecret cfg, nr_allowedOrigins = ncf_AllowedOrigins cfg,
                                  nr_maxConnections = ncf_MaxWSConnections cfg, nr_proxies = ps, nr_limiter = la\<rparr>, md)))))"

subsection \<open>api-gateway\<close>

text \<open>\<open>url_host\<close> is \<open>url.Parse\<close> as far as the host: \<open>None\<close> is its error.\<close>

record GatewayRunning =
  gr_port :: string
  gr_jwtSecret :: string
  gr_internalSecret :: string
  gr_allowedOrigins :: "string list"
  gr_limiter :: LimiterArgs

definition gateway_main ::
  "(string \<Rightarrow> string option) \<Rightarrow> (string \<Rightarrow> bool) \<Rightarrow> (string \<Rightarrow> bool) \<Rightarrow> environment \<Rightarrow> string + GatewayRunning" where
  "gateway_main url_host redis_url listens vars =
     (case GatewayServiceConfig_Load vars of
        Inl e \<Rightarrow> Inl e
      | Inr cfg \<Rightarrow>
          if url_host (gcf_AuthServiceURL cfg) = None \<or> url_host (gcf_AuthServiceURL cfg) = Some []
          then Inl ''invalid AUTH_SERVICE_URL''
          else if url_host (gcf_TicketServiceURL cfg) = None \<or> url_host (gcf_TicketServiceURL cfg) = Some []
          then Inl ''invalid TICKET_SERVICE_URL''
          else (case limiter_args redis_url (gcf_RedisURL cfg) ''rl:gateway:'' (gcf_RateLimitRPS cfg) (gcf_RateLimitBurst cfg) of
                  Inl e \<Rightarrow> Inl e
                | Inr la \<Rightarrow>
                    listen_on listens (gcf_AppPort cfg)
                      \<lparr>gr_port = gcf_AppPort cfg, gr_jwtSecret = gcf_JWTSecret cfg, gr_internalSecret = gcf_InternalSecret cfg,
                       gr_allowedOrigins = gcf_AllowedOrigins cfg, gr_limiter = la\<rparr>))"

subsection \<open>The self check of the container\<close>

text \<open>\<open>runSelfHealthcheck\<close>: the exit code, from the status of \<open>GET /health\<close> on the local port (\<open>None\<close>: no answer).\<close>

definition runSelfHealthcheck :: "environment \<Rightarrow> string \<Rightarrow> (string \<Rightarrow> nat option) \<Rightarrow> nat" where
  "runSelfHealthcheck vars default_port get =
     (let port = (if vars ''APP_PORT'' = [] then default_port else vars ''APP_PORT'') in
      case get (''http://127.0.0.1:'' @ port @ ''/health'') of
        None \<Rightarrow> 1
      | Some StatusCode \<Rightarrow> if StatusCode \<noteq> 200 then 1 else 0)"

text \<open>It asks the service itself: the container is healthy exactly when the dependencies answer.\<close>

definition health_request :: request where
  "health_request = \<lparr>rq_method = ''GET'', rq_path = ''/health'', rq_headers = (\<lambda>_. []), rq_query = (\<lambda>_. []),
     rq_ip = ''127.0.0.1'', rq_body = None\<rparr>"

lemma ticket_self_check:
  "runSelfHealthcheck vars ''8082'' (\<lambda>_. Some (status (fst (ticket_handle cfg rd env health_request srv)))) = (if te_db_up env then 0 else 1)"
  by (simp add: runSelfHealthcheck_def ticket_handle_def ticket_health_def health_request_def)

lemma notification_self_check:
  "runSelfHealthcheck vars ''8083'' (\<lambda>_. Some (status (fst (notif_handle cfg env health_request t)))) =
    (if ne_connected env \<and> ne_db_up env then 0 else 1)"
  by (simp add: runSelfHealthcheck_def notif_handle_def health_request_def clean_path_def)

subsection \<open>A start that succeeds\<close>

lemma NewPostgresDB_connects:
  assumes "i < 10" and "opens i" and "0 < maxOpen" and "0 < maxIdle" and "0 < maxLifetime"
  shows "\<exists>slept. NewPostgresDB opens False maxOpen maxIdle maxLifetime =
      (Db_connected \<lparr>po_maxOpen = maxOpen, po_maxIdleCount = min maxIdle maxOpen, po_maxLifetime = maxLifetime\<rparr>, slept) \<and>
    slept \<le> 18 * second"
proof -
  have "i \<in> set [0..<10]" using assms(1) by (simp only: set_upt) simp
  then obtain j where j: "List.find opens [0..<10] = Some j" using assms(2) by (meson find_None_iff not_None_eq)
  have "j \<in> set [0..<10]" using find_SomeD [OF j] by blast
  then have "j < 10" by (simp only: set_upt) simp
  then have "int j \<le> 9" by linarith
  then show ?thesis unfolding NewPostgresDB_def open_attempts_result by (simp add: j applyPool_bounded [OF assms(3-5)])
qed

lemma bootstrap_creates_admin:
  assumes "email \<noteq> []" and "password \<noteq> []" and "bc_Hash bc salt password \<noteq> None" and "\<forall>k i. \<not> ft k i"
    and "\<forall>r\<in>set (rows db). us_Email r \<noteq> email"
  shows "\<exists>u\<in>set (rows (snd (bootstrapAdmin bc userRepository salt ft email password db))). us_Role u = ''admin''"
proof (cases "\<exists>r\<in>set (rows db). us_Role r = ''admin''")
  case True
  then have "filter (\<lambda>r. us_Role r = ''admin'') (rows db) \<noteq> []" by (auto simp: filter_empty_conv)
  then have "sort_key us_ID (filter (\<lambda>r. us_Role r = ''admin'') (rows db)) \<noteq> []" by (simp only: sort_key_Nil) simp
  then show ?thesis using True assms(1,2,4) by (simp add: bootstrapAdmin_def userRepository_def Users_FindByRole_def)
next
  case False
  then have "filter (\<lambda>r. us_Role r = ''admin'') (rows db) = []" by (auto simp: filter_empty_conv)
  then show ?thesis using assms
    by (auto simp: bootstrapAdmin_def userRepository_def Users_FindByRole_def Users_Create_def exec_stmt_def)
qed

lemma bootstrap_keeps: "set (rows db) \<subseteq> set (rows (snd (bootstrapAdmin bc userRepository salt ft email password db)))"
  by (auto simp: bootstrapAdmin_def userRepository_def Users_FindByRole_def Users_Create_def exec_stmt_def insert_row_def Let_def
      split: option.splits sum.splits if_splits)

definition demo_start :: StartEnv where
  "demo_start = \<lparr>se_vars = (\<lambda>k. if k \<in> {''REDIS_URL'', ''DB_MAX_OPEN_CONNS'', ''DB_MAX_IDLE_CONNS'', ''DB_CONN_MAX_LIFETIME'',
       ''MAX_SESSIONS_PER_USER'', ''AUTH_RATE_LIMIT_RPS'', ''AUTH_RATE_LIMIT_BURST''} then []
       else if k = ''APP_PORT'' then ''8081'' else ''x''),
     se_opens = (\<lambda>i. i = 2), se_no_instance = False, se_no_sqlDB = False, se_migrate_ft = (\<lambda>_. False),
     se_bootstrap_ft = (\<lambda>_ _. False), se_redis_url = (\<lambda>_. False), se_salt = 0, se_listens = (\<lambda>addr. addr = '':8081'')\<rparr>"

text \<open>
  C33. auth-service comes up. With its required variables set, a database that answers within the
  ten attempts and whose schema is one the migrations know, a Redis URL that parses or none, and an
  address it can listen on, it starts, whatever the other variables hold: the schema is current,
  the pool is bounded with at most as many idle connections as open ones, the session limit, the
  rate and the burst are positive (or not a number or infinite, which the configuration lets
  through), and no account is lost. It has an admin then whenever both bootstrap variables are set,
  the password can be hashed, the database serves the bootstrap and the address is free; otherwise
  it starts with the accounts it had. When it cannot listen, it does not start.
\<close>
theorem auth_starts:
  assumes "documented auth_migrations mg" and "startable auth_migrations md"
    and "\<forall>k\<in>{''APP_PORT'', ''JWT_SECRET'', ''DB_HOST'', ''INTERNAL_SHARED_SECRET''}. se_vars env k \<noteq> []"
    and "i < 10" and "se_opens env i" and "\<not> se_no_instance env" and "\<not> se_no_sqlDB env" and "\<forall>k. \<not> se_migrate_ft env k"
    and "se_vars env ''REDIS_URL'' = [] \<or> se_redis_url env (se_vars env ''REDIS_URL'')"
  shows "\<exists>run md' us'.
    auth_main mg bc env (md, us) = (if se_listens env ('':'' @ se_vars env ''APP_PORT'') then Inr run else Inl ''listen'', md', us') \<and>
    md_version md' = Some 2 \<and> \<not> md_dirty md' \<and> set (concat auth_migrations) \<subseteq> set (md_objects md') \<and>
    ar_port run = se_vars env ''APP_PORT'' \<and>
    0 < po_maxOpen (ar_pool run) \<and> po_maxIdleCount (ar_pool run) \<le> po_maxOpen (ar_pool run) \<and> 0 < ar_maxSessions run \<and>
    rate_value (la_rps (ar_limiter run)) \<and> rate_value (la_burst (ar_limiter run)) \<and>
    ar_jwtSecret run = se_vars env ''JWT_SECRET'' \<and> ar_internalSecret run = se_vars env ''INTERNAL_SHARED_SECRET'' \<and>
    set (rows us) \<subseteq> set (rows us') \<and>
    (se_vars env ''BOOTSTRAP_ADMIN_EMAIL'' \<noteq> [] \<and> se_vars env ''BOOTSTRAP_ADMIN_PASSWORD'' \<noteq> [] \<and>
     bc_Hash bc (se_salt env) (se_vars env ''BOOTSTRAP_ADMIN_PASSWORD'') \<noteq> None \<and> (\<forall>k j. \<not> se_bootstrap_ft env k j) \<and>
     (\<forall>r\<in>set (rows us). us_Email r \<noteq> se_vars env ''BOOTSTRAP_ADMIN_EMAIL'') \<longrightarrow> (\<exists>u\<in>set (rows us'). us_Role u = ''admin''))"
proof -
  let ?v = "se_vars env"
  define mo where "mo = parseIntOrDefault (?v ''DB_MAX_OPEN_CONNS'') defaultDBMaxOpenConns"
  define mi where "mi = parseIntOrDefault (?v ''DB_MAX_IDLE_CONNS'') defaultDBMaxIdleConns"
  define lt where "lt = parseDurationOrDefault (?v ''DB_CONN_MAX_LIFETIME'') defaultDBConnMaxLifetime"
  define la where "la = \<lparr>la_redisURL = ?v ''REDIS_URL'', la_prefix = ''rl:auth:'', la_rps = parseFloatOrDefault (?v ''AUTH_RATE_LIMIT_RPS'') (Finite 5),
    la_burst = parseFloatOrDefault (?v ''AUTH_RATE_LIMIT_BURST'') (Finite 10)\<rparr>"
  define us' where "us' = snd (bootstrapAdmin bc userRepository (se_salt env) (se_bootstrap_ft env)
    (?v ''BOOTSTRAP_ADMIN_EMAIL'') (?v ''BOOTSTRAP_ADMIN_PASSWORD'') us)"
  define run where "run = \<lparr>ar_port = ?v ''APP_PORT'', ar_pool = \<lparr>po_maxOpen = mo, po_maxIdleCount = min mi mo, po_maxLifetime = lt\<rparr>,
    ar_jwtSecret = ?v ''JWT_SECRET'', ar_maxSessions = parseIntOrDefault (?v ''MAX_SESSIONS_PER_USER'') 5,
    ar_internalSecret = ?v ''INTERNAL_SHARED_SECRET'', ar_swagger = (?v ''ENABLE_SWAGGER'' = ''true''), ar_limiter = la\<rparr>"
  have pos: "0 < mo" "0 < mi" "0 < lt"
    using default_pool [of "?v ''DB_MAX_OPEN_CONNS''" "?v ''DB_MAX_IDLE_CONNS''" "?v ''DB_CONN_MAX_LIFETIME''"]
    by (simp_all add: mo_def mi_def lt_def pool_ok_def)
  obtain slept where dials: "NewPostgresDB (se_opens env) False mo mi lt =
      (Db_connected \<lparr>po_maxOpen = mo, po_maxIdleCount = min mi mo, po_maxLifetime = lt\<rparr>, slept)"
    using NewPostgresDB_connects [of i "se_opens env", OF assms(4,5) pos] by blast
  obtain md' where md': "Run mg (se_migrate_ft env) ''users'' md = (Inr (), md')" "md_version md' = Some 2" "\<not> md_dirty md'"
      "set (concat auth_migrations) \<subseteq> set (md_objects md')"
    using migrations_run_auth [OF assms(1,2,8)] by blast
  have main: "auth_main mg bc env (md, us) = (if se_listens env ('':'' @ ?v ''APP_PORT'') then Inr run else Inl ''listen'', md', us')"
    using assms(3,6,7,9) dials md'(1)
    by (auto simp: auth_main_def AuthServiceConfig_Load_def open_database_def limiter_args_def listen_on_def Let_def
        run_def la_def us'_def mo_def mi_def lt_def)
  have "0 < parseIntOrDefault (?v ''MAX_SESSIONS_PER_USER'') 5"
    using parseIntOrDefault_range [of 5 "?v ''MAX_SESSIONS_PER_USER''"] by simp
  then have "0 < po_maxOpen (ar_pool run)" "po_maxIdleCount (ar_pool run) \<le> po_maxOpen (ar_pool run)" "0 < ar_maxSessions run"
    using pos by (simp_all add: run_def)
  moreover have "rate_value (la_rps (ar_limiter run))" "rate_value (la_burst (ar_limiter run))"
    by (simp_all add: run_def la_def parseFloatOrDefault_finite)
  moreover have "set (rows us) \<subseteq> set (rows us')" unfolding us'_def by (rule bootstrap_keeps)
  moreover have "\<exists>u\<in>set (rows us'). us_Role u = ''admin''"
    if "?v ''BOOTSTRAP_ADMIN_EMAIL'' \<noteq> []" "?v ''BOOTSTRAP_ADMIN_PASSWORD'' \<noteq> []"
      "bc_Hash bc (se_salt env) (?v ''BOOTSTRAP_ADMIN_PASSWORD'') \<noteq> None" "\<forall>k j. \<not> se_bootstrap_ft env k j"
      "\<forall>r\<in>set (rows us). us_Email r \<noteq> ?v ''BOOTSTRAP_ADMIN_EMAIL''"
    unfolding us'_def using that by (rule bootstrap_creates_admin)
  ultimately show ?thesis
    by (intro exI [of _ run] exI [of _ md'] exI [of _ us'] conjI impI main md'(2-4)) (simp_all add: run_def)
qed

theorem auth_starts_witness:
  "\<exists>run md' us'. auth_main (demo_migrate auth_migrations) demo_bcrypt demo_start (empty_db, \<lparr>rows = [], seq = 1\<rparr>) = (Inr run, md', us') \<and>
     ar_port run = ''8081'' \<and> rate_value (la_rps (ar_limiter run)) \<and>
     md_version md' = Some 2 \<and> (\<exists>u\<in>set (rows us'). us_Role u = ''admin'')"
proof -
  have "startable auth_migrations empty_db" by (simp add: startable_def at_version_def empty_db_def)
  from auth_starts [OF demo_documented this, of demo_start 2 demo_bcrypt "\<lparr>rows = [], seq = 1\<rparr>"]
  show ?thesis by (auto simp: demo_start_def demo_bcrypt_def)
qed

end
