(* ===== verification/Metrics.thy ===== *)
theory Metrics
  imports GoStd
begin

section \<open>Request metrics (pkg/metrics)\<close>

text \<open>
  Counters per method, route and status, and the durations per method and route. The gin services
  label a request with the template of its route (\<open>c.FullPath()\<close>, empty when none matched);
  notification-service wraps a handler under the name its caller gives, with a recorder that
  remembers the status the handler writes. Prometheus keeps one series per combination of labels
  that ever occurred.
\<close>

record Metrics =
  mx_requestsTotal :: "string \<times> string \<times> string \<Rightarrow> nat"
  mx_requestDuration :: "string \<times> string \<Rightarrow> duration list"

definition no_metrics :: Metrics where
  "no_metrics = \<lparr>mx_requestsTotal = (\<lambda>_. 0), mx_requestDuration = (\<lambda>_. [])\<rparr>"

definition count_request :: "string \<Rightarrow> string \<Rightarrow> nat \<Rightarrow> duration \<Rightarrow> Metrics \<Rightarrow> Metrics" where
  "count_request meth route code elapsed m =
     m\<lparr>mx_requestsTotal := (mx_requestsTotal m)((meth, route, show_nat code) := mx_requestsTotal m (meth, route, show_nat code) + 1),
       mx_requestDuration := (mx_requestDuration m)((meth, route) := mx_requestDuration m (meth, route) @ [elapsed])\<rparr>"

text \<open>\<open>GinMiddleware\<close>, after the handlers ran with a status and a duration.\<close>

definition GinMiddleware :: "string \<Rightarrow> string \<Rightarrow> nat \<Rightarrow> duration \<Rightarrow> Metrics \<Rightarrow> Metrics" where
  "GinMiddleware meth fullPath code elapsed m =
     (let route = (if fullPath = [] then ''unmatched'' else fullPath) in count_request meth route code elapsed m)"

text \<open>\<open>statusRecorder\<close>: 200 unless the handler calls \<open>WriteHeader\<close>; the last call wins.\<close>

definition recorded_status :: "nat list \<Rightarrow> nat" where
  "recorded_status written = foldl (\<lambda>_ status. status) 200 written"

definition Wrap :: "string \<Rightarrow> string \<Rightarrow> nat list \<Rightarrow> duration \<Rightarrow> Metrics \<Rightarrow> Metrics" where
  "Wrap route meth written elapsed m = count_request meth route (recorded_status written) elapsed m"

subsection \<open>What is counted\<close>

text \<open>A request that was answered: method, matched template, status and duration.\<close>

type_synonym answered = "string \<times> string \<times> nat \<times> duration"

fun serve_all :: "answered list \<Rightarrow> Metrics \<Rightarrow> Metrics" where
  "serve_all [] m = m"
| "serve_all ((meth, fullPath, code, elapsed) # rs) m = serve_all rs (GinMiddleware meth fullPath code elapsed m)"

definition label :: "answered \<Rightarrow> string \<times> string \<times> string" where
  "label r = (case r of (meth, fullPath, code, _) \<Rightarrow> (meth, if fullPath = [] then ''unmatched'' else fullPath, show_nat code))"

definition series :: "Metrics \<Rightarrow> (string \<times> string \<times> string) set" where
  "series m = {l. mx_requestsTotal m l > 0}"

lemma serve_all_total:
  "mx_requestsTotal (serve_all rs m) l = mx_requestsTotal m l + length (filter (\<lambda>r. label r = l) rs)"
proof (induction rs arbitrary: m)
  case (Cons r rs)
  then show ?case by (cases r) (auto simp: GinMiddleware_def count_request_def label_def Let_def)
qed simp

lemma series_labels: "series (serve_all rs no_metrics) = label ` set rs"
proof -
  have "length (filter (\<lambda>r. label r = l) rs) > 0 \<longleftrightarrow> l \<in> label ` set rs" for l
    by (simp only: length_greater_0_conv filter_empty_conv) blast
  then show ?thesis by (simp add: series_def serve_all_total no_metrics_def)
qed

text \<open>
  Metrics count every request exactly once, and the path of a request cannot create series: the
  labels are the method, a registered template or the word unmatched, and the status. The method
  can: gin runs the middleware for requests that match no route too, and their method is the
  client's text, so a client makes as many series as it likes, one per method it invents.
\<close>
theorem metrics_series:
  "mx_requestsTotal (serve_all rs no_metrics) l = length (filter (\<lambda>r. label r = l) rs) \<and>
   card (series (serve_all rs no_metrics)) \<le>
     card (fst ` set rs) * (card ((\<lambda>(_, fullPath, _). fullPath) ` set rs) * card ((\<lambda>(_, _, code, _). code) ` set rs)) \<and>
   card (series (serve_all (map (\<lambda>i. (show_nat i, [], 404, 0)) [0..<n]) no_metrics)) = n"
proof (intro conjI)
  show "mx_requestsTotal (serve_all rs no_metrics) l = length (filter (\<lambda>r. label r = l) rs)"
    by (simp add: serve_all_total no_metrics_def)
  let ?M = "fst ` set rs" and ?P = "(\<lambda>(_, fullPath, _). fullPath) ` set rs" and ?C = "(\<lambda>(_, _, code, _). code) ` set rs"
  let ?f = "\<lambda>(m, p, c). (m :: string, if p = [] then ''unmatched'' else p, show_nat c)"
  have "label ` set rs \<subseteq> ?f ` (?M \<times> ?P \<times> ?C)"
  proof
    fix l assume "l \<in> label ` set rs"
    then obtain m p c d where r: "(m, p, c, d) \<in> set rs" "l = label (m, p, c, d)" by auto
    then have "(m, p, c) \<in> ?M \<times> ?P \<times> ?C" by force
    moreover have "l = ?f (m, p, c)" using r by (simp add: label_def)
    ultimately show "l \<in> ?f ` (?M \<times> ?P \<times> ?C)" by blast
  qed
  then have "card (label ` set rs) \<le> card (?M \<times> ?P \<times> ?C)"
    by (meson card_image_le card_mono finite_SigmaI finite_imageI finite_set order_trans)
  then show "card (series (serve_all rs no_metrics)) \<le> card ?M * (card ?P * card ?C)"
    by (simp add: series_labels card_cartesian_product)
  have "inj_on (\<lambda>i. label (show_nat i, [], 404, 0)) {0..<n}"
  proof (rule inj_onI)
    fix i j assume "label (show_nat i, [], 404, 0) = label (show_nat j, [], 404, 0)"
    then have "dec_val 0 (show_nat i) = dec_val 0 (show_nat j)" by (simp add: label_def)
    then show "i = j" by simp
  qed
  then have "card ((\<lambda>i. label (show_nat i, [], 404, 0)) ` {0..<n}) = n" by (simp add: card_image)
  moreover have "label ` set (map (\<lambda>i. (show_nat i, [], 404, 0)) [0..<n]) = (\<lambda>i. label (show_nat i, [], 404, 0)) ` {0..<n}"
    by (simp add: image_image)
  ultimately show "card (series (serve_all (map (\<lambda>i. (show_nat i, [], 404, 0)) [0..<n]) no_metrics)) = n"
    by (simp only: series_labels)
qed

end
