(* ===== verification/Spec2Isabelle.thy ===== *)
theory Spec2Isabelle
  imports EndToEnd TicketPrivacy PublishTime ApiContract ApiRequests Shutdown Consumers Startup Metrics
begin

text \<open>
  A model of the helpdesk back end (\<open>src/backend\<close>): four Go services and what travels between them.

  \<^bold>\<open>The program.\<close> Clients talk to \<open>api-gateway\<close>, which validates bearer tokens, writes the identity of
  the caller and a shared secret into headers, limits the rate and proxies to one of two services.
  \<open>auth-service\<close> keeps accounts and refresh-token sessions and signs the tokens. \<open>ticket-service\<close>
  keeps tickets with their audit trail, comments and attachments, computes reports, and publishes an
  event for each change to a RabbitMQ fanout exchange. \<open>notification-service\<close>, which clients reach
  directly, consumes the events twice: one consumer of a shared durable queue stores those with a
  target user, and one consumer per replica pushes every event to the WebSocket connections of that
  replica. Each of the three has a Postgres database; the rate limiters may share a Redis.

  \<^bold>\<open>Conventions.\<close> State is passed explicitly: a table is a list of rows with its sequence (\<open>Db\<close>), a
  service is a record of its tables, its limiter and what it has published. A handler takes the request
  (\<open>Http\<close>) and a record of its environment (the time, random values, which database calls fail) and
  returns the reply and the new state; errors are values of a sum type, in the order of the code's
  early returns. A sequence of requests is one interleaving of the clients; where steps of one call
  interleave with other calls (publisher, consumers, WebSocket hub, migrations, broker) there is a step
  relation. Identifiers (\<open>uint\<close>) are natural numbers with the bound \<open>2 ^ 64\<close> where they are parsed; page
  offsets and durations wrap at 64 bits (\<open>wrap64\<close>). Each file of the code that several services carry
  in identical copies (rate limiters, configuration helpers, \<open>queueargs.go\<close>, \<open>migrate.go\<close>,
  \<open>postgres.go\<close>, \<open>pool.go\<close>, the metrics of the gin services, response envelopes) is modelled once.

  \<^bold>\<open>Foundations.\<close> \<open>Prelude\<close>: shared lemmas, durations and runs of steps. \<open>GoStd\<close> and \<open>Strconv\<close>: the
  parts of strings, strconv, fmt and time that the code calls (\<open>Split\<close>, \<open>TrimSpace\<close>, \<open>Sscanf\<close>, \<open>Atoi\<close>,
  \<open>ParseUint\<close>, \<open>ParseFloat\<close>, \<open>ParseDuration\<close>). \<open>Json\<close>, \<open>JsonText\<close>: JSON values, the float64 of a decoded number and its
  printing with \<open>%v\<close>, and a parser and printer of JSON text with their round trip. \<open>Jwt\<close>: the token
  library as a parameter with the hypothesis \<open>jwt_ok\<close>. \<open>Db\<close>: tables, statements and transactions.

  \<^bold>\<open>auth-service.\<close> \<open>Sessions\<close>: \<open>refresh_token_repository.go\<close>, with the contract \<open>token_store\<close>
  (single use, cap, atomicity) that the model interprets. \<open>Users\<close>: \<open>user_repository.go\<close>, \<open>auth_usecase.go\<close> and
  \<open>bootstrap.go\<close>; the use cases are proved against the interface \<open>user_repository\<close>.
  \<open>AuthService\<close>: every handler of \<open>handler.go\<close>, the routes and the middleware, with the invariant of
  the service (\<open>auth_ok\<close>) over all requests. \<open>RateLimit\<close>: the in-memory and the Redis limiter (the Lua script as a
  function), both interpretations of \<open>token_bucket\<close> and, for a burst that refills within three minutes, refinements
  of a bucket that forgets nothing; and what the eviction after three minutes costs for any other burst.

  \<^bold>\<open>api-gateway.\<close> \<open>Gateway\<close>: middleware, \<open>authMiddleware\<close>, the route table, the proxy with the headers it
  drops, and the circuit breaker around an upstream call.

  \<^bold>\<open>ticket-service.\<close> \<open>Tickets\<close>: domain, repository, use cases and the status machine, an interpretation
  of \<open>audited_machine\<close>. \<open>Comments\<close>, \<open>Reports\<close>: the other use cases and the report queries. \<open>TicketService\<close>:
  every handler and the routes. \<open>TicketSafety\<close>, \<open>TicketPrivacy\<close>: the invariant of the service, who is
  notified, confidentiality of internal notes (by comparing two runs), immutability of attachments, paging.
  \<open>Publisher\<close>: \<open>publisher.go\<close>, dialling and the critical sections as functions, \<open>Publish\<close> as program counters of any
  number of goroutines. \<open>PublishTime\<close>: the same steps with the time a request spends in them, sending and confirms.

  \<^bold>\<open>notification-service.\<close> \<open>Events\<close>: the message format of both sides. \<open>Notifications\<close>: the table and
  the REST API. \<open>MessageBus\<close>: one delivery of the persist consumer, and broker, replicas and requests as a
  step relation. \<open>Consumers\<close>: the two loops of a replica and \<open>/health\<close>. \<open>QueueTopology\<close>: what each side
  declares and how the broker answers. \<open>ClientIP\<close>, \<open>WsHub\<close>: addresses behind proxies, admission, the
  client table, the bounded queue and delivery.

  \<^bold>\<open>All services.\<close> \<open>Config\<close>: every \<open>Load\<close>. \<open>Migrations\<close>: \<open>Run\<close> alone and with several replicas. \<open>Startup\<close>: \<open>main\<close> up to
  and with the start of the listener, \<open>Shutdown\<close>: \<open>main\<close> after the signal. \<open>Metrics\<close>: what is counted. \<open>EndToEnd\<close>: the properties that span services.

  \<^bold>\<open>API documents.\<close> \<open>ApiDoc\<close>: schemas with their validation, operations, and replies as JSON. \<open>AuthApi\<close>, \<open>TicketApi\<close>:
  the two documents (\<open>docs/docs.go\<close>), one constant per schema and operation, against every reply of the services.
  \<open>ApiContract\<close>: the documents against the routes of the gateway. \<open>ApiRequests\<close>: documented request bodies
  against the binding code. What the code does and the documents leave out is written as a table
  (\<open>auth_undocumented\<close>, \<open>ticket_undocumented\<close>).

  \<^bold>\<open>What the lemmas show.\<close> Each component has its invariant and the lemma that every operation keeps it
  (\<open>sessions_ok\<close>, \<open>users_ok\<close>, \<open>auth_ok\<close>, \<open>tickets_ok\<close>, \<open>service_ok\<close>, \<open>hub_ok\<close>, \<open>replica_ok\<close>, \<open>conforms\<close>); case rules for
  the outcomes of an operation (\<open>Login_cases\<close>, \<open>AssignTicket_cases\<close>, \<open>ticket_handle_cases\<close>); the effect of a
  handler as one of a few relations (\<open>auth_effect\<close>, \<open>ticket_effect\<close>, \<open>notif_effect\<close>); and round trips
  (\<open>parse_print\<close>, \<open>Unmarshal_Marshal\<close>, \<open>Sscanf_uint_show_nat\<close>). The properties are the theorems whose text starts
  with a claim number; a theorem named like another with \<open>_witness\<close> applies it to a concrete input.

  \<^bold>\<open>Bounds.\<close> \<open>open_attempts\<close> recurses over the ten attempts of \<open>NewPostgresDB\<close>, \<open>dialWithRetry\<close> over its
  fifteen; both are the code's own counters. A call of \<open>Publish\<close> makes at most 18 steps, the rank of its
  program counters. A shutdown closes the clients one by one and waits until a deadline the clock
  cannot pass. The IPv6 parser recurses over the eight groups an address can have. The JSON
  parser, \<open>Split\<close> and the number parsers recurse over their input (measures, no fuel).

  \<^bold>\<open>Parameters.\<close> golang-jwt, bcrypt, SHA-256, gobreaker, gin's CORS and \<open>ClientIP\<close>, golang-migrate, the e-mail and URL
  parsers and the out-of-range conversion of a float64 are arguments of the definitions; their
  documented behaviour is a named hypothesis (\<open>jwt_ok\<close>, \<open>bcrypt_ok\<close>, \<open>documented\<close> for golang-migrate,
  \<open>limits_ok\<close> for the calls of the AMQP library) with an instance in the witnesses. Postgres, Redis and RabbitMQ are modelled as far as the statements and calls of the code use them.

  \<^bold>\<open>Not modelled.\<close> Logging, the free text of the OpenAPI documents and their registration, net/http below
  the handlers and below \<open>Server.Shutdown\<close>, a \<open>SIGKILL\<close> during the shutdown, how long the proxy
  waits, Prometheus beyond its counts and the routes \<open>/metrics\<close> and \<open>/swagger\<close>, tests.

  \<^bold>\<open>Simplifications.\<close> Token counts of the limiters and averages of the reports are exact rationals or
  reals instead of float64, and \<open>ParseFloat\<close> does not round to 53 bits. A request reads the clock
  once: the code reads it again for \<open>created_at\<close>, so its \<open>due_at\<close> is the SLA after a moment that is a
  little earlier. A Redis script that ends in an error (a timeout, say) is taken not to have run.
  \<open>ILIKE\<close> folds ASCII letters only, and its underscore stands for one byte. The upstream URLs of the
  gateway are taken without a path of their own. Postgres accepts every value it is given, so a foreign
  message with an identifier above \<open>2 ^ 63 - 1\<close> or with a zero byte in its text, which Postgres
  would refuse, counts as stored. Requests to auth-service and ticket-service are atomic: what two of them do to
  each other inside a handler is modelled for the session store, the publisher, the consumers, the hub
  and the migrations only.
\<close>

end
